(* ===== verification/AgentshPrelude.thy ===== *)
theory AgentshPrelude
  imports Main "HOL-Library.Sublist" "HOL-Library.Char_ord" "HOL-Library.List_Lexorder"
begin

text \<open>
  Shared ground of the development: the operations of Go's \<^verbatim>\<open>strings\<close> and \<^verbatim>\<open>path/filepath\<close>
  packages that the modelled sources call, the lemma collections the component theories use, and
  the two interfaces several components implement: ordered rule lists in which the first matching
  rule decides, and transition systems with an invariant.

  A Go \<^verbatim>\<open>string\<close> is a sequence of bytes and is modelled as an Isabelle \<^typ>\<open>string\<close> (a list of
  8-bit characters), so \<^const>\<open>length\<close> is Go's \<^verbatim>\<open>len\<close>. \<^verbatim>\<open>strings.TrimSpace\<close> is modelled with all of
  Unicode's white space, in UTF-8. \<^verbatim>\<open>strings.ToLower\<close> and \<^verbatim>\<open>strings.ToUpper\<close> are modelled on the
  ASCII letters; a byte from 128 on is left as it is.
\<close>

named_theorems go_string \<open>equations for the string operations\<close>
named_theorems policy_simps \<open>unfolding rules of the policy components\<close>

lemma length_dropWhile_less: "xs \<noteq> [] \<Longrightarrow> P (hd xs) \<Longrightarrow> length (dropWhile P xs) < length xs"
  by (cases xs) (auto simp: le_imp_less_Suc length_dropWhile_le)

section \<open>Bytes\<close>

abbreviation byte :: "char \<Rightarrow> nat" where
  "byte c \<equiv> of_char c"

definition is_upper :: "char \<Rightarrow> bool" where
  "is_upper c \<longleftrightarrow> 65 \<le> byte c \<and> byte c \<le> 90"

definition is_lower :: "char \<Rightarrow> bool" where
  "is_lower c \<longleftrightarrow> 97 \<le> byte c \<and> byte c \<le> 122"

definition is_digit :: "char \<Rightarrow> bool" where
  "is_digit c \<longleftrightarrow> 48 \<le> byte c \<and> byte c \<le> 57"

definition is_letter :: "char \<Rightarrow> bool" where
  "is_letter c \<longleftrightarrow> is_upper c \<or> is_lower c"

definition ascii_lower :: "char \<Rightarrow> char" where
  "ascii_lower c = (if is_upper c then char_of (byte c + 32) else c)"

definition ascii_upper :: "char \<Rightarrow> char" where
  "ascii_upper c = (if is_lower c then char_of (byte c - 32) else c)"

section \<open>The strings package\<close>

definition ToLower :: "string \<Rightarrow> string" where
  "ToLower s = map ascii_lower s"

definition ToUpper :: "string \<Rightarrow> string" where
  "ToUpper s = map ascii_upper s"

definition HasPrefix :: "string \<Rightarrow> string \<Rightarrow> bool" where
  "HasPrefix s p \<longleftrightarrow> take (length p) s = p"

definition HasSuffix :: "string \<Rightarrow> string \<Rightarrow> bool" where
  "HasSuffix s p \<longleftrightarrow> length p \<le> length s \<and> drop (length s - length p) s = p"

definition TrimPrefix :: "string \<Rightarrow> string \<Rightarrow> string" where
  "TrimPrefix s p = (if HasPrefix s p then drop (length p) s else s)"

definition TrimSuffix :: "string \<Rightarrow> string \<Rightarrow> string" where
  "TrimSuffix s p = (if HasSuffix s p then take (length s - length p) s else s)"

text \<open>The UTF-8 encodings of the code points that \<^verbatim>\<open>unicode.IsSpace\<close> accepts.\<close>

definition space_runes :: "string list" where
  "space_runes =
     [[CHR 0x09], [CHR 0x0A], [CHR 0x0B], [CHR 0x0C], [CHR 0x0D], [CHR 0x20],
      [CHR 0xC2, CHR 0x85], [CHR 0xC2, CHR 0xA0], [CHR 0xE1, CHR 0x9A, CHR 0x80],
      [CHR 0xE2, CHR 0x80, CHR 0x80], [CHR 0xE2, CHR 0x80, CHR 0x81],
      [CHR 0xE2, CHR 0x80, CHR 0x82], [CHR 0xE2, CHR 0x80, CHR 0x83],
      [CHR 0xE2, CHR 0x80, CHR 0x84], [CHR 0xE2, CHR 0x80, CHR 0x85],
      [CHR 0xE2, CHR 0x80, CHR 0x86], [CHR 0xE2, CHR 0x80, CHR 0x87],
      [CHR 0xE2, CHR 0x80, CHR 0x88], [CHR 0xE2, CHR 0x80, CHR 0x89],
      [CHR 0xE2, CHR 0x80, CHR 0x8A], [CHR 0xE2, CHR 0x80, CHR 0xA8],
      [CHR 0xE2, CHR 0x80, CHR 0xA9], [CHR 0xE2, CHR 0x80, CHR 0xAF],
      [CHR 0xE2, CHR 0x81, CHR 0x9F], [CHR 0xE3, CHR 0x80, CHR 0x80]]"

lemma find_SomeD: "find P xs = Some x \<Longrightarrow> P x \<and> x \<in> set xs"
  by (induction xs) (auto split: if_splits)

function strip_runes :: "string list \<Rightarrow> string \<Rightarrow> string" where
  "strip_runes rs s =
     (case find (\<lambda>r. r \<noteq> [] \<and> HasPrefix s r) rs of
        None \<Rightarrow> s
      | Some r \<Rightarrow> strip_runes rs (drop (length r) s))"
  by pat_completeness auto
termination
proof (relation "measure (\<lambda>(rs, s). length s)", goal_cases)
  case (2 rs s r)
  then have r: "r \<noteq> []" and p: "take (length r) s = r"
    by (auto dest!: find_SomeD simp: HasPrefix_def)
  then have "s \<noteq> []" by auto
  with r show ?case by simp
qed simp

declare strip_runes.simps [simp del]

definition TrimSpace :: "string \<Rightarrow> string" where
  "TrimSpace s = rev (strip_runes (map rev space_runes) (rev (strip_runes space_runes s)))"

text \<open>\<^verbatim>\<open>strings.Fields\<close>, with the field being read.\<close>

function fieldsLoop :: "string \<Rightarrow> string \<Rightarrow> string list" where
  "fieldsLoop cur [] = (if cur = [] then [] else [cur])"
| "fieldsLoop cur (c # cs) =
     (case find (\<lambda>r. HasPrefix (c # cs) r) space_runes of
        None \<Rightarrow> fieldsLoop (cur @ [c]) cs
      | Some r \<Rightarrow> (if cur = [] then [] else [cur]) @ fieldsLoop [] (drop (length r - 1) cs))"
  by pat_completeness auto
termination
  by (relation "measure (\<lambda>(cur, s). length s)") auto

definition Fields :: "string \<Rightarrow> string list" where
  "Fields s = fieldsLoop [] s"

text \<open>\<^verbatim>\<open>strings.IndexByte\<close>: the result \<^const>\<open>None\<close> is Go's \<^verbatim>\<open>-1\<close>.\<close>

fun IndexByte :: "string \<Rightarrow> char \<Rightarrow> nat option" where
  "IndexByte [] c = None"
| "IndexByte (b # s) c = (if b = c then Some 0 else map_option Suc (IndexByte s c))"

definition ContainsByte :: "string \<Rightarrow> char \<Rightarrow> bool" where
  "ContainsByte s c \<longleftrightarrow> c \<in> set s"

fun Contains :: "string \<Rightarrow> string \<Rightarrow> bool" where
  "Contains [] p \<longleftrightarrow> p = []"
| "Contains (b # s) p \<longleftrightarrow> HasPrefix (b # s) p \<or> Contains s p"

fun Split :: "string \<Rightarrow> char \<Rightarrow> string list" where
  "Split [] c = [[]]"
| "Split (b # s) c =
     (if b = c then [] # Split s c
      else (case Split s c of [] \<Rightarrow> [[b]] | w # ws \<Rightarrow> (b # w) # ws))"

fun Join :: "string list \<Rightarrow> string \<Rightarrow> string" where
  "Join [] sep = []"
| "Join [w] sep = w"
| "Join (w # v # ws) sep = w @ sep @ Join (v # ws) sep"

text \<open>The part of a string after the last byte that satisfies a predicate; all of it if none does.\<close>

definition after_last :: "(char \<Rightarrow> bool) \<Rightarrow> string \<Rightarrow> string" where
  "after_last P s = rev (takeWhile (\<lambda>c. \<not> P c) (rev s))"

section \<open>The filepath package on Unix\<close>

abbreviation slash :: char where
  "slash \<equiv> CHR ''/''"

definition drop_trailing_slashes :: "string \<Rightarrow> string" where
  "drop_trailing_slashes s = rev (dropWhile (\<lambda>c. c = slash) (rev s))"

definition filepath_Base :: "string \<Rightarrow> string" where
  "filepath_Base p =
     (if p = [] then ''.''
      else let q = after_last (\<lambda>c. c = slash) (drop_trailing_slashes p)
           in if q = [] then ''/'' else q)"

text \<open>
  \<^verbatim>\<open>filepath.Clean\<close> reads the path segment by segment and keeps the segments of the result on a
  stack (here in reverse): empty and \<^verbatim>\<open>.\<close> segments vanish, \<^verbatim>\<open>..\<close> drops the last segment, is kept at
  the start of a relative path and vanishes at the start of a rooted one.
\<close>

fun clean_segments :: "bool \<Rightarrow> string list \<Rightarrow> string list \<Rightarrow> string list" where
  "clean_segments rooted out [] = out"
| "clean_segments rooted out (seg # segs) =
     clean_segments rooted
       (if seg = [] \<or> seg = ''.'' then out
        else if seg = ''..'' then
          (case out of
             [] \<Rightarrow> if rooted then [] else [''..'']
           | last_seg # rest \<Rightarrow> if last_seg = ''..'' then ''..'' # out else rest)
        else seg # out) segs"

definition filepath_Clean :: "string \<Rightarrow> string" where
  "filepath_Clean p =
     (if p = [] then ''.''
      else let rooted = HasPrefix p ''/'';
               body = Join (rev (clean_segments rooted [] (Split p slash))) ''/''
           in if rooted then ''/'' @ body else if body = [] then ''.'' else body)"

definition filepath_Join :: "string list \<Rightarrow> string" where
  "filepath_Join elems =
     (case filter (\<lambda>e. e \<noteq> []) elems of
        [] \<Rightarrow> []
      | es \<Rightarrow> filepath_Clean (Join es ''/''))"

section \<open>Lemmas on the string operations\<close>

lemma HasPrefix_append [simp]: "HasPrefix (p @ s) p"
  by (simp add: HasPrefix_def)

lemma HasPrefix_iff: "HasPrefix s p \<longleftrightarrow> (\<exists>t. s = p @ t)"
  by (metis HasPrefix_append HasPrefix_def append_take_drop_id)

lemma HasSuffix_iff: "HasSuffix s p \<longleftrightarrow> (\<exists>t. s = t @ p)"
proof
  assume "HasSuffix s p"
  then have "s = take (length s - length p) s @ p"
    unfolding HasSuffix_def by (metis append_take_drop_id)
  then show "\<exists>t. s = t @ p" ..
qed (auto simp: HasSuffix_def)

lemma TrimSuffix_append [simp]: "TrimSuffix (s @ p) p = s"
  by (simp add: TrimSuffix_def HasSuffix_def)

lemma length_ToLower [simp]: "length (ToLower s) = length s"
  by (simp add: ToLower_def)

lemma ToLower_append: "ToLower (s @ t) = ToLower s @ ToLower t"
  by (simp add: ToLower_def)

lemma ascii_lower_lower: "\<not> is_upper (ascii_lower c)"
proof (cases "is_upper c")
  case True
  then have "byte c + 32 < 256" by (simp add: is_upper_def)
  then have "byte (ascii_lower c) = byte c + 32"
    using True by (simp add: ascii_lower_def)
  with True show ?thesis by (simp add: is_upper_def)
qed (simp add: ascii_lower_def)

lemma ascii_lower_idem [simp]: "ascii_lower (ascii_lower c) = ascii_lower c"
  using ascii_lower_lower [of c] by (simp add: ascii_lower_def [of "ascii_lower c"])

lemma ToLower_idem [simp]: "ToLower (ToLower s) = ToLower s"
  by (simp add: ToLower_def)

lemma byte_upper: "is_lower c \<Longrightarrow> byte (ascii_upper c) = byte c - 32 \<and> 65 \<le> byte c - 32 \<and> byte c - 32 \<le> 90"
  by (auto simp: ascii_upper_def is_lower_def)

lemma ascii_lower_upper: "ascii_lower (ascii_upper c) = ascii_lower c"
proof (cases "is_lower c")
  case True
  then have "byte (ascii_upper c) + 32 = byte c" "is_upper (ascii_upper c)" "\<not> is_upper c"
    using byte_upper [OF True] by (auto simp: is_upper_def is_lower_def)
  then show ?thesis by (simp add: ascii_lower_def)
qed (simp add: ascii_upper_def)

lemma ascii_lower_eq_dot: "ascii_lower c = CHR ''.'' \<longleftrightarrow> c = CHR ''.''"
  by (auto simp: ascii_lower_def is_upper_def dest: arg_cong [where f = byte])

lemma ToLower_dot: "ToLower ''.'' = ''.''"
  by (simp add: ToLower_def ascii_lower_def is_upper_def)

lemma strip_runes_none:
  "(\<And>r. r \<in> set rs \<Longrightarrow> r \<noteq> [] \<Longrightarrow> \<not> HasPrefix s r) \<Longrightarrow> strip_runes rs s = s"
  by (subst strip_runes.simps) (auto split: option.split dest!: find_SomeD)

text \<open>A byte that \<^const>\<open>TrimSpace\<close> never removes: ASCII and not white space.\<close>

definition plain :: "char \<Rightarrow> bool" where
  "plain c \<longleftrightarrow> byte c < 128 \<and> [c] \<notin> set space_runes"

lemma length_strip_runes: "length (strip_runes rs s) \<le> length s"
proof (induction rs s rule: strip_runes.induct)
  case (1 rs s)
  then show ?case
    by (subst strip_runes.simps) (force split: option.split)
qed

lemma length_TrimSpace: "length (TrimSpace s) \<le> length s"
  unfolding TrimSpace_def using length_strip_runes by (metis length_rev le_trans)

lemma space_runes_not_plain: "r \<in> set space_runes \<Longrightarrow> \<not> plain (hd r) \<and> \<not> plain (last r) \<and> r \<noteq> []"
  by (auto simp: space_runes_def plain_def)

lemma strip_runes_plain:
  "s \<noteq> [] \<Longrightarrow> plain (hd s) \<Longrightarrow> strip_runes space_runes s = s"
  by (rule strip_runes_none) (auto simp: HasPrefix_iff dest: space_runes_not_plain)

lemma strip_runes_rev_plain:
  "s \<noteq> [] \<Longrightarrow> plain (last s) \<Longrightarrow> strip_runes (map rev space_runes) (rev s) = rev s"
proof (rule strip_runes_none)
  fix r assume s: "s \<noteq> []" "plain (last s)" and r: "r \<in> set (map rev space_runes)" "r \<noteq> []"
  then obtain r' where r': "r' \<in> set space_runes" "r = rev r'" by auto
  show "\<not> HasPrefix (rev s) r"
  proof
    assume "HasPrefix (rev s) r"
    then obtain t where "rev s = rev r' @ t" using r' by (auto simp: HasPrefix_iff)
    then have "s = rev t @ r'" by (metis rev_append rev_rev_ident)
    with s r r' space_runes_not_plain [of r'] show False by auto
  qed
qed

lemma TrimSpace_plain: "s \<noteq> [] \<Longrightarrow> plain (hd s) \<Longrightarrow> plain (last s) \<Longrightarrow> TrimSpace s = s"
  by (simp add: TrimSpace_def strip_runes_plain strip_runes_rev_plain)

lemma TrimSpace_space: "TrimSpace (CHR '' '' # s) = TrimSpace s"
proof -
  have "find (\<lambda>r. r \<noteq> [] \<and> HasPrefix (CHR '' '' # s) r) space_runes = Some [CHR '' '']"
    by (simp add: space_runes_def HasPrefix_def)
  then have "strip_runes space_runes (CHR '' '' # s) = strip_runes space_runes s"
    by (subst strip_runes.simps) simp
  then show ?thesis by (simp add: TrimSpace_def)
qed

lemma TrimSpace_Nil [simp]: "TrimSpace [] = []"
  using length_TrimSpace [of "[]"] by simp

lemma IndexByte_eq_None_iff: "IndexByte s c = None \<longleftrightarrow> c \<notin> set s"
  by (induction s) auto

lemma IndexByte_SomeD:
  "IndexByte s c = Some i \<Longrightarrow> i < length s \<and> s ! i = c \<and> c \<notin> set (take i s)"
  by (induction s arbitrary: i) (auto split: if_splits simp: nth_Cons')

lemma IndexByte_append:
  "c \<notin> set s \<Longrightarrow> IndexByte (s @ c # t) c = Some (length s)"
  by (induction s) auto

lemma Split_not_Nil [simp]: "Split s c \<noteq> []"
  by (induction s) (auto split: list.split)

lemma Join_Cons: "ws \<noteq> [] \<Longrightarrow> Join (w # ws) sep = w @ sep @ Join ws sep"
  by (cases ws) auto

lemma Join_Cons_head: "Join ((b # w) # ws) sep = b # Join (w # ws) sep"
  by (cases ws) auto

lemma Split_Join: "Join (Split s c) [c] = s"
proof (induction s)
  case (Cons b s)
  then show ?case
    by (cases "Split s c") (simp_all add: Join_Cons Join_Cons_head)
qed simp

lemma Join_append:
  "xs \<noteq> [] \<Longrightarrow> ys \<noteq> [] \<Longrightarrow> Join (xs @ ys) sep = Join xs sep @ sep @ Join ys sep"
  by (induction xs rule: induct_list012) (auto simp: Join_Cons)

lemma Join_hd: "w \<noteq> [] \<Longrightarrow> hd (Join (w # ws) sep) = hd w \<and> Join (w # ws) sep \<noteq> []"
  by (cases ws) auto

lemma Join_last: "ws \<noteq> [] \<Longrightarrow> last ws \<noteq> [] \<Longrightarrow> last (Join ws sep) = last (last ws) \<and> Join ws sep \<noteq> []"
  by (induction ws rule: induct_list012) (auto simp: Join_Cons)

lemma Split_append: "Split (a @ c # b) c = Split a c @ Split b c"
  by (induction a) (auto split: list.split)

lemma Split_no_sep: "w \<in> set (Split s c) \<Longrightarrow> c \<notin> set w"
  by (induction s arbitrary: w) (auto split: if_splits list.splits)

lemma sum_length_neighbours:
  "i + 1 < length xs \<Longrightarrow> length (xs ! i) + length (xs ! (i + 1)) \<le> sum_list (map length xs)"
proof (induction xs arbitrary: i)
  case (Cons x xs)
  show ?case
  proof (cases i)
    case 0
    with Cons.prems show ?thesis by (cases xs) auto
  next
    case (Suc j)
    with Cons.prems have "length (xs ! j) + length (xs ! (j + 1)) \<le> sum_list (map length xs)"
      by (intro Cons.IH) simp
    with Suc show ?thesis by simp
  qed
qed simp

lemma clean_segments_append:
  "clean_segments rooted out (xs @ ys) = clean_segments rooted (clean_segments rooted out xs) ys"
  by (induction rooted out xs rule: clean_segments.induct) simp_all

lemma clean_segments_nonempty:
  "[] \<notin> set out \<Longrightarrow> [] \<notin> set (clean_segments rooted out segs)"
proof (induction rooted out segs rule: clean_segments.induct)
  case (2 rooted out seg segs)
  then show ?case by (auto split: list.splits if_splits)
qed simp

lemma clean_segments_no_dotdot:
  "''..'' \<notin> set segs \<Longrightarrow>
   clean_segments rooted out segs = rev (filter (\<lambda>s. s \<noteq> [] \<and> s \<noteq> ''.'') segs) @ out"
  by (induction segs arbitrary: out) auto

text \<open>Joining a rooted directory with a path that has no \<^verbatim>\<open>..\<close> segment stays below the directory.\<close>

lemma filepath_Join_below:
  assumes "HasPrefix base ''/''" "''..'' \<notin> set (Split p slash)"
  shows "\<exists>rel. ''..'' \<notin> set rel \<and>
    filepath_Join [base, p] =
      (if rel = [] then filepath_Clean base
       else if filepath_Clean base = ''/'' then ''/'' @ Join rel ''/''
       else filepath_Clean base @ ''/'' @ Join rel ''/'')"
proof -
  define rel where "rel = filter (\<lambda>s. s \<noteq> [] \<and> s \<noteq> ''.'') (Split p slash)"
  define out where "out = clean_segments True [] (Split base slash)"
  have nd: "''..'' \<notin> set rel" using assms(2) by (auto simp: rel_def)
  have ne: "base \<noteq> []" using assms(1) by (auto simp: HasPrefix_def)
  have cb: "filepath_Clean base = ''/'' @ Join (rev out) ''/''"
    using assms(1) ne by (simp add: filepath_Clean_def out_def)
  have cj: "filepath_Join [base, p] = ''/'' @ Join (rev out @ rel) ''/''"
  proof (cases "p = []")
    case True
    then show ?thesis using ne cb by (simp add: filepath_Join_def rel_def)
  next
    case False
    have "HasPrefix (base @ slash # p) ''/''" using assms(1) ne by (cases base) (auto simp: HasPrefix_def)
    then show ?thesis
      using False ne
      by (simp add: filepath_Join_def filepath_Clean_def Split_append clean_segments_append
          clean_segments_no_dotdot [OF assms(2)] out_def rel_def)
  qed
  have one: "filepath_Clean base = ''/'' \<longleftrightarrow> out = []"
  proof (cases "rev out")
    case (Cons a as)
    have "[] \<notin> set (rev out)"
      using clean_segments_nonempty [of "[]" True "Split base slash"] by (simp add: out_def)
    then have "Join (rev out) ''/'' \<noteq> []" using Cons Join_hd [of a as "''/''"] by auto
    then show ?thesis using cb Cons by auto
  qed (simp add: cb)
  show ?thesis
  proof (intro exI [of _ rel] conjI)
    show "filepath_Join [base, p] = (if rel = [] then filepath_Clean base
       else if filepath_Clean base = ''/'' then ''/'' @ Join rel ''/''
       else filepath_Clean base @ ''/'' @ Join rel ''/'')"
    proof (cases "rel = [] \<or> out = []")
      case False
      then show ?thesis using one cj cb by (simp add: Join_append)
    qed (use one cj cb in auto)
  qed (rule nd)
qed

section \<open>Host and port\<close>

definition last_index :: "char \<Rightarrow> string \<Rightarrow> nat option" where
  "last_index c s = map_option (\<lambda>i. length s - 1 - i) (IndexByte (rev s) c)"

text \<open>\<^verbatim>\<open>net.SplitHostPort\<close> and \<^verbatim>\<open>net.JoinHostPort\<close>.\<close>

definition SplitHostPort :: "string \<Rightarrow> (string \<times> string) option" where
  "SplitHostPort hostport =
     (case last_index (CHR '':'') hostport of
        None \<Rightarrow> None
      | Some i \<Rightarrow>
          if hd hostport = CHR ''['' then
            (case IndexByte hostport (CHR '']'') of
               None \<Rightarrow> None
             | Some j \<Rightarrow>
                 if j + 1 = length hostport then None
                 else if j + 1 \<noteq> i then None
                 else if CHR ''['' \<in> set (drop 1 hostport) then None
                 else if CHR '']'' \<in> set (drop (j + 1) hostport) then None
                 else Some (take (j - 1) (tl hostport), drop (i + 1) hostport))
          else
            (let host = take i hostport in
             if CHR '':'' \<in> set host then None
             else if CHR ''['' \<in> set hostport then None
             else if CHR '']'' \<in> set hostport then None
             else Some (host, drop (i + 1) hostport)))"

definition JoinHostPort :: "string \<Rightarrow> string \<Rightarrow> string" where
  "JoinHostPort host port =
     (if CHR '':'' \<in> set host then ''['' @ host @ '']:'' @ port else host @ '':'' @ port)"

section \<open>Errors and loops that stop at the first error\<close>

definition sum_bind :: "'e + 'a \<Rightarrow> ('a \<Rightarrow> 'e + 'b) \<Rightarrow> 'e + 'b" where
  "sum_bind x f = (case x of Inl e \<Rightarrow> Inl e | Inr a \<Rightarrow> f a)"

fun sum_mapM :: "('a \<Rightarrow> 'e + 'b) \<Rightarrow> 'a list \<Rightarrow> 'e + 'b list" where
  "sum_mapM f [] = Inr []"
| "sum_mapM f (x # xs) =
     (case f x of
        Inl e \<Rightarrow> Inl e
      | Inr y \<Rightarrow> (case sum_mapM f xs of Inl e \<Rightarrow> Inl e | Inr ys \<Rightarrow> Inr (y # ys)))"

lemma sum_bind_simps [simp]: "sum_bind (Inl e) f = Inl e" "sum_bind (Inr a) f = f a"
  by (simp_all add: sum_bind_def)

lemma sum_bind_Inr_iff: "sum_bind x f = Inr b \<longleftrightarrow> (\<exists>a. x = Inr a \<and> f a = Inr b)"
  by (cases x) simp_all

lemma sum_bind_Inl_iff: "sum_bind x f = Inl e \<longleftrightarrow> x = Inl e \<or> (\<exists>a. x = Inr a \<and> f a = Inl e)"
  by (cases x) simp_all

lemma sum_mapM_Inr_iff: "sum_mapM f xs = Inr ys \<longleftrightarrow> list_all2 (\<lambda>x y. f x = Inr y) xs ys"
proof (induction xs arbitrary: ys)
  case (Cons x xs)
  have IH: "list_all2 (\<lambda>x y. f x = Inr y) xs zs \<longleftrightarrow> sum_mapM f xs = Inr zs" for zs
    using Cons.IH by simp
  show ?case
    by (cases ys) (auto simp: IH split: sum.splits)
qed auto

lemma sum_mapM_length: "sum_mapM f xs = Inr ys \<Longrightarrow> length ys = length xs"
  by (simp add: sum_mapM_Inr_iff list_all2_lengthD)

lemma sum_mapM_set:
  "sum_mapM f xs = Inr ys \<Longrightarrow> y \<in> set ys \<longleftrightarrow> (\<exists>x \<in> set xs. f x = Inr y)"
  by (induction xs arbitrary: ys) (auto split: sum.splits)

lemma sum_mapM_Inl:
  "sum_mapM f xs = Inl e \<Longrightarrow> \<exists>pre x post. xs = pre @ x # post \<and> f x = Inl e \<and> (\<forall>p \<in> set pre. \<exists>y. f p = Inr y)"
proof (induction xs)
  case (Cons x xs)
  show ?case
  proof (cases "f x")
    case (Inl d)
    with Cons.prems show ?thesis by (intro exI [of _ "[]"] exI [of _ x] exI [of _ xs]) simp
  next
    case (Inr y)
    with Cons.prems have "sum_mapM f xs = Inl e" by (auto split: sum.splits)
    with Cons.IH obtain pre z post where
      "xs = pre @ z # post" "f z = Inl e" "\<forall>p \<in> set pre. \<exists>y. f p = Inr y" by blast
    with Inr show ?thesis by (intro exI [of _ "x # pre"] exI [of _ z] exI [of _ post]) simp
  qed
qed simp

section \<open>Decimal numbers (strconv)\<close>

definition digit_value :: "char \<Rightarrow> nat" where
  "digit_value c = of_char c - 48"

definition digits_value :: "string \<Rightarrow> nat" where
  "digits_value s = foldl (\<lambda>n c. 10 * n + digit_value c) 0 s"

text \<open>\<^verbatim>\<open>Atoi\<close>: an optional sign and at least one digit, within the range of a 64-bit integer.\<close>

definition Atoi :: "string \<Rightarrow> int option" where
  "Atoi s =
     (let neg = HasPrefix s ''-'';
          body = (if neg \<or> HasPrefix s ''+'' then tl s else s)
      in if body = [] \<or> \<not> list_all is_digit body then None
         else let n = (if neg then - int (digits_value body) else int (digits_value body))
              in if - (2 ^ 63) \<le> n \<and> n < 2 ^ 63 then Some n else None)"

fun Itoa_nat :: "nat \<Rightarrow> string" where
  "Itoa_nat n = (if n < 10 then [char_of (n + 48)] else Itoa_nat (n div 10) @ [char_of (n mod 10 + 48)])"

declare Itoa_nat.simps [simp del]

definition Itoa :: "int \<Rightarrow> string" where
  "Itoa i = (if i < 0 then ''-'' @ Itoa_nat (nat (- i)) else Itoa_nat (nat i))"

lemma digits_value_snoc: "digits_value (s @ [c]) = 10 * digits_value s + digit_value c"
  by (simp add: digits_value_def)

lemma digit_char [simp]: "(n::nat) < 10 \<Longrightarrow> digit_value (char_of (n + 48)) = n"
  by (simp add: digit_value_def)

lemma is_digit_char [simp]: "(n::nat) < 10 \<Longrightarrow> is_digit (char_of (n + 48))"
  by (simp add: is_digit_def)

lemma digits_Itoa: "digits_value (Itoa_nat n) = n"
  by (induction n rule: Itoa_nat.induct)
     (subst Itoa_nat.simps, auto simp: digits_value_snoc, simp add: digits_value_def)

lemma Itoa_digits: "list_all is_digit (Itoa_nat n) \<and> Itoa_nat n \<noteq> []"
  by (induction n rule: Itoa_nat.induct) (subst (1 2) Itoa_nat.simps, auto)

lemma Atoi_Itoa: "- (2 ^ 63) \<le> i \<Longrightarrow> i < 2 ^ 63 \<Longrightarrow> Atoi (Itoa i) = Some i"
proof -
  assume b: "- (2 ^ 63) \<le> i" "i < 2 ^ 63"
  have *: "\<not> HasPrefix (Itoa_nat n) ''-''" "\<not> HasPrefix (Itoa_nat n) ''+''" for n
    using Itoa_digits [of n] by (cases "Itoa_nat n"; auto simp: HasPrefix_def is_digit_def)+
  show ?thesis
    using b * Itoa_digits
    by (cases "i < 0") (simp_all add: Atoi_def Itoa_def Let_def digits_Itoa HasPrefix_def)
qed

section \<open>Ordered rule lists: the first matching rule decides\<close>

text \<open>
  Every rule family of the policy engine is a list walked in order: the first rule whose selectors
  match the request gives the decision, and a default applies when none does. The interface names
  the matcher, the decision of a rule, the default and the loop itself.
\<close>

locale first_match =
  fixes matches :: "'rule \<Rightarrow> 'req \<Rightarrow> bool"
    and decide :: "'rule \<Rightarrow> 'req \<Rightarrow> 'dec"
    and default :: "'req \<Rightarrow> 'dec"
    and eval :: "'rule list \<Rightarrow> 'req \<Rightarrow> 'dec"
  assumes eval_Nil: "eval [] q = default q"
    and eval_Cons: "eval (r # rs) q = (if matches r q then decide r q else eval rs q)"
begin

lemma skip: "\<forall>r \<in> set pre. \<not> matches r q \<Longrightarrow> eval (pre @ rs) q = eval rs q"
  by (induction pre) (auto simp: eval_Cons)

lemma first: "\<forall>r \<in> set pre. \<not> matches r q \<Longrightarrow> matches r q \<Longrightarrow> eval (pre @ r # rs) q = decide r q"
  by (simp add: skip eval_Cons)

lemma none: "\<forall>r \<in> set rs. \<not> matches r q \<Longrightarrow> eval rs q = default q"
  using skip [of rs q "[]"] by (simp add: eval_Nil)

lemma outcome:
  "(\<exists>pre r post. rs = pre @ r # post \<and> matches r q \<and> (\<forall>p \<in> set pre. \<not> matches p q)
      \<and> eval rs q = decide r q)
   \<or> (\<forall>r \<in> set rs. \<not> matches r q) \<and> eval rs q = default q"
proof (cases "\<exists>r \<in> set rs. matches r q")
  case True
  then obtain pre r post where rs: "rs = pre @ r # post" and m: "matches r q"
    and p: "\<forall>p \<in> set pre. \<not> matches p q"
    using split_list_first_prop [OF True] by blast
  from p m have "eval rs q = decide r q" unfolding rs by (rule first)
  with rs m p show ?thesis by blast
next
  case False
  then show ?thesis using none by auto
qed

lemma outcome_nth:
  "(\<exists>i < length rs. matches (rs ! i) q \<and> (\<forall>j < i. \<not> matches (rs ! j) q) \<and> eval rs q = decide (rs ! i) q)
   \<or> (\<forall>i < length rs. \<not> matches (rs ! i) q) \<and> eval rs q = default q"
  using outcome [of rs q]
proof
  assume "\<exists>pre r post. rs = pre @ r # post \<and> matches r q \<and> (\<forall>p \<in> set pre. \<not> matches p q)
      \<and> eval rs q = decide r q"
  then obtain pre r post where r: "rs = pre @ r # post" "matches r q" "\<forall>p \<in> set pre. \<not> matches p q"
    "eval rs q = decide r q" by blast
  then have "length pre < length rs \<and> rs ! length pre = r \<and> (\<forall>j < length pre. \<not> matches (rs ! j) q)"
    by (auto simp: nth_append)
  with r(2,4) show ?thesis by (intro disjI1 exI [of _ "length pre"]) simp
qed (simp add: all_set_conv_all_nth)

lemma filter_irrelevant:
  "(\<And>r. r \<in> set rs \<Longrightarrow> matches r q \<Longrightarrow> P r) \<Longrightarrow> eval (filter P rs) q = eval rs q"
  by (induction rs) (auto simp: eval_Cons eval_Nil)

lemma all_decide:
  "(\<And>r. r \<in> set rs \<Longrightarrow> matches r q \<Longrightarrow> Q (decide r q)) \<Longrightarrow> Q (default q) \<Longrightarrow> Q (eval rs q)"
  using outcome [of rs q] by auto

end

section \<open>Transition systems\<close>

text \<open>
  A component with state is a step function on inputs, a guard that says which inputs its callers may
  give in a state, and an invariant the guarded steps keep. \<^verbatim>\<open>guarded\<close> says that a sequence of inputs
  respects the guard all along.
\<close>

fun guarded :: "('s \<Rightarrow> 'i \<Rightarrow> bool) \<Rightarrow> ('s \<Rightarrow> 'i \<Rightarrow> 's) \<Rightarrow> 's \<Rightarrow> 'i list \<Rightarrow> bool" where
  "guarded enabled step s [] \<longleftrightarrow> True"
| "guarded enabled step s (i # is) \<longleftrightarrow> enabled s i \<and> guarded enabled step (step s i) is"

locale transition_system =
  fixes enabled :: "'s \<Rightarrow> 'i \<Rightarrow> bool"
    and step :: "'s \<Rightarrow> 'i \<Rightarrow> 's"
    and invar :: "'s \<Rightarrow> bool"
  assumes step_invar: "invar s \<Longrightarrow> enabled s i \<Longrightarrow> invar (step s i)"
begin

lemma run_invar: "invar s \<Longrightarrow> guarded enabled step s is \<Longrightarrow> invar (foldl step s is)"
  by (induction "is" arbitrary: s) (auto intro: step_invar)

lemma run_invar_total: "(\<And>s i. enabled s i) \<Longrightarrow> invar s \<Longrightarrow> invar (foldl step s is)"
  by (induction "is" arbitrary: s) (auto intro: step_invar)

end

end
