(* ===== verification/ShellParse.thy ===== *)
theory ShellParse
  imports AgentshPrelude
begin

text \<open>
  The package \<^verbatim>\<open>internal/shellparse\<close> (\<^verbatim>\<open>shellparse.go\<close>): it finds the command a shell invocation
  \<^verbatim>\<open>sh -c "..."\<close> will run, so that the policy pre-check sees it. One definition per Go function,
  under the Go name. A Go result pair \<^verbatim>\<open>(nil, true)\<close> of the tokenizer (the script is opaque) is
  \<^const>\<open>None\<close>; an index result with \<^verbatim>\<open>ok = false\<close> is \<^const>\<open>None\<close>. Loops over an index are recursions
  over the list that is left.

  The lemmas show that the tokenizer accepts exactly the scripts of a small grammar of shell words
  and returns their values, that wrappers and clean assignments do not hide the command, that the
  four outcomes exclude each other, and that a derived invocation is strictly smaller than the one
  it was derived from.
\<close>

section \<open>Character classes and word lists\<close>

definition isUnquotedAllowedByte :: "char \<Rightarrow> bool" where
  "isUnquotedAllowedByte b \<longleftrightarrow>
     is_upper b \<or> is_lower b \<or> is_digit b \<or>
     b = CHR ''_'' \<or> b = CHR ''.'' \<or> b = CHR ''/'' \<or> b = CHR ''-''"

definition valueBytesAllowed :: "string \<Rightarrow> bool" where
  "valueBytesAllowed value \<longleftrightarrow>
     list_all (\<lambda>b. is_upper b \<or> is_lower b \<or> is_digit b \<or>
                   b = CHR ''_'' \<or> b = CHR ''.'' \<or> b = CHR ''/'' \<or> b = CHR ''-'') value"

definition isValidAssignName :: "string \<Rightarrow> bool" where
  "isValidAssignName name \<longleftrightarrow>
     (case name of
        [] \<Rightarrow> False
      | c # cs \<Rightarrow> (is_upper c \<or> is_lower c \<or> c = CHR ''_'') \<and>
          list_all (\<lambda>c. is_upper c \<or> is_lower c \<or> is_digit c \<or> c = CHR ''_'') cs)"

definition isNumericIncrement :: "string \<Rightarrow> bool" where
  "isNumericIncrement s \<longleftrightarrow>
     (case s of
        [] \<Rightarrow> False
      | c # cs \<Rightarrow>
          if c = CHR ''+'' \<or> c = CHR ''-'' then cs \<noteq> [] \<and> list_all is_digit cs
          else list_all is_digit s)"

definition isSafeShellShortFlag :: "char \<Rightarrow> bool" where
  "isSafeShellShortFlag ch \<longleftrightarrow> ch \<in> set ''eufx'' \<or> ch \<in> set ''livBHs''"

definition isKnownShell :: "string \<Rightarrow> bool" where
  "isKnownShell base \<longleftrightarrow>
     base \<in> set [''sh'', ''bash'', ''dash'', ''ash'', ''mksh'', ''ksh'', ''zsh'']"

definition isTransparentWrapper :: "string \<Rightarrow> bool" where
  "isTransparentWrapper tok \<longleftrightarrow>
     tok \<in> set [''exec'', ''command'', ''nohup'', ''nice'', ''time'', ''env'']"

definition isShellBuiltin :: "string \<Rightarrow> bool" where
  "isShellBuiltin tok \<longleftrightarrow>
     tok \<in> set ['':'', ''.'', ''break'', ''continue'', ''eval'', ''exec'', ''exit'',
               ''export'', ''readonly'', ''return'', ''set'', ''shift'', ''trap'', ''unset''] \<or>
     tok \<in> set [''alias'', ''bg'', ''cd'', ''command'', ''fc'', ''fg'', ''getopts'', ''jobs'',
               ''kill'', ''newgrp'', ''read'', ''umask'', ''unalias'', ''wait'',
               ''echo'', ''printf'', ''pwd'', ''test'', ''['', ''true'', ''false''] \<or>
     tok \<in> set [''bind'', ''builtin'', ''caller'', ''compgen'', ''compopt'', ''complete'',
               ''coproc'', ''declare'', ''dirs'', ''disown'', ''enable'', ''hash'', ''help'',
               ''history'', ''let'', ''local'', ''logout'', ''mapfile'', ''popd'', ''pushd'',
               ''readarray'', ''shopt'', ''source'', ''suspend'', ''times'', ''type'',
               ''typeset'', ''ulimit''] \<or>
     tok \<in> set [''if'', ''then'', ''else'', ''elif'', ''fi'', ''case'', ''esac'', ''while'',
               ''do'', ''done'', ''for'', ''in'', ''function'', ''select'', ''time'', ''until'',
               ''{'', ''}'', ''!'', ''[['', '']]'']"

definition basenameLower :: "string \<Rightarrow> string" where
  "basenameLower s =
     TrimSuffix (ToLower (after_last (\<lambda>c. c = CHR ''/'' \<or> c = CHR 0x5C) s)) ''.real''"

definition blank :: "char \<Rightarrow> bool" where
  "blank b \<longleftrightarrow> b = CHR '' '' \<or> b = CHR 0x09"

definition firstWord :: "string \<Rightarrow> string" where
  "firstWord s = takeWhile (\<lambda>b. \<not> blank b) (dropWhile blank s)"

section \<open>The -c flag\<close>

text \<open>The inner loop over one short-option cluster: \<^const>\<open>None\<close> for an unsafe flag, else whether the
  cluster holds \<^verbatim>\<open>c\<close>.\<close>

fun scanCluster :: "string \<Rightarrow> bool option" where
  "scanCluster [] = Some False"
| "scanCluster (ch # cluster) =
     (if ch = CHR ''c'' then map_option (\<lambda>_. True) (scanCluster cluster)
      else if \<not> isSafeShellShortFlag ch then None
      else scanCluster cluster)"

fun findShellCFlag :: "string list \<Rightarrow> nat option" where
  "findShellCFlag [] = None"
| "findShellCFlag (arg # shellArgs) =
     (case arg of
        a # b # cs \<Rightarrow>
          if a \<noteq> CHR ''-'' then None
          else if b = CHR ''-'' then None
          else (case scanCluster (b # cs) of
                  None \<Rightarrow> None
                | Some True \<Rightarrow> Some 0
                | Some False \<Rightarrow> map_option Suc (findShellCFlag shellArgs))
      | _ \<Rightarrow> None)"

fun hasShellCWithUnsafeOptions :: "string list \<Rightarrow> bool" where
  "hasShellCWithUnsafeOptions [] = False"
| "hasShellCWithUnsafeOptions (arg # shellArgs) =
     (if arg = ''--'' then False
      else case arg of
        a # b # cs \<Rightarrow>
          if a \<noteq> CHR ''-'' then hasShellCWithUnsafeOptions shellArgs
          else if b = CHR ''-'' then hasShellCWithUnsafeOptions shellArgs
          else CHR ''c'' \<in> set (b # cs) \<or> hasShellCWithUnsafeOptions shellArgs
      | _ \<Rightarrow> hasShellCWithUnsafeOptions shellArgs)"

section \<open>Leading assignments, tokenizer, wrappers\<close>

function stripLeadingAssignments :: "string \<Rightarrow> string \<times> bool" where
  "stripLeadingAssignments remainder =
     (let rest = dropWhile blank remainder in
      if rest = [] then (remainder, False)
      else let tok = takeWhile (\<lambda>b. \<not> blank b) rest in
        (case IndexByte tok (CHR ''='') of
           None \<Rightarrow> (remainder, False)
         | Some eq \<Rightarrow>
             if eq < 1 then (remainder, False)
             else if \<not> isValidAssignName (take eq tok) then (remainder, False)
             else if \<not> valueBytesAllowed (drop (eq + 1) tok) then ([], True)
             else stripLeadingAssignments (dropWhile (\<lambda>b. \<not> blank b) rest)))"
  by pat_completeness auto
termination
proof (relation "measure length", goal_cases)
  case (2 remainder rest tok eq)
  then have "rest \<noteq> []" "\<not> blank (hd rest)"
    using hd_dropWhile [of blank remainder] by auto
  then have "length (dropWhile (\<lambda>b. \<not> blank b) rest) < length rest"
    by (intro length_dropWhile_less)
  also have "length rest \<le> length remainder"
    using 2 by (simp add: length_dropWhile_le)
  finally show ?case by simp
qed simp

declare stripLeadingAssignments.simps [simp del]

datatype tokenizerState = stateOutside | stateUnquoted | stateSingleQuote | stateDoubleQuote

text \<open>The loop of \<^verbatim>\<open>tokenizeSimpleScript\<close> over the rest of the script: the state, the bytes of the
  current token and the tokens emitted so far.\<close>

fun tokenizeLoop :: "tokenizerState \<Rightarrow> string \<Rightarrow> string list \<Rightarrow> string \<Rightarrow> string list option" where
  "tokenizeLoop stateOutside cur tokens [] = Some tokens"
| "tokenizeLoop stateUnquoted cur tokens [] = Some (tokens @ [cur])"
| "tokenizeLoop stateSingleQuote cur tokens [] = None"
| "tokenizeLoop stateDoubleQuote cur tokens [] = None"
| "tokenizeLoop stateOutside cur tokens (b # script) =
     (if blank b then tokenizeLoop stateOutside cur tokens script
      else if b = CHR 0x27 then tokenizeLoop stateSingleQuote cur tokens script
      else if b = CHR 0x22 then tokenizeLoop stateDoubleQuote cur tokens script
      else if isUnquotedAllowedByte b then tokenizeLoop stateUnquoted (cur @ [b]) tokens script
      else None)"
| "tokenizeLoop stateUnquoted cur tokens (b # script) =
     (if blank b then tokenizeLoop stateOutside [] (tokens @ [cur]) script
      else if b = CHR 0x27 then tokenizeLoop stateSingleQuote cur tokens script
      else if b = CHR 0x22 then tokenizeLoop stateDoubleQuote cur tokens script
      else if isUnquotedAllowedByte b then tokenizeLoop stateUnquoted (cur @ [b]) tokens script
      else None)"
| "tokenizeLoop stateSingleQuote cur tokens (b # script) =
     (if b = CHR 0x27 then tokenizeLoop stateUnquoted cur tokens script
      else tokenizeLoop stateSingleQuote (cur @ [b]) tokens script)"
| "tokenizeLoop stateDoubleQuote cur tokens (b # script) =
     (if b = CHR 0x22 then tokenizeLoop stateUnquoted cur tokens script
      else if b = CHR ''$'' \<or> b = CHR 0x60 \<or> b = CHR 0x5C then None
      else tokenizeLoop stateDoubleQuote (cur @ [b]) tokens script)"

definition tokenizeSimpleScript :: "string \<Rightarrow> string list option" where
  "tokenizeSimpleScript script = tokenizeLoop stateOutside [] [] script"

fun stripWrappers :: "string list \<Rightarrow> string list \<times> bool" where
  "stripWrappers (wrapper # nxt # rest) =
     (if isTransparentWrapper wrapper then
        (if \<not> HasPrefix nxt ''-'' then stripWrappers (nxt # rest)
         else if wrapper = ''nice'' \<and> nxt = ''-n'' \<and> rest \<noteq> [] \<and> isNumericIncrement (hd rest)
           then stripWrappers (tl rest)
         else if wrapper = ''command'' \<and> (nxt = ''-v'' \<or> nxt = ''-V'')
           then (wrapper # nxt # rest, False)
         else ([], True))
      else (wrapper # nxt # rest, False))"
| "stripWrappers tokens = (tokens, False)"

section \<open>parseSimpleShellC and the exported functions\<close>

datatype parseStatus = statusFallback | statusOK | statusBypass | statusOpaque

definition parseSimpleShellC :: "string list \<Rightarrow> string \<times> string list \<times> parseStatus" where
  "parseSimpleShellC shellArgs =
     (case findShellCFlag shellArgs of
        None \<Rightarrow>
          if hasShellCWithUnsafeOptions shellArgs then ([], [], statusBypass)
          else ([], [], statusFallback)
      | Some cFlagIdx \<Rightarrow>
          if cFlagIdx + 1 \<ge> length shellArgs then ([], [], statusFallback)
          else let script = TrimSpace (shellArgs ! (cFlagIdx + 1)) in
          if script = [] then ([], [], statusFallback)
          else let (script, dirty) = stripLeadingAssignments script in
          if dirty then ([], [], statusBypass)
          else let script = TrimSpace script in
          if script = [] then ([], [], statusFallback)
          else (case tokenizeSimpleScript script of
             None \<Rightarrow>
               if isTransparentWrapper (firstWord script) then ([], [], statusBypass)
               else ([], [], statusOpaque)
           | Some tokens \<Rightarrow>
               if tokens = [] then ([], [], statusFallback)
               else let (tokens, bypass) = stripWrappers tokens in
               if bypass then ([], [], statusBypass)
               else (case tokens of
                  [] \<Rightarrow> ([], [], statusFallback)
                | t # ts \<Rightarrow>
                    if isShellBuiltin t then ([], [], statusFallback)
                    else (t, ts, statusOK))))"

definition shellStatus :: "string list \<Rightarrow> parseStatus" where
  "shellStatus shellArgs = snd (snd (parseSimpleShellC shellArgs))"

definition DerivePolicyTarget :: "string \<Rightarrow> string list \<Rightarrow> (string \<times> string list) option" where
  "DerivePolicyTarget command args =
     (if command = [] then None
      else if \<not> isKnownShell (basenameLower command) then None
      else case parseSimpleShellC args of
        (cmd, argv, status) \<Rightarrow> if status = statusOK then Some (cmd, argv) else None)"

definition IsShellCBypassAttempt :: "string \<Rightarrow> string list \<Rightarrow> bool" where
  "IsShellCBypassAttempt command args \<longleftrightarrow>
     (if command = [] then False
      else if \<not> isKnownShell (basenameLower command) then False
      else shellStatus args = statusBypass)"

definition IsOpaqueShellC :: "string \<Rightarrow> string list \<Rightarrow> bool" where
  "IsOpaqueShellC command args \<longleftrightarrow>
     (if command = [] then False
      else if \<not> isKnownShell (basenameLower command) then False
      else shellStatus args = statusOpaque)"

section \<open>The reasons given for a refusal\<close>

text \<open>
  The Go functions build a message; the model returns which construct the message names, with the
  arguments that are printed into it.
\<close>

datatype bypassReason =
    LongOption string
  | OptionTakesArgument string
  | PlusOption string
  | UnsafeClusteredOption char
  | DirtyAssignment
  | WrapperUnparsable string
  | WrapperWithFlag string string
  | UnparsableInvocation

fun clusterReason :: "string \<Rightarrow> char + bool" where
  "clusterReason [] = Inr False"
| "clusterReason (ch # cluster) =
     (if ch = CHR ''c'' then (case clusterReason cluster of Inl x \<Rightarrow> Inl x | Inr _ \<Rightarrow> Inr True)
      else if \<not> isSafeShellShortFlag ch then Inl ch
      else clusterReason cluster)"

fun flagReason :: "nat \<Rightarrow> string list \<Rightarrow> bypassReason + nat option" where
  "flagReason i [] = Inr None"
| "flagReason i (arg # shellArgs) =
     (case arg of
        a # b # cs \<Rightarrow>
          if a \<noteq> CHR ''-'' \<and> a \<noteq> CHR ''+'' then Inr None
          else if a = CHR ''-'' \<and> b = CHR ''-'' then Inl (LongOption arg)
          else if arg \<in> {''-o'', ''+o'', ''-O'', ''+O''} then Inl (OptionTakesArgument arg)
          else if a = CHR ''+'' then Inl (PlusOption arg)
          else (case clusterReason (b # cs) of
                  Inl ch \<Rightarrow> Inl (UnsafeClusteredOption ch)
                | Inr foundC \<Rightarrow> if foundC then Inr (Some i) else flagReason (Suc i) shellArgs)
      | _ \<Rightarrow> Inr None)"

fun wrapperReason :: "string list \<Rightarrow> bypassReason" where
  "wrapperReason (wrapper # nxt # rest) =
     (if isTransparentWrapper wrapper then
        (if \<not> HasPrefix nxt ''-'' then wrapperReason (nxt # rest)
         else if wrapper = ''nice'' \<and> nxt = ''-n'' \<and> rest \<noteq> [] \<and> isNumericIncrement (hd rest)
           then wrapperReason (tl rest)
         else WrapperWithFlag wrapper nxt)
      else UnparsableInvocation)"
| "wrapperReason tokens = UnparsableInvocation"

definition computeBypassReason :: "string list \<Rightarrow> bypassReason" where
  "computeBypassReason shellArgs =
     (case flagReason 0 shellArgs of
        Inl r \<Rightarrow> r
      | Inr None \<Rightarrow> UnparsableInvocation
      | Inr (Some cFlagIdx) \<Rightarrow>
          if cFlagIdx + 1 \<ge> length shellArgs then UnparsableInvocation
          else let script = TrimSpace (shellArgs ! (cFlagIdx + 1)) in
          if snd (stripLeadingAssignments script) then DirtyAssignment
          else let script = TrimSpace (fst (stripLeadingAssignments script)) in
          if script = [] then UnparsableInvocation
          else (case tokenizeSimpleScript script of
             None \<Rightarrow>
               if isTransparentWrapper (firstWord script) then WrapperUnparsable (firstWord script)
               else UnparsableInvocation
           | Some tokens \<Rightarrow> wrapperReason tokens))"

datatype opaqueReason =
    Metacharacter char
  | RedirectByte char
  | Subshell char
  | GlobByte char
  | ExpansionDollar
  | CommandSubstitution
  | EscapeBackslash
  | AssignmentShape
  | CommentHash
  | TildeByte
  | BraceByte char
  | HistoryExpansion
  | NewlineByte
  | UnsafeByte char
  | UnterminatedQuote
  | UnparsableScript

definition describeOpaqueByte :: "char \<Rightarrow> opaqueReason" where
  "describeOpaqueByte b =
     (if b \<in> {CHR '';'', CHR ''|'', CHR ''&''} then Metacharacter b
      else if b \<in> {CHR ''>'', CHR ''<''} then RedirectByte b
      else if b \<in> {CHR ''('', CHR '')''} then Subshell b
      else if b \<in> {CHR ''*'', CHR ''?'', CHR ''[''} then GlobByte b
      else if b = CHR ''$'' then ExpansionDollar
      else if b = CHR 0x60 then CommandSubstitution
      else if b = CHR 0x5C then EscapeBackslash
      else if b = CHR ''='' then AssignmentShape
      else if b = CHR ''#'' then CommentHash
      else if b = CHR ''~'' then TildeByte
      else if b \<in> {CHR ''{'', CHR ''}''} then BraceByte b
      else if b = CHR ''!'' then HistoryExpansion
      else if b = CHR 0x0A then NewlineByte
      else UnsafeByte b)"

fun opaqueLoop :: "tokenizerState \<Rightarrow> string \<Rightarrow> opaqueReason" where
  "opaqueLoop stateOutside [] = UnparsableScript"
| "opaqueLoop stateUnquoted [] = UnparsableScript"
| "opaqueLoop stateSingleQuote [] = UnterminatedQuote"
| "opaqueLoop stateDoubleQuote [] = UnterminatedQuote"
| "opaqueLoop stateOutside (b # script) =
     (if blank b then opaqueLoop stateOutside script
      else if b = CHR 0x27 then opaqueLoop stateSingleQuote script
      else if b = CHR 0x22 then opaqueLoop stateDoubleQuote script
      else if isUnquotedAllowedByte b then opaqueLoop stateUnquoted script
      else describeOpaqueByte b)"
| "opaqueLoop stateUnquoted (b # script) =
     (if blank b then opaqueLoop stateOutside script
      else if b = CHR 0x27 then opaqueLoop stateSingleQuote script
      else if b = CHR 0x22 then opaqueLoop stateDoubleQuote script
      else if isUnquotedAllowedByte b then opaqueLoop stateUnquoted script
      else describeOpaqueByte b)"
| "opaqueLoop stateSingleQuote (b # script) =
     (if b = CHR 0x27 then opaqueLoop stateUnquoted script else opaqueLoop stateSingleQuote script)"
| "opaqueLoop stateDoubleQuote (b # script) =
     (if b = CHR 0x22 then opaqueLoop stateUnquoted script
      else if b = CHR ''$'' \<or> b = CHR 0x60 \<or> b = CHR 0x5C then describeOpaqueByte b
      else opaqueLoop stateDoubleQuote script)"

definition computeOpaqueReason :: "string list \<Rightarrow> opaqueReason" where
  "computeOpaqueReason shellArgs =
     (case findShellCFlag shellArgs of
        None \<Rightarrow> UnparsableScript
      | Some cFlagIdx \<Rightarrow>
          if cFlagIdx + 1 \<ge> length shellArgs then UnparsableScript
          else let script = TrimSpace (shellArgs ! (cFlagIdx + 1));
                   script = TrimSpace (fst (stripLeadingAssignments script))
               in opaqueLoop stateOutside script)"

text \<open>An empty Go result is \<^const>\<open>None\<close>.\<close>

definition BypassReason :: "string \<Rightarrow> string list \<Rightarrow> bypassReason option" where
  "BypassReason command args =
     (if command = [] then None
      else if \<not> isKnownShell (basenameLower command) then None
      else if shellStatus args \<noteq> statusBypass then None
      else Some (computeBypassReason args))"

definition OpaqueReason :: "string \<Rightarrow> string list \<Rightarrow> opaqueReason option" where
  "OpaqueReason command args =
     (if command = [] then None
      else if \<not> isKnownShell (basenameLower command) then None
      else if shellStatus args \<noteq> statusOpaque then None
      else Some (computeOpaqueReason args))"

section \<open>A grammar of the scripts that are read\<close>

text \<open>
  The specification of the tokenizer. A word is a sequence of pieces: bare bytes of the allowed set,
  a single-quoted span, or a double-quoted span without the bytes that start an expansion or end the
  span. Its value is what POSIX quote removal leaves. A script is words with blanks around them.
\<close>

datatype piece = Bare string | SingleQuoted string | DoubleQuoted string

fun piece_ok :: "piece \<Rightarrow> bool" where
  "piece_ok (Bare s) \<longleftrightarrow> s \<noteq> [] \<and> list_all isUnquotedAllowedByte s"
| "piece_ok (SingleQuoted s) \<longleftrightarrow> CHR 0x27 \<notin> set s"
| "piece_ok (DoubleQuoted s) \<longleftrightarrow> list_all (\<lambda>b. b \<notin> {CHR 0x22, CHR ''$'', CHR 0x60, CHR 0x5C}) s"

fun piece_text :: "piece \<Rightarrow> string" where
  "piece_text (Bare s) = s"
| "piece_text (SingleQuoted s) = CHR 0x27 # s @ [CHR 0x27]"
| "piece_text (DoubleQuoted s) = CHR 0x22 # s @ [CHR 0x22]"

fun piece_value :: "piece \<Rightarrow> string" where
  "piece_value (Bare s) = s"
| "piece_value (SingleQuoted s) = s"
| "piece_value (DoubleQuoted s) = s"

definition word_text :: "piece list \<Rightarrow> string" where
  "word_text ps = concat (map piece_text ps)"

definition word_value :: "piece list \<Rightarrow> string" where
  "word_value ps = concat (map piece_value ps)"

definition at_word_end :: "string \<Rightarrow> bool" where
  "at_word_end rest \<longleftrightarrow> (case rest of [] \<Rightarrow> True | b # _ \<Rightarrow> blank b)"

inductive lexes :: "string \<Rightarrow> string list \<Rightarrow> bool" where
  lexes_blank: "list_all blank ws \<Longrightarrow> lexes ws []"
| lexes_word: "list_all blank ws \<Longrightarrow> w \<noteq> [] \<Longrightarrow> list_all piece_ok w \<Longrightarrow> at_word_end rest \<Longrightarrow>
     lexes rest toks \<Longrightarrow> lexes (ws @ word_text w @ rest) (word_value w # toks)"

text \<open>Prefixes of wrapper commands, and the token lists that no wrapper heads.\<close>

inductive wrapper_seq :: "string list \<Rightarrow> bool" where
  wrapper_Nil: "wrapper_seq []"
| wrapper_Cons: "isTransparentWrapper w \<Longrightarrow> wrapper_seq ws \<Longrightarrow> wrapper_seq (w # ws)"
| wrapper_nice: "isNumericIncrement n \<Longrightarrow> wrapper_seq ws \<Longrightarrow> wrapper_seq (''nice'' # ''-n'' # n # ws)"

definition unwrapped :: "string list \<Rightarrow> bool" where
  "unwrapped ts \<longleftrightarrow>
     (case ts of
        w # a # _ \<Rightarrow> isTransparentWrapper w \<longrightarrow> w = ''command'' \<and> a \<in> {''-v'', ''-V''}
      | _ \<Rightarrow> True)"

text \<open>The command line a caller writes to run \<^verbatim>\<open>argv\<close> under assignments and wrappers, each word of
  \<^verbatim>\<open>argv\<close> in single quotes.\<close>

definition shell_quote :: "string \<Rightarrow> string" where
  "shell_quote w = CHR 0x27 # w @ [CHR 0x27]"

definition assignment :: "string \<times> string \<Rightarrow> string" where
  "assignment nv = fst nv @ CHR ''='' # snd nv"

definition quoted_script :: "(string \<times> string) list \<Rightarrow> string list \<Rightarrow> string list \<Rightarrow> string" where
  "quoted_script env wrappers argv =
     Join (map assignment env @ wrappers @ map shell_quote argv) '' ''"

section \<open>The tokenizer implements the grammar\<close>

lemma blank_space [simp]: "blank (CHR '' '')"
  by (simp add: blank_def)



lemma word_text_simps [simp]:
  "word_text [] = []" "word_text (p # ps) = piece_text p @ word_text ps"
  "word_value [] = []" "word_value (p # ps) = piece_value p @ word_value ps"
  by (simp_all add: word_text_def word_value_def)

lemma allowed_not_special:
  "isUnquotedAllowedByte b \<Longrightarrow> \<not> blank b \<and> b \<noteq> CHR 0x27 \<and> b \<noteq> CHR 0x22 \<and> b \<noteq> CHR ''=''"
  by (auto simp: isUnquotedAllowedByte_def is_upper_def is_lower_def is_digit_def blank_def)

lemma quote_not_blank [simp]: "\<not> blank (CHR 0x27)" "\<not> blank (CHR 0x22)"
  by (simp_all add: blank_def)

lemma loop_bare:
  "list_all isUnquotedAllowedByte s \<Longrightarrow>
   tokenizeLoop stateUnquoted cur toks (s @ t) = tokenizeLoop stateUnquoted (cur @ s) toks t"
proof (induction s arbitrary: cur)
  case (Cons b s)
  then show ?case using allowed_not_special [of b] by simp
qed simp

lemma loop_single:
  "CHR 0x27 \<notin> set s \<Longrightarrow>
   tokenizeLoop stateSingleQuote cur toks (s @ t) = tokenizeLoop stateSingleQuote (cur @ s) toks t"
  by (induction s arbitrary: cur) auto

lemma loop_double:
  "piece_ok (DoubleQuoted s) \<Longrightarrow>
   tokenizeLoop stateDoubleQuote cur toks (s @ t) = tokenizeLoop stateDoubleQuote (cur @ s) toks t"
  by (induction s arbitrary: cur) auto

lemma loop_piece:
  "piece_ok p \<Longrightarrow>
   tokenizeLoop stateUnquoted cur toks (piece_text p @ t) =
   tokenizeLoop stateUnquoted (cur @ piece_value p) toks t"
  by (cases p) (simp_all add: loop_bare loop_single loop_double)

lemma loop_piece_outside:
  assumes "piece_ok p"
  shows "tokenizeLoop stateOutside [] toks (piece_text p @ t) =
         tokenizeLoop stateUnquoted (piece_value p) toks t"
proof (cases p)
  case (Bare s)
  with assms obtain b s' where s: "s = b # s'" by (cases s) auto
  with assms Bare allowed_not_special [of b] loop_bare [of s' "[b]" toks t]
  show ?thesis by simp
qed (use assms in \<open>simp_all add: loop_single loop_double\<close>)

lemma loop_word:
  "list_all piece_ok w \<Longrightarrow>
   tokenizeLoop stateUnquoted cur toks (word_text w @ t) =
   tokenizeLoop stateUnquoted (cur @ word_value w) toks t"
  by (induction w arbitrary: cur) (simp_all add: loop_piece)

lemma loop_blanks:
  "list_all blank ws \<Longrightarrow> tokenizeLoop stateOutside [] toks (ws @ t) = tokenizeLoop stateOutside [] toks t"
  by (induction ws) auto

lemma loop_complete:
  "lexes s ts \<Longrightarrow> tokenizeLoop stateOutside [] toks s = Some (toks @ ts)"
proof (induction arbitrary: toks rule: lexes.induct)
  case (lexes_blank ws)
  then show ?case using loop_blanks [of ws toks "[]"] by simp
next
  case (lexes_word ws w rest ts)
  then obtain p ps where w: "w = p # ps" by (cases w) auto
  have "tokenizeLoop stateOutside [] toks (ws @ word_text w @ rest) =
        tokenizeLoop stateUnquoted (word_value w) toks rest"
    using lexes_word.hyps w by (simp add: loop_blanks loop_piece_outside loop_word)
  also have "\<dots> = Some (toks @ word_value w # ts)"
  proof (cases rest)
    case Nil
    then have "ts = []" using lexes_word.IH [of "[]"] by simp
    with Nil show ?thesis by simp
  next
    case (Cons b r)
    then show ?thesis
      using lexes_word.IH [of "toks @ [word_value w]"] lexes_word.hyps(4)
      by (auto simp: at_word_end_def)
  qed
  finally show ?case .
qed

definition lexes_rest :: "string \<Rightarrow> string \<Rightarrow> string list \<Rightarrow> bool" where
  "lexes_rest cur s ts \<longleftrightarrow>
     (\<exists>w rest us. s = word_text w @ rest \<and> list_all piece_ok w \<and> at_word_end rest \<and>
        lexes rest us \<and> ts = (cur @ word_value w) # us)"

lemma lexes_restI:
  "list_all piece_ok w \<Longrightarrow> at_word_end rest \<Longrightarrow> lexes rest us \<Longrightarrow>
   lexes_rest cur (word_text w @ rest) ((cur @ word_value w) # us)"
  by (auto simp: lexes_rest_def)

lemma lexes_rest_piece:
  "piece_ok p \<Longrightarrow> lexes_rest (cur @ piece_value p) s ts \<Longrightarrow> lexes_rest cur (piece_text p @ s) ts"
  unfolding lexes_rest_def
  by (elim exE conjE, rule_tac x = "p # w" in exI) auto

lemma lexes_blank_Cons: "blank b \<Longrightarrow> lexes s ts \<Longrightarrow> lexes (b # s) ts"
proof (erule lexes.cases)
  fix ws assume "blank b" "s = ws" "ts = []" "list_all blank ws"
  then show "lexes (b # s) ts" using lexes_blank [of "b # ws"] by simp
next
  fix ws w rest toks
  assume "blank b" "s = ws @ word_text w @ rest" "ts = word_value w # toks" "list_all blank ws"
    "w \<noteq> []" "list_all piece_ok w" "at_word_end rest" "lexes rest toks"
  then show "lexes (b # s) ts" using lexes_word [of "b # ws" w rest toks] by simp
qed

lemma lexes_of_rest:
  assumes "piece_ok p" and "lexes_rest (piece_value p) s ts"
  shows "lexes (piece_text p @ s) ts"
proof -
  from assms(2) obtain w rest us where "s = word_text w @ rest" "list_all piece_ok w"
    "at_word_end rest" "lexes rest us" "ts = (piece_value p @ word_value w) # us"
    by (auto simp: lexes_rest_def)
  with assms(1) lexes_word [of "[]" "p # w" rest us] show ?thesis by simp
qed

text \<open>What is left to read in each state of the tokenizer, and its transitions.\<close>

definition lexes_from :: "tokenizerState \<Rightarrow> string \<Rightarrow> string \<Rightarrow> string list \<Rightarrow> bool" where
  "lexes_from st cur s ts \<longleftrightarrow>
     (case st of
        stateOutside \<Rightarrow> cur = [] \<longrightarrow> lexes s ts
      | stateUnquoted \<Rightarrow> lexes_rest cur s ts
      | stateSingleQuote \<Rightarrow> \<exists>q s'. s = q @ CHR 0x27 # s' \<and> CHR 0x27 \<notin> set q \<and>
          lexes_rest (cur @ q) s' ts
      | stateDoubleQuote \<Rightarrow> \<exists>q s'. s = q @ CHR 0x22 # s' \<and> piece_ok (DoubleQuoted q) \<and>
          lexes_rest (cur @ q) s' ts)"

lemma from_start: "lexes_from stateOutside [] s ts \<longleftrightarrow> lexes s ts"
  by (simp add: lexes_from_def)

lemma from_end:
  "lexes_from stateOutside cur [] []" "lexes_from stateUnquoted cur [] [cur]"
  using lexes_blank [of "[]"] lexes_restI [of "[]" "[]" "[]" cur]
  by (simp_all add: lexes_from_def at_word_end_def)

lemma from_blank:
  "blank b \<Longrightarrow> lexes_from stateOutside cur s ts \<Longrightarrow> lexes_from stateOutside cur (b # s) ts"
  "blank b \<Longrightarrow> lexes_from stateOutside [] s ts \<Longrightarrow> lexes_from stateUnquoted cur (b # s) (cur # ts)"
  using lexes_restI [of "[]" "b # s" ts cur]
  by (auto simp: lexes_from_def at_word_end_def intro: lexes_blank_Cons)

lemma from_single_open:
  "lexes_from stateSingleQuote cur s ts \<Longrightarrow> lexes_from stateOutside cur (CHR 0x27 # s) ts"
  "lexes_from stateSingleQuote cur s ts \<Longrightarrow> lexes_from stateUnquoted cur (CHR 0x27 # s) ts"
proof -
  assume "lexes_from stateSingleQuote cur s ts"
  then obtain q s' where s: "s = q @ CHR 0x27 # s'" and "CHR 0x27 \<notin> set q"
    and r: "lexes_rest (cur @ q) s' ts" by (auto simp: lexes_from_def)
  then show "lexes_from stateOutside cur (CHR 0x27 # s) ts"
    and "lexes_from stateUnquoted cur (CHR 0x27 # s) ts"
    using lexes_of_rest [of "SingleQuoted q" s' ts] lexes_rest_piece [of "SingleQuoted q" cur s' ts]
    by (auto simp: lexes_from_def)
qed

lemma from_double_open:
  "lexes_from stateDoubleQuote cur s ts \<Longrightarrow> lexes_from stateOutside cur (CHR 0x22 # s) ts"
  "lexes_from stateDoubleQuote cur s ts \<Longrightarrow> lexes_from stateUnquoted cur (CHR 0x22 # s) ts"
proof -
  assume "lexes_from stateDoubleQuote cur s ts"
  then obtain q s' where s: "s = q @ CHR 0x22 # s'" and "piece_ok (DoubleQuoted q)"
    and r: "lexes_rest (cur @ q) s' ts" by (auto simp: lexes_from_def)
  then show "lexes_from stateOutside cur (CHR 0x22 # s) ts"
    and "lexes_from stateUnquoted cur (CHR 0x22 # s) ts"
    using lexes_of_rest [of "DoubleQuoted q" s' ts] lexes_rest_piece [of "DoubleQuoted q" cur s' ts]
    by (auto simp: lexes_from_def)
qed

lemma from_bare:
  "isUnquotedAllowedByte b \<Longrightarrow> lexes_from stateUnquoted [b] s ts \<Longrightarrow>
   lexes_from stateOutside [] (b # s) ts"
  "isUnquotedAllowedByte b \<Longrightarrow> lexes_from stateUnquoted (cur @ [b]) s ts \<Longrightarrow>
   lexes_from stateUnquoted cur (b # s) ts"
  using lexes_of_rest [of "Bare [b]" s ts] lexes_rest_piece [of "Bare [b]" cur s ts]
  by (auto simp: lexes_from_def)

lemma from_quote_close:
  "lexes_from stateUnquoted cur s ts \<Longrightarrow> lexes_from stateSingleQuote cur (CHR 0x27 # s) ts"
  "lexes_from stateUnquoted cur s ts \<Longrightarrow> lexes_from stateDoubleQuote cur (CHR 0x22 # s) ts"
  by (force simp: lexes_from_def intro: exI [of _ "[]"])+

lemma from_single_byte:
  assumes "b \<noteq> CHR 0x27" and "lexes_from stateSingleQuote (cur @ [b]) s ts"
  shows "lexes_from stateSingleQuote cur (b # s) ts"
proof -
  obtain q s' where "s = q @ CHR 0x27 # s'" "CHR 0x27 \<notin> set q" "lexes_rest (cur @ b # q) s' ts"
    using assms(2) by (auto simp: lexes_from_def)
  then show ?thesis using assms(1)
    unfolding lexes_from_def tokenizerState.case by (intro exI [of _ "b # q"] exI [of _ s']) simp
qed

lemma from_double_byte:
  assumes "b \<notin> {CHR 0x22, CHR ''$'', CHR 0x60, CHR 0x5C}"
    and "lexes_from stateDoubleQuote (cur @ [b]) s ts"
  shows "lexes_from stateDoubleQuote cur (b # s) ts"
proof -
  obtain q s' where "s = q @ CHR 0x22 # s'" "piece_ok (DoubleQuoted q)"
    "lexes_rest (cur @ b # q) s' ts"
    using assms(2) by (auto simp: lexes_from_def)
  then show ?thesis using assms(1)
    unfolding lexes_from_def tokenizerState.case by (intro exI [of _ "b # q"] exI [of _ s']) simp
qed

lemmas from_steps = from_end from_blank from_single_open from_double_open from_bare
  from_quote_close from_single_byte from_double_byte

lemma loop_sound:
  "tokenizeLoop st cur toks s = Some out \<Longrightarrow> (st = stateOutside \<Longrightarrow> cur = []) \<Longrightarrow>
   \<exists>ts. out = toks @ ts \<and> lexes_from st cur s ts"
  by (induction st cur toks s rule: tokenizeLoop.induct)
    (auto split: if_splits intro: from_steps)

lemma tokenize_iff_lexes: "tokenizeSimpleScript s = Some ts \<longleftrightarrow> lexes s ts"
  using loop_sound [of stateOutside "[]" "[]" s ts] loop_complete [of s ts "[]"]
  by (auto simp: tokenizeSimpleScript_def from_start)

lemma length_piece_value: "length (piece_value p) \<le> length (piece_text p)"
  by (cases p) auto

lemma length_word_value: "length (word_value w) \<le> length (word_text w)"
  by (induction w) (auto intro: add_mono length_piece_value)

lemma lexes_length: "lexes s ts \<Longrightarrow> sum_list (map length ts) \<le> length s"
  by (induction rule: lexes.induct) (use length_word_value in \<open>auto intro: add_mono le_trans [OF _ le_add2]\<close>)

lemma length_stripLeadingAssignments:
  "length (fst (stripLeadingAssignments s)) \<le> length s"
proof (induction s rule: stripLeadingAssignments.induct)
  case (1 s)
  have drop: "length (dropWhile (\<lambda>b. \<not> blank b) (dropWhile blank s)) \<le> length s"
    by (meson le_trans length_dropWhile_le)
  show ?case
    by (subst stripLeadingAssignments.simps)
      (auto simp: Let_def split: option.split intro!: le_trans [OF "1.IH" drop])
qed

lemma sum_length_stripWrappers:
  "stripWrappers ts = (rest, False) \<Longrightarrow> sum_list (map length rest) \<le> sum_list (map length ts)"
proof (induction ts rule: stripWrappers.induct)
  case (1 wrapper nxt rest')
  then show ?case by (cases rest') (auto split: if_splits intro: trans_le_add2)
qed auto

lemma findShellCFlag_bounds:
  "findShellCFlag args = Some i \<Longrightarrow> i < length args \<and> 2 \<le> length (args ! i)"
proof (induction args arbitrary: i)
  case (Cons arg args)
  then show ?case
    by (auto split: list.splits if_splits option.splits bool.splits)
qed simp

lemma parse_okD:
  assumes "parseSimpleShellC args = (c, as, statusOK)"
  obtains i s1 toks where "findShellCFlag args = Some i" "i + 1 < length args"
    "stripLeadingAssignments (TrimSpace (args ! (i + 1))) = (s1, False)"
    "tokenizeSimpleScript (TrimSpace s1) = Some toks" "stripWrappers toks = (c # as, False)"
    "\<not> isShellBuiltin c"
  using assms
  by (auto simp: parseSimpleShellC_def Let_def split: option.splits if_splits prod.splits list.splits)

lemma parse_okI:
  assumes "findShellCFlag args = Some i" "i + 1 < length args"
    "stripLeadingAssignments (TrimSpace (args ! (i + 1))) = (s1, False)"
    "tokenizeSimpleScript (TrimSpace s1) = Some toks" "stripWrappers toks = (c # as, False)"
    "\<not> isShellBuiltin c" 
  shows "parseSimpleShellC args = (c, as, statusOK)"
proof -
  have "toks \<noteq> []" using assms(5) by auto
  then have "TrimSpace s1 \<noteq> []" using assms(4) by (auto simp: tokenizeSimpleScript_def)
  moreover from this have "TrimSpace (args ! (i + 1)) \<noteq> []"
  proof (rule contrapos_nn)
    assume "TrimSpace (args ! (i + 1)) = []"
    then have "s1 = []" using assms(3) by (simp add: stripLeadingAssignments.simps)
    then show "TrimSpace s1 = []" using length_TrimSpace [of "[]"] by simp
  qed
  ultimately show ?thesis using assms \<open>toks \<noteq> []\<close>
    by (simp add: parseSimpleShellC_def Let_def)
qed

lemma derive_okD:
  "DerivePolicyTarget c args = Some (c', args') \<Longrightarrow>
   isKnownShell (basenameLower c) \<and> parseSimpleShellC args = (c', args', statusOK)"
  by (auto simp: DerivePolicyTarget_def split: if_splits prod.splits)

lemma derive_decreases:
  assumes "DerivePolicyTarget c args = Some (c', args')"
  shows "sum_list (map length (c' # args')) < sum_list (map length args)"
proof -
  obtain i s1 toks where f: "findShellCFlag args = Some i" "i + 1 < length args"
    and s1: "stripLeadingAssignments (TrimSpace (args ! (i + 1))) = (s1, False)"
    and t: "tokenizeSimpleScript (TrimSpace s1) = Some toks"
    and w: "stripWrappers toks = (c' # args', False)"
    using parse_okD derive_okD [OF assms] by metis
  have "sum_list (map length (c' # args')) \<le> sum_list (map length toks)"
    using sum_length_stripWrappers [OF w] .
  also have "\<dots> \<le> length (TrimSpace s1)"
    using t by (simp add: tokenize_iff_lexes lexes_length)
  also have "\<dots> \<le> length s1" by (rule length_TrimSpace)
  also have "\<dots> \<le> length (TrimSpace (args ! (i + 1)))"
    using length_stripLeadingAssignments [of "TrimSpace (args ! (i + 1))"] s1 by simp
  also have "\<dots> \<le> length (args ! (i + 1))" by (rule length_TrimSpace)
  also have "\<dots> < length (args ! i) + length (args ! (i + 1))"
    using findShellCFlag_bounds [OF f(1)] by auto
  also have "\<dots> \<le> sum_list (map length args)"
    using sum_length_neighbours [OF f(2)] .
  finally show ?thesis .
qed

lemma stripWrappers_split:
  "stripWrappers ts = (rest, False) \<Longrightarrow>
   (\<exists>pre. ts = pre @ rest \<and> wrapper_seq pre) \<and> unwrapped rest"
proof (induction ts rule: stripWrappers.induct)
  case (1 wrapper nxt rest')
  consider (skip) "isTransparentWrapper wrapper" "\<not> HasPrefix nxt ''-''"
    | (nice) "wrapper = ''nice''" "nxt = ''-n''" "rest' \<noteq> []" "isNumericIncrement (hd rest')"
        "HasPrefix nxt ''-''" "isTransparentWrapper wrapper"
    | (stop) "rest = wrapper # nxt # rest'" "unwrapped rest"
    using 1(3) by (auto simp: unwrapped_def split: if_splits)
  then show ?case
  proof cases
    case skip
    with 1(1,3) obtain pre where "nxt # rest' = pre @ rest" "wrapper_seq pre" "unwrapped rest"
      by auto
    with skip show ?thesis by (auto intro!: exI [of _ "wrapper # pre"] wrapper_Cons)
  next
    case nice
    with 1(2,3) obtain pre where "tl rest' = pre @ rest" "wrapper_seq pre" "unwrapped rest"
      by auto
    with nice show ?thesis
      by (cases rest') (auto intro!: exI [of _ "''nice'' # ''-n'' # hd rest' # pre"] wrapper_nice)
  next
    case stop
    then show ?thesis by (auto intro: exI [of _ "[]"] wrapper_Nil)
  qed
qed (auto simp: unwrapped_def intro: wrapper_Nil)

lemma derive_target_visible:
  assumes "DerivePolicyTarget c args = Some (c', args')"
  shows "\<not> isShellBuiltin c' \<and> (args' \<noteq> [] \<longrightarrow> \<not> isTransparentWrapper c')"
proof -
  obtain toks where w: "stripWrappers toks = (c' # args', False)" and b: "\<not> isShellBuiltin c'"
    using parse_okD derive_okD [OF assms] by metis
  have "isShellBuiltin ''command''" by (simp add: isShellBuiltin_def)
  with b stripWrappers_split [OF w] show ?thesis by (cases args') (auto simp: unwrapped_def)
qed

section \<open>Quoted command lines\<close>


lemma strip_no_assignment:
  assumes "dropWhile blank s = c # r" and "\<not> (is_upper c \<or> is_lower c \<or> c = CHR ''_'')"
  shows "stripLeadingAssignments s = (s, False)"
proof -
  have nb: "\<not> blank c" using assms(1) by (metis dropWhile_eq_Cons_conv)
  have inv: "\<not> isValidAssignName (c # y)" for y
    using assms(2) by (simp add: isValidAssignName_def)
  show ?thesis
    by (subst stripLeadingAssignments.simps)
      (auto simp: Let_def assms(1) nb inv take_Cons' split: option.split)
qed

lemma strip_no_equals:
  assumes "CHR ''='' \<notin> set (takeWhile (\<lambda>b. \<not> blank b) (dropWhile blank s))"
  shows "stripLeadingAssignments s = (s, False)"
  using assms
  by (subst stripLeadingAssignments.simps) (auto simp: Let_def IndexByte_eq_None_iff [symmetric])

lemma assign_name_chars:
  "isValidAssignName n \<Longrightarrow> c \<in> set n \<Longrightarrow> isUnquotedAllowedByte c"
  by (cases n) (auto simp: isValidAssignName_def isUnquotedAllowedByte_def list_all_iff)

lemma assign_name_hd: "isValidAssignName n \<Longrightarrow> n \<noteq> [] \<and> isUnquotedAllowedByte (hd n)"
  using assign_name_chars [of n "hd n"] by (cases n) (auto simp: isValidAssignName_def)

lemma value_chars: "valueBytesAllowed v \<Longrightarrow> c \<in> set v \<Longrightarrow> isUnquotedAllowedByte c"
  by (auto simp: valueBytesAllowed_def isUnquotedAllowedByte_def list_all_iff)

lemma strip_assignment:
  assumes n: "isValidAssignName n" and v: "valueBytesAllowed v" and r: "at_word_end rest"
    and ws: "list_all blank ws"
  shows "stripLeadingAssignments (ws @ n @ CHR ''='' # v @ rest) = stripLeadingAssignments rest"
proof -
  have nv: "\<forall>c \<in> set n \<union> set v. \<not> blank c \<and> c \<noteq> CHR ''=''"
    using assign_name_chars [OF n] value_chars [OF v] allowed_not_special by blast
  have n0: "n \<noteq> []" using n by (auto simp: isValidAssignName_def)
  have eq: "\<not> blank (CHR ''='')" by (simp add: blank_def)
  have d: "dropWhile blank (ws @ n @ CHR ''='' # v @ rest) = n @ CHR ''='' # v @ rest"
    using nv n0 ws by (cases n) (auto simp: dropWhile_append2 list_all_iff)
  have t: "takeWhile (\<lambda>b. \<not> blank b) (n @ CHR ''='' # v @ rest) = n @ CHR ''='' # v"
    using nv eq r by (auto simp: takeWhile_append2 at_word_end_def split: list.splits)
  have dd: "dropWhile (\<lambda>b. \<not> blank b) (n @ CHR ''='' # v @ rest) = rest"
    using nv eq r by (auto simp: dropWhile_append2 at_word_end_def split: list.splits)
  have i: "IndexByte (n @ CHR ''='' # v) (CHR ''='') = Some (length n)"
    using nv by (intro IndexByte_append) auto
  show ?thesis
    by (subst stripLeadingAssignments.simps) (use n0 n v in \<open>simp add: d t dd i Let_def\<close>)
qed

lemma strip_assignments:
  assumes "\<forall>(n, v) \<in> set env. isValidAssignName n \<and> valueBytesAllowed v"
    and "words \<noteq> []" and "stripLeadingAssignments (pre @ Join words '' '') = (pre @ Join words '' '', False)"
    and "stripLeadingAssignments (CHR '' '' # Join words '' '') = (CHR '' '' # Join words '' '', False)"
    and "list_all blank pre"
  shows "stripLeadingAssignments (pre @ Join (map assignment env @ words) '' '') =
         ((if env = [] then pre else '' '') @ Join words '' '', False)"
  using assms(1,3,5)
proof (induction env arbitrary: pre)
  case (Cons nv env)
  obtain n v where nv: "nv = (n, v)" by (cases nv)
  let ?rest = "CHR '' '' # Join (map assignment env @ words) '' ''"
  have j: "Join (map assignment (nv # env) @ words) '' '' = n @ CHR ''='' # v @ ?rest"
    using assms(2) by (simp add: Join_Cons assignment_def nv)
  have "stripLeadingAssignments (pre @ Join (map assignment (nv # env) @ words) '' '') =
        stripLeadingAssignments ?rest"
    unfolding j using Cons.prems nv
    by (intro strip_assignment) (auto simp: at_word_end_def)
  also have "\<dots> = ((if env = [] then '' '' else '' '') @ Join words '' '', False)"
    using Cons.IH [of "'' ''"] Cons.prems assms(4) by simp
  finally show ?case by simp
qed simp

lemma lexes_words:
  "\<forall>w \<in> set W. w \<noteq> [] \<and> list_all piece_ok w \<Longrightarrow> lexes (Join (map word_text W) '' '') (map word_value W)"
proof (induction W rule: induct_list012)
  case 1
  then show ?case using lexes_blank [of "[]"] by simp
next
  case (2 w)
  then show ?case using lexes_word [of "[]" w "[]" "[]"] lexes_blank [of "[]"]
    by (simp add: at_word_end_def)
next
  case (3 w v W)
  then have "lexes (CHR '' '' # Join (map word_text (v # W)) '' '') (map word_value (v # W))"
    by (intro lexes_blank_Cons) (auto simp: blank_def)
  with 3 show ?case
    using lexes_word [of "[]" w "CHR '' '' # Join (map word_text (v # W)) '' ''"]
    by (simp add: at_word_end_def blank_def)
qed

lemma wrapper_allowed: "isTransparentWrapper w \<Longrightarrow> w \<noteq> [] \<and> list_all isUnquotedAllowedByte w"
  by (auto simp: isTransparentWrapper_def isUnquotedAllowedByte_def is_lower_def)

lemma lexes_quoted:
  assumes "\<forall>w \<in> set wrappers. isTransparentWrapper w" "\<forall>w \<in> set argv. CHR 0x27 \<notin> set w"
  shows "lexes (Join (wrappers @ map shell_quote argv) '' '') (wrappers @ argv)"
proof -
  let ?W = "map (\<lambda>w. [Bare w]) wrappers @ map (\<lambda>w. [SingleQuoted w]) argv"
  have "lexes (Join (map word_text ?W) '' '') (map word_value ?W)"
    using assms wrapper_allowed by (intro lexes_words) auto
  then show ?thesis by (simp add: comp_def shell_quote_def [abs_def])
qed

lemma wrapper_not_flag: "isTransparentWrapper w \<Longrightarrow> \<not> HasPrefix w ''-''"
  by (auto simp: isTransparentWrapper_def HasPrefix_def)

lemma stripWrappers_wrappers:
  assumes "\<not> isTransparentWrapper c" "wrappers = [] \<or> \<not> HasPrefix c ''-''"
    "\<forall>w \<in> set wrappers. isTransparentWrapper w"
  shows "stripWrappers (wrappers @ c # as) = (c # as, False)"
  using assms
proof (induction wrappers)
  case Nil
  then show ?case by (cases as) auto
next
  case (Cons w ws)
  then have IH: "stripWrappers (ws @ c # as) = (c # as, False)" and w: "isTransparentWrapper w"
    by auto
  show ?case
  proof (cases ws)
    case Nil
    with IH w Cons.prems show ?thesis by simp
  next
    case (Cons x xs)
    with \<open>\<forall>w \<in> set (w # ws). isTransparentWrapper w\<close> have "\<not> HasPrefix x ''-''"
      by (simp add: wrapper_not_flag)
    with IH w Cons show ?thesis by simp
  qed
qed

lemma basenameLower_Nil [simp]: "basenameLower [] = []"
  by (simp add: basenameLower_def after_last_def ToLower_def TrimSuffix_def HasSuffix_def)

lemma known_shell_not_Nil: "isKnownShell (basenameLower shell) \<Longrightarrow> shell \<noteq> []"
  by (cases shell) (auto simp: isKnownShell_def)

lemma allowed_plain: "isUnquotedAllowedByte c \<Longrightarrow> plain c"
  by (auto simp: isUnquotedAllowedByte_def plain_def space_runes_def is_upper_def is_lower_def is_digit_def)

lemma TrimSpace_quoted:
  assumes "\<forall>(n, v) \<in> set env. isValidAssignName n \<and> valueBytesAllowed v"
    "\<forall>w \<in> set wrappers. isTransparentWrapper w" "argv \<noteq> []"
  shows "TrimSpace (quoted_script env wrappers argv) = quoted_script env wrappers argv"
proof -
  let ?ws = "map assignment env @ wrappers @ map shell_quote argv"
  have q: "plain (CHR 0x27)" by (simp add: plain_def space_runes_def)
  have ne: "?ws \<noteq> []" using assms(3) by auto
  then obtain w ws where ws: "?ws = w # ws" by (cases ?ws) auto
  have hd: "w \<noteq> [] \<and> plain (hd w)"
  proof (cases env)
    case (Cons nv env')
    with assms(1) have "isValidAssignName (fst nv)" by (cases nv) auto
    from assign_name_hd [OF this] Cons ws show ?thesis
      by (auto simp: assignment_def intro: allowed_plain)
  next
    case env: Nil
    show ?thesis
    proof (cases wrappers)
      case (Cons x xs)
      with env ws assms(2) wrapper_allowed [of x] show ?thesis
        by (cases x) (auto intro: allowed_plain)
    next
      case Nil
      with env ws assms(3) q show ?thesis by (cases argv) (auto simp: shell_quote_def)
    qed
  qed
  have "last ?ws = shell_quote (last argv)" using assms(3) by (simp add: last_map)
  then have "last (Join ?ws '' '') = CHR 0x27" "Join ?ws '' '' \<noteq> []"
    using Join_last [OF ne, of "'' ''"] by (simp_all add: shell_quote_def)
  with hd Join_hd [of w ws "'' ''"] ws q show ?thesis
    unfolding quoted_script_def by (intro TrimSpace_plain) auto
qed

lemma strip_quoted_tail:
  assumes "\<forall>w \<in> set wrappers. isTransparentWrapper w" "argv \<noteq> []" "list_all blank pre"
  shows "stripLeadingAssignments (pre @ Join (wrappers @ map shell_quote argv) '' '') =
         (pre @ Join (wrappers @ map shell_quote argv) '' '', False)"
proof (cases wrappers)
  case Nil
  obtain a as where "argv = a # as" using assms(2) by (cases argv) auto
  with Nil obtain r where r: "Join (wrappers @ map shell_quote argv) '' '' = CHR 0x27 # r"
    by (cases as) (auto simp: shell_quote_def)
  have "dropWhile blank (pre @ CHR 0x27 # r) = CHR 0x27 # r"
    using assms(3) by (simp add: dropWhile_append2 list_all_iff)
  then show ?thesis unfolding r
    by (rule strip_no_assignment) (simp add: is_upper_def is_lower_def)
next
  case (Cons w ws)
  with assms have w: "isTransparentWrapper w" by simp
  then have wc: "\<forall>c \<in> set w. \<not> blank c \<and> c \<noteq> CHR ''=''" and w0: "w \<noteq> []"
    using wrapper_allowed [of w] allowed_not_special by (auto simp: list_all_iff)
  have ne: "ws @ map shell_quote argv \<noteq> []" using assms(2) by simp
  then obtain r where j: "Join (wrappers @ map shell_quote argv) '' '' = w @ CHR '' '' # r"
    by (simp add: Cons Join_Cons)
  have d: "dropWhile blank (pre @ w @ CHR '' '' # r) = w @ CHR '' '' # r"
    using assms(3) wc w0 by (cases w) (auto simp: dropWhile_append2 list_all_iff)
  have "takeWhile (\<lambda>b. \<not> blank b) (w @ CHR '' '' # r) = w"
    using wc by (simp add: takeWhile_append2 blank_def)
  then show ?thesis unfolding j using wc d by (intro strip_no_equals) auto
qed

lemma derive_sees_through:
  assumes "isKnownShell (basenameLower shell)"
    and env: "\<forall>(n, v) \<in> set env. isValidAssignName n \<and> valueBytesAllowed v"
    and wr: "\<forall>w \<in> set wrappers. isTransparentWrapper w"
    and q: "\<forall>w \<in> set (c # as). CHR 0x27 \<notin> set w"
    and c: "\<not> isTransparentWrapper c" "\<not> isShellBuiltin c" "wrappers = [] \<or> \<not> HasPrefix c ''-''"
  shows "DerivePolicyTarget shell (''-c'' # quoted_script env wrappers (c # as) # extra) = Some (c, as)"
proof -
  let ?tail = "Join (wrappers @ map shell_quote (c # as)) '' ''"
  let ?script = "quoted_script env wrappers (c # as)"
  have strip: "stripLeadingAssignments ?script =
      ((if env = [] then [] else '' '') @ ?tail, False)"
    using strip_assignments [OF env, of "wrappers @ map shell_quote (c # as)" "[]"]
      strip_quoted_tail [OF wr, of "c # as" "[]"] strip_quoted_tail [OF wr, of "c # as" "'' ''"]
    by (simp add: quoted_script_def blank_def)
  have "TrimSpace ?tail = ?tail"
    using TrimSpace_quoted [of "[]" wrappers "c # as"] wr by (simp add: quoted_script_def)
  then have trim: "TrimSpace ((if env = [] then [] else '' '') @ ?tail) = ?tail"
    by (simp add: TrimSpace_space)
  have tok: "tokenizeSimpleScript ?tail = Some (wrappers @ c # as)"
    using lexes_quoted [OF wr q] by (simp add: tokenize_iff_lexes)
  have "parseSimpleShellC (''-c'' # ?script # extra) = (c, as, statusOK)"
  proof (rule parse_okI)
    show "findShellCFlag (''-c'' # ?script # extra) = Some 0" by simp
    show "0 + 1 < length (''-c'' # ?script # extra)" by simp
    show "stripLeadingAssignments (TrimSpace ((''-c'' # ?script # extra) ! (0 + 1))) =
        ((if env = [] then [] else '' '') @ ?tail, False)"
      using strip TrimSpace_quoted [OF env wr, of "c # as"] by simp
    show "tokenizeSimpleScript (TrimSpace ((if env = [] then [] else '' '') @ ?tail)) =
        Some (wrappers @ c # as)"
      unfolding trim by (rule tok)
    show "stripWrappers (wrappers @ c # as) = (c # as, False)"
      using c wr by (intro stripWrappers_wrappers)
    show "\<not> isShellBuiltin c" by (rule c)
  qed
  moreover have "shell \<noteq> []" using assms(1) by (rule known_shell_not_Nil)
  ultimately show ?thesis using assms(1) by (simp add: DerivePolicyTarget_def)
qed

section \<open>Reasons and fallback\<close>


lemma describeOpaqueByte_specific: "describeOpaqueByte b \<noteq> UnparsableScript"
  by (simp add: describeOpaqueByte_def)

lemma opaqueLoop_iff_tokenizeLoop:
  "opaqueLoop st s = UnparsableScript \<longleftrightarrow> tokenizeLoop st cur toks s \<noteq> None"
  by (induction st cur toks s rule: tokenizeLoop.induct) (auto simp: describeOpaqueByte_specific)

lemma clusterReason_scan:
  "scanCluster cl = (case clusterReason cl of Inl _ \<Rightarrow> None | Inr c \<Rightarrow> Some c)"
  by (induction cl) (auto split: sum.splits)

lemma flagReason_find:
  "findShellCFlag args = Some k \<Longrightarrow> flagReason i args = Inr (Some (i + k))"
proof (induction args arbitrary: i k)
  case (Cons arg args)
  then obtain b cs where arg: "arg = CHR ''-'' # b # cs" and b: "b \<noteq> CHR ''-''"
    by (auto split: list.splits if_splits)
  with Cons.prems obtain x where x: "scanCluster (b # cs) = Some x"
    by (auto split: option.splits)
  then have r: "clusterReason (b # cs) = Inr x"
    unfolding clusterReason_scan by (cases "clusterReason (b # cs)") (auto simp del: clusterReason.simps)
  have no: "arg \<notin> {''-o'', ''+o'', ''-O'', ''+O''}"
    using x unfolding arg by (auto simp: isSafeShellShortFlag_def)
  show ?case
  proof (cases x)
    case True
    with Cons.prems arg b x have "k = 0" by simp
    with True arg b r no show ?thesis by (simp del: clusterReason.simps)
  next
    case False
    with Cons.prems arg b x obtain j where "findShellCFlag args = Some j" "k = Suc j"
      by (auto simp del: scanCluster.simps)
    with Cons.IH [of j "Suc i"] False arg b r no show ?thesis by (simp del: clusterReason.simps)
  qed
qed simp

lemma wrapperReason_bypass:
  "stripWrappers ts = (x, True) \<Longrightarrow>
   \<exists>w f. wrapperReason ts = WrapperWithFlag w f \<and> isTransparentWrapper w \<and> HasPrefix f ''-''"
  by (induction ts rule: stripWrappers.induct) (auto split: if_splits)

lemma bypass_reason_specific:
  assumes st: "shellStatus args = statusBypass" and f: "findShellCFlag args = Some i"
  shows "computeBypassReason args = DirtyAssignment
    \<or> (\<exists>w. computeBypassReason args = WrapperUnparsable w \<and> isTransparentWrapper w)
    \<or> (\<exists>w g. computeBypassReason args = WrapperWithFlag w g \<and> isTransparentWrapper w \<and> HasPrefix g ''-'')"
proof -
  have i: "i + 1 < length args"
    using st f by (auto simp: shellStatus_def parseSimpleShellC_def split: if_splits)
  obtain s1 d where s1: "stripLeadingAssignments (TrimSpace (args ! (i + 1))) = (s1, d)"
    by (cases "stripLeadingAssignments (TrimSpace (args ! (i + 1)))")
  have fr: "flagReason 0 args = Inr (Some i)" using flagReason_find [OF f, of 0] by simp
  show ?thesis
  proof (cases "d \<or> tokenizeSimpleScript (TrimSpace s1) = None")
    case True
    then show ?thesis using st f i s1 fr
      by (auto simp: shellStatus_def parseSimpleShellC_def computeBypassReason_def Let_def
          split: if_splits)
  next
    case False
    then obtain toks where t: "tokenizeSimpleScript (TrimSpace s1) = Some toks" and d: "\<not> d" by auto
    have "\<exists>x. stripWrappers toks = (x, True)" and "TrimSpace s1 \<noteq> []"
      using st f i s1 t d
      by (auto simp: shellStatus_def parseSimpleShellC_def Let_def
          split: if_splits prod.splits list.splits)
    then show ?thesis using wrapperReason_bypass [of toks] fr i s1 t d
      by (auto simp: computeBypassReason_def Let_def)
  qed
qed

lemma opaque_reason_specific:
  assumes "IsOpaqueShellC command args"
  shows "\<exists>r. OpaqueReason command args = Some r \<and> r \<noteq> UnparsableScript"
proof -
  have st: "shellStatus args = statusOpaque"
    and k: "command \<noteq> []" "isKnownShell (basenameLower command)"
    using assms by (auto simp: IsOpaqueShellC_def split: if_splits)
  obtain i where f: "findShellCFlag args = Some i" "i + 1 < length args"
    and t: "tokenizeSimpleScript (TrimSpace (fst (stripLeadingAssignments
             (TrimSpace (args ! (i + 1)))))) = None"
    using st unfolding shellStatus_def parseSimpleShellC_def Let_def
    by (auto split: option.splits if_splits prod.splits list.splits)
  have "computeOpaqueReason args \<noteq> UnparsableScript"
    using f t opaqueLoop_iff_tokenizeLoop [of stateOutside _ "[]" "[]"]
    by (simp add: computeOpaqueReason_def tokenizeSimpleScript_def Let_def)
  with st k show ?thesis by (simp add: OpaqueReason_def)
qed

lemma fallback_without_c:
  "shellStatus args = statusFallback \<Longrightarrow> findShellCFlag args = None \<Longrightarrow>
   \<not> hasShellCWithUnsafeOptions args"
  by (auto simp: shellStatus_def parseSimpleShellC_def split: if_splits)

lemma fallback_with_c:
  assumes st: "shellStatus args = statusFallback"
    and f: "findShellCFlag args = Some i" and i: "i + 1 < length args"
  shows "\<exists>s1. stripLeadingAssignments (TrimSpace (args ! (i + 1))) = (s1, False) \<and>
    (TrimSpace s1 = [] \<or>
     (\<exists>toks rest. lexes (TrimSpace s1) toks \<and> stripWrappers toks = (rest, False) \<and>
        (rest = [] \<or> isShellBuiltin (hd rest))))"
proof -
  obtain s1 d where s1: "stripLeadingAssignments (TrimSpace (args ! (i + 1))) = (s1, d)"
    by (cases "stripLeadingAssignments (TrimSpace (args ! (i + 1)))")
  show ?thesis
  proof (cases "TrimSpace (args ! (i + 1)) = [] \<or> TrimSpace s1 = []")
    case True
    then show ?thesis using st f i s1
      by (auto simp: shellStatus_def parseSimpleShellC_def Let_def stripLeadingAssignments.simps
          split: if_splits)
  next
    case False
    then have d: "\<not> d" and "tokenizeSimpleScript (TrimSpace s1) \<noteq> None"
      using st f i s1
      by (auto simp: shellStatus_def parseSimpleShellC_def Let_def split: if_splits option.splits)
    then obtain toks where t: "tokenizeSimpleScript (TrimSpace s1) = Some toks" by auto
    obtain rest b where w: "stripWrappers toks = (rest, b)" by (cases "stripWrappers toks")
    have "\<not> b" and "rest = [] \<or> isShellBuiltin (hd rest)"
      using False st f i s1 d t w
      by (auto simp: shellStatus_def parseSimpleShellC_def Let_def split: if_splits list.splits)
    with s1 d t w show ?thesis by (auto simp: tokenize_iff_lexes)
  qed
qed

section \<open>Properties\<close>

text \<open>C17: the tokenizer accepts exactly the scripts of the word grammar, with exactly the words the grammar
  gives: words separated by blanks, each a sequence of unquoted runs of allowed bytes, single-quoted and
  double-quoted pieces, every other script being rejected.\<close>

theorem tokenizeSimpleScript_grammar:
  "tokenizeSimpleScript script = Some toks \<longleftrightarrow> lexes script toks"
  by (rule tokenize_iff_lexes)

text \<open>C16: a policy check sees the program behind a shell: for a known shell and a script of assignments,
  transparent wrappers and a quoted command line, the derived target is that command with its arguments,
  whatever extra positional parameters follow the script.\<close>

theorem DerivePolicyTarget_sees_through:
  assumes "isKnownShell (basenameLower shell)"
    and "\<forall>(n, v) \<in> set env. isValidAssignName n \<and> valueBytesAllowed v"
    and "\<forall>w \<in> set wrappers. isTransparentWrapper w"
    and "\<forall>w \<in> set (c # as). CHR 0x27 \<notin> set w"
    and "\<not> isTransparentWrapper c" "\<not> isShellBuiltin c" "wrappers = [] \<or> \<not> HasPrefix c ''-''"
  shows "DerivePolicyTarget shell (''-c'' # quoted_script env wrappers (c # as) # extra) = Some (c, as)"
  using assms by (rule derive_sees_through)

text \<open>each derivation is strictly shorter than the arguments it was derived from and never yields a
  shell builtin or an undigested wrapper, so repeated derivation ends.\<close>

lemma DerivePolicyTarget_decreases:
  assumes "DerivePolicyTarget command args = Some (c, as)"
  shows "sum_list (map length (c # as)) < sum_list (map length args)
    \<and> \<not> isShellBuiltin c \<and> (as \<noteq> [] \<longrightarrow> \<not> isTransparentWrapper c)"
  using derive_decreases [OF assms] derive_target_visible [OF assms] by blast

text \<open>a shell invocation is left to the rule of the shell itself only in the documented cases: there is
  no \<^verbatim>\<open>-c\<close> hidden behind unsafe options, and if there is a \<^verbatim>\<open>-c\<close> script it is empty after its assignments or
  is tokenized into wrappers followed by nothing or by a shell builtin.\<close>

lemma parse_fallback_cases:
  assumes "shellStatus args = statusFallback"
  shows "(findShellCFlag args = None \<longrightarrow> \<not> hasShellCWithUnsafeOptions args) \<and>
    (\<forall>i. findShellCFlag args = Some i \<and> i + 1 < length args \<longrightarrow>
      (\<exists>s1. stripLeadingAssignments (TrimSpace (args ! (i + 1))) = (s1, False) \<and>
        (TrimSpace s1 = [] \<or>
         (\<exists>toks rest. lexes (TrimSpace s1) toks \<and> stripWrappers toks = (rest, False) \<and>
            (rest = [] \<or> isShellBuiltin (hd rest))))))"
  using fallback_without_c [OF assms] fallback_with_c [OF assms] by blast

text \<open>every opaque script gets a specific explanation, never the generic one; and the explanation of a
  bypass attempt behind a \<^verbatim>\<open>-c\<close> flag names a disallowed assignment, a wrapper, or a wrapper and its flag.\<close>

lemma reasons_are_specific:
  "(IsOpaqueShellC command args \<longrightarrow> (\<exists>r. OpaqueReason command args = Some r \<and> r \<noteq> UnparsableScript))
   \<and> (shellStatus args = statusBypass \<and> findShellCFlag args \<noteq> None \<longrightarrow>
        computeBypassReason args = DirtyAssignment
        \<or> (\<exists>w. computeBypassReason args = WrapperUnparsable w \<and> isTransparentWrapper w)
        \<or> (\<exists>w g. computeBypassReason args = WrapperWithFlag w g \<and> isTransparentWrapper w \<and> HasPrefix g ''-''))"
  using opaque_reason_specific [of command args] bypass_reason_specific [of args] by auto

section \<open>Witnesses\<close>

theorem DerivePolicyTarget_sees_through_witness:
  "DerivePolicyTarget ''/bin/bash.real''
     (''-c'' # quoted_script [(''LANG'', ''C'')] [''nohup'', ''nice''] [''rm'', ''-rf'', ''/ tmp''] # [''x''])
   = Some (''rm'', [''-rf'', ''/ tmp''])"
proof (rule DerivePolicyTarget_sees_through)
  show "isKnownShell (basenameLower ''/bin/bash.real'')" by code_simp
  show "\<forall>(n, v) \<in> set [(''LANG'', ''C'')]. isValidAssignName n \<and> valueBytesAllowed v" by code_simp
  show "\<forall>w \<in> set [''nohup'', ''nice'']. isTransparentWrapper w" by code_simp
  show "\<forall>w \<in> set [''rm'', ''-rf'', ''/ tmp'']. CHR 0x27 \<notin> set w" by code_simp
  show "\<not> isTransparentWrapper ''rm''" "\<not> isShellBuiltin ''rm''" by code_simp+
  show "[''nohup'', ''nice''] = [] \<or> \<not> HasPrefix ''rm'' ''-''" by code_simp
qed

lemma DerivePolicyTarget_decreases_witness:
  "sum_list (map length [''shutdown'', ''now'']) < sum_list (map length [''-c'', ''exec shutdown now''])"
proof -
  have "DerivePolicyTarget ''sh'' [''-c'', ''exec shutdown now''] = Some (''shutdown'', [''now''])" by code_simp
  from DerivePolicyTarget_decreases [OF this] show ?thesis by blast
qed

lemma parse_fallback_cases_witness:
  "shellStatus [''script.sh'', ''arg''] = statusFallback \<and> \<not> hasShellCWithUnsafeOptions [''script.sh'', ''arg'']"
proof -
  have 1: "shellStatus [''script.sh'', ''arg''] = statusFallback" by code_simp
  have 2: "findShellCFlag [''script.sh'', ''arg''] = None" by code_simp
  from parse_fallback_cases [OF 1] 1 2 show ?thesis by blast
qed

lemma reasons_are_specific_witness:
  "\<exists>r. OpaqueReason ''sh'' [''-c'', ''ls | wc''] = Some r \<and> r \<noteq> UnparsableScript"
proof -
  have "IsOpaqueShellC ''sh'' [''-c'', ''ls | wc'']" by code_simp
  with reasons_are_specific [of "''sh''" "[''-c'', ''ls | wc'']"] show ?thesis by blast
qed

end
