(* ===== verification/PolicyTypes.thy ===== *)
theory PolicyTypes
  imports AgentshPrelude "HOL-Library.Word"
begin

text \<open>
  The data of the policy components: \<^verbatim>\<open>pkg/types\<close> (decisions and the information attached to them),
  \<^verbatim>\<open>internal/policy/model.go\<close> and \<^verbatim>\<open>rules.go\<close> (the rules of a policy file), and the parts of Go's
  \<^verbatim>\<open>net\<close> package the engine uses. Record fields carry the Go name behind a prefix for the struct.

  The pattern libraries are parameters: \<^verbatim>\<open>glob_Compile\<close> stands for \<^verbatim>\<open>github.com/gobwas/glob\<close>,
  \<^verbatim>\<open>regexp_Compile\<close>, \<^verbatim>\<open>ParseIP\<close>, \<^verbatim>\<open>ParseCIDR\<close>, \<^verbatim>\<open>ParseAddr6\<close> and \<^verbatim>\<open>url_Parse\<close> (scheme and host) for the parsers of
  regular expressions, addresses and URLs; each returns \<^const>\<open>None\<close> where Go returns an error. A
  compiled pattern is the predicate its \<^verbatim>\<open>Match\<close> method computes.
\<close>

section \<open>Decisions\<close>

text \<open>\<^verbatim>\<open>types.Decision\<close> is a Go string; the named constants are constructors, any other string is
  \<^verbatim>\<open>OtherDecision\<close>.\<close>

datatype types_Decision =
    DecisionAllow
  | DecisionDeny
  | DecisionApprove
  | DecisionRedirect
  | DecisionAudit
  | DecisionSoftDelete
  | OtherDecision string

definition to_Decision :: "string \<Rightarrow> types_Decision" where
  "to_Decision s =
     (if s = ''allow'' then DecisionAllow
      else if s = ''deny'' then DecisionDeny
      else if s = ''approve'' then DecisionApprove
      else if s = ''redirect'' then DecisionRedirect
      else if s = ''audit'' then DecisionAudit
      else if s = ''soft_delete'' then DecisionSoftDelete
      else OtherDecision s)"

datatype ApprovalMode = ApprovalModeShadow | ApprovalModeEnforced

record ApprovalInfo =
  ai_Required :: bool
  ai_Mode :: ApprovalMode
  ai_ID :: string

record RedirectInfo =
  ri_Command :: string
  ri_Args :: "string list"
  ri_ArgsAppend :: "string list"
  ri_Environment :: "(string \<rightharpoonup> string) option"
  ri_Reason :: string

record FileRedirectInfo =
  fri_OriginalPath :: string
  fri_RedirectPath :: string
  fri_Operation :: string
  fri_Reason :: string

section \<open>Addresses\<close>

text \<open>A \<^verbatim>\<open>net.IP\<close> up to \<^verbatim>\<open>To4\<close>; an \<^verbatim>\<open>IPNet\<close> is an address and a mask of the same width.\<close>

datatype IP = IPv4 "32 word" | IPv6 "128 word"

datatype IPNet = IPNet4 "32 word" "32 word" | IPNet6 "128 word" "128 word"

unbundle bit_operations_syntax

fun IPNet_Contains :: "IPNet \<Rightarrow> IP \<Rightarrow> bool" where
  "IPNet_Contains (IPNet4 nn m) (IPv4 ip) \<longleftrightarrow> nn AND m = ip AND m"
| "IPNet_Contains (IPNet6 nn m) (IPv6 ip) \<longleftrightarrow> nn AND m = ip AND m"
| "IPNet_Contains _ _ \<longleftrightarrow> False"

section \<open>The pattern libraries\<close>

type_synonym pattern = "string \<Rightarrow> bool"

record golib =
  glob_Compile :: "string \<Rightarrow> string \<Rightarrow> pattern option"
  regexp_Compile :: "string \<Rightarrow> pattern option"
  ParseIP :: "string \<Rightarrow> IP option"
  ParseCIDR :: "string \<Rightarrow> IPNet option"
  ParseAddr6 :: "string \<Rightarrow> bool"
  url_Parse :: "string \<Rightarrow> (string \<times> string) option"

text \<open>A small concrete library, on which the theorems with a library parameter are instantiated: a
  pattern ending in \<^verbatim>\<open>*\<close> matches its prefix, any other pattern itself; no string is an address.\<close>

definition literal_pattern :: "string \<Rightarrow> pattern" where
  "literal_pattern p s \<longleftrightarrow> (if HasSuffix p ''*'' then HasPrefix s (butlast p) else s = p)"

definition literal_lib :: golib where
  "literal_lib =
     \<lparr>glob_Compile = (\<lambda>p sep. Some (literal_pattern p)), regexp_Compile = (\<lambda>p. Some (literal_pattern p)),
      ParseIP = (\<lambda>s. None), ParseCIDR = (\<lambda>s. None), ParseAddr6 = (\<lambda>s. False), url_Parse = (\<lambda>s. Some (''https'', s))\<rparr>"

section \<open>Rules of a policy file\<close>

record FileRule =
  fr_Name :: string
  fr_Description :: string
  fr_Paths :: "string list"
  fr_Operations :: "string list"
  fr_Decision :: string
  fr_Message :: string
  fr_Timeout :: int
  fr_RedirectTo :: string
  fr_PreserveTree :: bool

record NetworkRule =
  nr_Name :: string
  nr_Description :: string
  nr_Domains :: "string list"
  nr_Ports :: "int list"
  nr_CIDRs :: "string list"
  nr_Decision :: string
  nr_Message :: string
  nr_Timeout :: int

record ContextConfig =
  cc_MinDepth :: int
  cc_MaxDepth :: int

record CommandRedirect =
  cd_Command :: string
  cd_Args :: "string list"
  cd_ArgsAppend :: "string list"
  cd_Environment :: "(string \<rightharpoonup> string) option"

record CommandRule =
  cr_Name :: string
  cr_Description :: string
  cr_Commands :: "string list"
  cr_ArgsPatterns :: "string list"
  cr_Decision :: string
  cr_Message :: string
  cr_RedirectTo :: "CommandRedirect option"
  cr_Context :: ContextConfig
  cr_EnvAllow :: "string list"
  cr_EnvDeny :: "string list"
  cr_EnvMaxBytes :: int
  cr_EnvMaxKeys :: int
  cr_EnvBlockIteration :: "bool option"

record UnixSocketRule =
  ur_Name :: string
  ur_Description :: string
  ur_Paths :: "string list"
  ur_Operations :: "string list"
  ur_Decision :: string
  ur_Message :: string
  ur_Timeout :: int

record RegistryRule =
  rr_Name :: string
  rr_Description :: string
  rr_Paths :: "string list"
  rr_Operations :: "string list"
  rr_Decision :: string
  rr_Message :: string
  rr_Timeout :: int
  rr_Priority :: int
  rr_CacheTTL :: int
  rr_Notify :: bool

record DnsRedirectRule =
  dr_Name :: string
  dr_Match :: string
  dr_ResolveTo :: string
  dr_Visibility :: string
  dr_OnFailure :: string

record ConnectRedirectTLSConfig =
  tls_Mode :: string
  tls_SNI :: string

record ConnectRedirectRule =
  xr_Name :: string
  xr_Match :: string
  xr_RedirectTo :: string
  xr_RedirectToUnix :: string
  xr_TLS :: "ConnectRedirectTLSConfig option"
  xr_Visibility :: string
  xr_Message :: string
  xr_OnFailure :: string

record SignalTargetSpec =
  ts_Type :: string
  ts_Pattern :: string
  ts_Min :: int
  ts_Max :: int

record SignalRule =
  sr_Name :: string
  sr_Description :: string
  sr_Signals :: "string list"
  sr_Target :: SignalTargetSpec
  sr_Decision :: string
  sr_Fallback :: string
  sr_RedirectTo :: string
  sr_Message :: string
  sr_Timeout :: int

record EnvPolicy =
  ep_Allow :: "string list"
  ep_Deny :: "string list"
  ep_MaxBytes :: int
  ep_MaxKeys :: int
  ep_BlockIteration :: bool

record ResourceLimits =
  rl_MaxMemoryMB :: int
  rl_MemorySwapMaxMB :: int
  rl_CPUQuotaPercent :: int
  rl_DiskReadBpsMax :: int
  rl_DiskWriteBpsMax :: int
  rl_NetBandwidthMbps :: int
  rl_PidsMax :: int
  rl_CommandTimeout :: int
  rl_SessionTimeout :: int
  rl_IdleTimeout :: int

record HTTPServiceRule =
  hr_Name :: string
  hr_Methods :: "string list"
  hr_Paths :: "string list"
  hr_Decision :: string
  hr_Message :: string
  hr_Timeout :: int

record HTTPServiceSecret =
  hs_Ref :: string
  hs_Format :: string

record HTTPServiceInjectHeader =
  hi_Name :: string
  hi_Template :: string

text \<open>\<^verbatim>\<open>HTTPServiceInject\<close> only holds an optional header injection.\<close>

record HTTPService =
  h_Name :: string
  h_Upstream :: string
  h_ExposeAs :: string
  h_Aliases :: "string list"
  h_AllowDirect :: bool
  h_Default :: string
  h_Rules :: "HTTPServiceRule list"
  h_Secret :: "HTTPServiceSecret option"
  h_Inject :: "HTTPServiceInjectHeader option option"
  h_ScrubResponse :: "bool option"

record RuleMetadata =
  rm_RuleName :: string
  rm_Source :: string
  rm_DBService :: string
  rm_BypassMode :: string
  rm_Destination :: string

record LicenseSPDXMatch =
  ls_Allow :: "string list"
  ls_Deny :: "string list"

text \<open>The provider-specific options are a map with values of any type; the model keeps its keys.\<close>

record PackageMatch =
  pm_Packages :: "string list"
  pm_NamePatterns :: "string list"
  pm_FindingType :: string
  pm_Severity :: string
  pm_Reasons :: "string list"
  pm_LicenseSPDX :: "LicenseSPDXMatch option"
  pm_Ecosystem :: string
  pm_Options :: "string list"

record PackageRule =
  pr_Match :: PackageMatch
  pr_Action :: string
  pr_Reason :: string

text \<open>\<^verbatim>\<open>Policy\<close> has the sections that the engine reads or \<^verbatim>\<open>Validate\<close> checks. A provider is an undecoded YAML
  node; the model keeps its \<^verbatim>\<open>type\<close>, \<^const>\<open>None\<close> when the node does not decode. Of the retired \<^verbatim>\<open>services\<close> section it
  keeps whether it is present. The audit settings, MCP, process-context and database sections are used by
  other packages.\<close>

record Policy =
  p_Version :: int
  p_Name :: string
  p_Description :: string
  p_FileRules :: "FileRule list"
  p_NetworkRules :: "NetworkRule list"
  p_CommandRules :: "CommandRule list"
  p_UnixRules :: "UnixSocketRule list"
  p_RegistryRules :: "RegistryRule list"
  p_SignalRules :: "SignalRule list"
  p_DnsRedirectRules :: "DnsRedirectRule list"
  p_ConnectRedirectRules :: "ConnectRedirectRule list"
  p_ResourceLimits :: ResourceLimits
  p_EnvPolicy :: EnvPolicy
  p_EnvInject :: "(string \<rightharpoonup> string) option"
  p_HTTPServices :: "HTTPService list"
  p_Metadata :: "RuleMetadata list"
  p_PackageRules :: "PackageRule list"
  p_Services :: bool
  p_Providers :: "(string \<times> string option) list"

section \<open>Depth contexts (rules.go)\<close>

definition DefaultContext :: ContextConfig where
  "DefaultContext = \<lparr>cc_MinDepth = 0, cc_MaxDepth = -1\<rparr>"

definition MatchesDepth :: "ContextConfig \<Rightarrow> int \<Rightarrow> bool" where
  "MatchesDepth c depth \<longleftrightarrow>
     (if depth < cc_MinDepth c then False
      else if cc_MaxDepth c \<ge> 0 \<and> depth > cc_MaxDepth c then False
      else True)"

text \<open>\<^verbatim>\<open>parseArray\<close> leaves the context as it was when the array is empty; the error is the unknown
  value.\<close>

fun scanContext :: "string list \<Rightarrow> bool \<Rightarrow> bool \<Rightarrow> string + bool \<times> bool" where
  "scanContext [] hasDirect hasNested = Inr (hasDirect, hasNested)"
| "scanContext (v # arr) hasDirect hasNested =
     (if v = ''direct'' then scanContext arr True hasNested
      else if v = ''nested'' then scanContext arr hasDirect True
      else Inl v)"

definition parseArray :: "ContextConfig \<Rightarrow> string list \<Rightarrow> string + ContextConfig" where
  "parseArray c arr =
     (case scanContext arr False False of
        Inl v \<Rightarrow> Inl v
      | Inr (hasDirect, hasNested) \<Rightarrow>
          Inr (if hasDirect \<and> hasNested then \<lparr>cc_MinDepth = 0, cc_MaxDepth = -1\<rparr>
               else if hasDirect then \<lparr>cc_MinDepth = 0, cc_MaxDepth = 0\<rparr>
               else if hasNested then \<lparr>cc_MinDepth = 1, cc_MaxDepth = -1\<rparr>
               else c))"

lemma scanContext_ok:
  "set arr \<subseteq> {''direct'', ''nested''} \<Longrightarrow>
   scanContext arr d n = Inr (d \<or> ''direct'' \<in> set arr, n \<or> ''nested'' \<in> set arr)"
  by (induction arr arbitrary: d n) auto

lemma scanContext_error: "v \<in> set arr \<Longrightarrow> v \<notin> {''direct'', ''nested''} \<Longrightarrow> \<exists>u. scanContext arr d n = Inl u"
  by (induction arr arbitrary: d n) auto

lemma parseArray_depth:
  assumes "set arr \<subseteq> {''direct'', ''nested''}" "arr \<noteq> []" "depth \<ge> 0"
  shows "\<exists>c'. parseArray c arr = Inr c' \<and>
     (MatchesDepth c' depth \<longleftrightarrow> (if depth = 0 then ''direct'' \<in> set arr else ''nested'' \<in> set arr))"
  using assms scanContext_ok [OF assms(1), of False False]
  by (cases arr) (auto simp: parseArray_def MatchesDepth_def)

end
