(* ===== verification/EnvPolicy.thy ===== *)
theory EnvPolicy
  imports PolicyTypes "HOL-Library.AList" "HOL-Library.Multiset"
begin

text \<open>
  \<^verbatim>\<open>internal/policy/env_policy.go\<close> and \<^verbatim>\<open>vars.go\<close>: the environment a command is started with, and the
  expansion of \<^verbatim>\<open>${VAR}\<close> and \<^verbatim>\<open>${VAR:-fallback}\<close>. The Go maps that are iterated (\<^verbatim>\<open>allowed\<close>, \<^verbatim>\<open>addKeys\<close>)
  are association lists; \<^verbatim>\<open>addKeys\<close> is given in an arbitrary order, and a theorem shows that the order
  does not matter.
\<close>

section \<open>Merging the global policy with the override of a command rule\<close>

record ResolvedEnvPolicy =
  re_Allow :: "string list"
  re_Deny :: "string list"
  re_MaxBytes :: int
  re_MaxKeys :: int
  re_BlockIteration :: bool

fun uniqLoop :: "string set \<Rightarrow> string list \<Rightarrow> string list" where
  "uniqLoop m [] = []"
| "uniqLoop m (s # ss) = (if s \<in> m then uniqLoop m ss else s # uniqLoop (insert s m) ss)"

definition uniqStrings :: "string list \<Rightarrow> string list" where
  "uniqStrings xs = (if xs = [] then xs else uniqLoop {} xs)"

definition MergeEnvPolicy :: "EnvPolicy \<Rightarrow> CommandRule \<Rightarrow> ResolvedEnvPolicy" where
  "MergeEnvPolicy gp rule =
     \<lparr>re_Allow = uniqStrings (if cr_EnvAllow rule \<noteq> [] then cr_EnvAllow rule else ep_Allow gp),
      re_Deny = uniqStrings (if cr_EnvDeny rule \<noteq> [] then cr_EnvDeny rule else ep_Deny gp),
      re_MaxBytes = (if cr_EnvMaxBytes rule > 0 then cr_EnvMaxBytes rule else ep_MaxBytes gp),
      re_MaxKeys = (if cr_EnvMaxKeys rule > 0 then cr_EnvMaxKeys rule else ep_MaxKeys gp),
      re_BlockIteration = (case cr_EnvBlockIteration rule of Some b \<Rightarrow> b | None \<Rightarrow> ep_BlockIteration gp)\<rparr>"

section \<open>Filtering\<close>

definition splitKV :: "string \<Rightarrow> (string \<times> string) option" where
  "splitKV kv = (case IndexByte kv (CHR ''='') of
      Some idx \<Rightarrow> if idx = 0 then None else Some (take idx kv, drop (idx + 1) kv)
    | None \<Rightarrow> None)"

definition compilePatterns :: "(string \<Rightarrow> pattern option) \<Rightarrow> string list \<Rightarrow> pattern list" where
  "compilePatterns compile patterns = List.map_filter compile patterns"

definition matchesAnyPattern :: "string \<Rightarrow> string list \<Rightarrow> pattern list \<Rightarrow> bool" where
  "matchesAnyPattern name patterns compiledGlobs \<longleftrightarrow>
     list_ex (\<lambda>p. p = name) patterns \<or> list_ex (\<lambda>g. g name) compiledGlobs"

definition ValidateEnvPolicy :: "EnvPolicy \<Rightarrow> bool" where
  "ValidateEnvPolicy p \<longleftrightarrow> \<not> (ep_MaxBytes p < 0 \<or> ep_MaxKeys p < 0)"

definition isInternalVar :: "string \<Rightarrow> bool" where
  "isInternalVar name = HasPrefix name ''AGENTSH_''"

definition defaultSecretDeny :: "string list" where
  "defaultSecretDeny =
    [''AWS_SECRET_ACCESS_KEY'', ''AWS_ACCESS_KEY_ID'', ''AWS_SESSION_TOKEN'', ''AWS_PROFILE'',
     ''GOOGLE_APPLICATION_CREDENTIALS'', ''GCP_SERVICE_ACCOUNT'',
     ''AZURE_CLIENT_SECRET'', ''AZURE_CLIENT_ID'', ''AZURE_TENANT_ID'', ''AZURE_SUBSCRIPTION_ID'',
     ''SSH_AUTH_SOCK'', ''SSH_AGENT_PID'', ''DOCKER_HOST'', ''DOCKER_TLS_VERIFY'',
     ''KUBECONFIG'', ''GITHUB_TOKEN'', ''GH_TOKEN'',
     ''LD_PRELOAD'', ''LD_LIBRARY_PATH'', ''LD_AUDIT'', ''LD_DEBUG'', ''LD_DEBUG_OUTPUT'',
     ''LD_DYNAMIC_WEAK'', ''LD_HWCAP_MASK'', ''LD_ORIGIN_PATH'', ''LD_PROFILE'',
     ''LD_PROFILE_OUTPUT'', ''LD_SHOW_AUXV'', ''LD_TRACE_LOADED_OBJECTS'',
     ''DYLD_INSERT_LIBRARIES'', ''DYLD_LIBRARY_PATH'', ''DYLD_FRAMEWORK_PATH'',
     ''DYLD_FALLBACK_LIBRARY_PATH'', ''DYLD_FALLBACK_FRAMEWORK_PATH'', ''DYLD_IMAGE_SUFFIX'',
     ''DYLD_PRINT_LIBRARIES'',
     ''PYTHONPATH'', ''PYTHONSTARTUP'', ''PYTHONHOME'', ''PYTHONUSERBASE'',
     ''RUBYLIB'', ''RUBYOPT'',
     ''PERL5LIB'', ''PERL5OPT'', ''PERLLIB'',
     ''NODE_PATH'', ''NODE_OPTIONS'',
     ''BASH_ENV'', ''ENV'', ''SHELLOPTS'', ''BASHOPTS'', ''CDPATH'', ''GLOBIGNORE'', ''MAILPATH'',
     ''PROMPT_COMMAND'',
     ''GIT_ASKPASS'', ''SSH_ASKPASS'', ''GIT_SSH_COMMAND'']"

definition env_isDenied :: "(string \<Rightarrow> pattern option) \<Rightarrow> ResolvedEnvPolicy \<Rightarrow> string \<Rightarrow> bool" where
  "env_isDenied compile pol name \<longleftrightarrow>
     (if matchesAnyPattern name (re_Deny pol) (compilePatterns compile (re_Deny pol)) then True
      else if re_Allow pol = [] then list_ex (\<lambda>secret. name = secret) defaultSecretDeny
      else False)"

definition env_isAllowed :: "(string \<Rightarrow> pattern option) \<Rightarrow> ResolvedEnvPolicy \<Rightarrow> string \<Rightarrow> bool" where
  "env_isAllowed compile pol name \<longleftrightarrow>
     (if env_isDenied compile pol name then False
      else if re_Allow pol = [] then True
      else matchesAnyPattern name (re_Allow pol) (compilePatterns compile (re_Allow pol)))"

type_synonym env_map = "(string \<times> string) list"

fun addBase :: "(string \<Rightarrow> bool) \<Rightarrow> string list \<Rightarrow> env_map \<Rightarrow> env_map" where
  "addBase ok [] allowed = allowed"
| "addBase ok (kv # baseEnv) allowed =
     addBase ok baseEnv
       (case splitKV kv of
          None \<Rightarrow> allowed
        | Some (k, v) \<Rightarrow> if v = [] then allowed else if ok k then AList.update k v allowed else allowed)"

fun addWhen :: "(string \<Rightarrow> bool) \<Rightarrow> env_map \<Rightarrow> env_map \<Rightarrow> env_map" where
  "addWhen ok [] allowed = allowed"
| "addWhen ok ((k, v) # addKeys) allowed =
     addWhen ok addKeys (if ok k then AList.update k v allowed else allowed)"

datatype env_error = ExceedsMaxKeys int | ExceedsMaxBytes int

definition env_allowed :: "(string \<Rightarrow> pattern option) \<Rightarrow> ResolvedEnvPolicy \<Rightarrow> string list \<Rightarrow> env_map \<Rightarrow> env_map" where
  "env_allowed compile pol baseEnv addKeys =
     (let ok = env_isAllowed compile pol
      in addWhen isInternalVar addKeys (addWhen ok addKeys (addBase ok baseEnv [])))"

definition envPair :: "string \<times> string \<Rightarrow> string" where
  "envPair kv = fst kv @ ''='' @ snd kv"

definition envBytes :: "string list \<Rightarrow> nat" where
  "envBytes pairs = sum_list (map (\<lambda>p. length p + 1) pairs)"

definition BuildEnv :: "(string \<Rightarrow> pattern option) \<Rightarrow> ResolvedEnvPolicy \<Rightarrow> string list \<Rightarrow> env_map \<Rightarrow>
    env_error + string list" where
  "BuildEnv compile pol baseEnv addKeys =
     (let pairs = sort (map envPair (env_allowed compile pol baseEnv addKeys)) in
      if re_MaxKeys pol > 0 \<and> int (length pairs) > re_MaxKeys pol then Inl (ExceedsMaxKeys (re_MaxKeys pol))
      else if re_MaxBytes pol > 0 \<and> int (envBytes pairs) > re_MaxBytes pol
        then Inl (ExceedsMaxBytes (re_MaxBytes pol))
      else Inr pairs)"

section \<open>Variable expansion\<close>

text \<open>\<^verbatim>\<open>varPattern\<close> at the head of the input: the name, the fallback and the rest of the input. The name
  cannot contain a colon or a closing brace, so the regular expression has at most one match at a
  position.\<close>

definition is_var_start :: "char \<Rightarrow> bool" where
  "is_var_start c \<longleftrightarrow> is_letter c \<or> c = CHR ''_''"

definition is_var_byte :: "char \<Rightarrow> bool" where
  "is_var_byte c \<longleftrightarrow> is_letter c \<or> is_digit c \<or> c = CHR ''_''"

fun varPattern :: "string \<Rightarrow> (string \<times> string option \<times> string) option" where
  "varPattern (d # b # c # s) =
     (if d = CHR ''$'' \<and> b = CHR ''{'' \<and> is_var_start c then
        (let name = c # takeWhile is_var_byte s; r = dropWhile is_var_byte s in
         if r = [] then None
         else if hd r = CHR ''}'' then Some (name, None, tl r)
         else if HasPrefix r '':-'' then
           (let f = takeWhile (\<lambda>x. x \<noteq> CHR ''}'') (drop 2 r);
                r' = dropWhile (\<lambda>x. x \<noteq> CHR ''}'') (drop 2 r)
            in if r' = [] then None else Some (name, Some f, tl r'))
         else None)
      else None)"
| "varPattern _ = None"

lemma length_varPattern: "varPattern s = Some (n, f, r) \<Longrightarrow> length r < length s"
proof (induction s rule: varPattern.induct)
  case (1 d b c s)
  have a: "length (tl (dropWhile P xs)) \<le> length xs" for P and xs :: string
    using length_dropWhile_le [of P xs] by simp
  have b: "length (tl (dropWhile Q (drop 2 (dropWhile P xs)))) \<le> length xs" for P Q and xs :: string
    using length_dropWhile_le [of Q "drop 2 (dropWhile P xs)"] length_dropWhile_le [of P xs] by simp
  from 1 show ?case
    by (auto simp: Let_def less_Suc_eq_le intro: le_SucI a b split: if_splits)
qed auto

definition lookupVar :: "(string \<rightharpoonup> string) \<Rightarrow> (string \<Rightarrow> string) \<Rightarrow> string \<Rightarrow> string option \<Rightarrow> string option" where
  "lookupVar vars getenv name fallback =
     (case vars name of
        Some val \<Rightarrow> Some val
      | None \<Rightarrow> if getenv name \<noteq> [] then Some (getenv name) else fallback)"

function (sequential) ExpandVariables :: "(string \<rightharpoonup> string) \<Rightarrow> (string \<Rightarrow> string) \<Rightarrow> string \<Rightarrow> string + string" where
  "ExpandVariables vars getenv [] = Inr []"
| "ExpandVariables vars getenv (x # s) =
     (case varPattern (x # s) of
        None \<Rightarrow> map_sum id (\<lambda>t. x # t) (ExpandVariables vars getenv s)
      | Some (name, fallback, rest) \<Rightarrow>
          (case lookupVar vars getenv name fallback of
             None \<Rightarrow> Inl name
           | Some val \<Rightarrow> map_sum id (\<lambda>t. val @ t) (ExpandVariables vars getenv rest)))"
  by pat_completeness auto
termination
  by (relation "measure (\<lambda>(vars, getenv, s). length s)") (auto dest: length_varPattern)

section \<open>Lemmas on merging and filtering\<close>

lemma set_uniqLoop [simp]: "set (uniqLoop m xs) = set xs - m"
  by (induction xs arbitrary: m) auto

lemma distinct_uniqLoop [simp]: "distinct (uniqLoop m xs)"
  by (induction xs arbitrary: m) auto

lemma uniqLoop_distinct: "distinct xs \<Longrightarrow> set xs \<inter> m = {} \<Longrightarrow> uniqLoop m xs = xs"
  by (induction xs arbitrary: m) auto

lemma set_uniqStrings [simp]: "set (uniqStrings xs) = set xs"
  by (simp add: uniqStrings_def)

lemma uniqStrings_Nil_iff [simp]: "uniqStrings xs = [] \<longleftrightarrow> xs = []"
  using set_uniqStrings [of xs] by (metis set_empty)

lemma distinct_uniqStrings [simp]: "distinct (uniqStrings xs)"
  by (simp add: uniqStrings_def)

lemma uniqStrings_idem [simp]: "uniqStrings (uniqStrings xs) = uniqStrings xs"
  by (metis distinct_uniqStrings inf_bot_right uniqLoop_distinct uniqStrings_def)

lemma set_compilePatterns [simp]: "set (compilePatterns compile ps) = {g. \<exists>p \<in> set ps. compile p = Some g}"
  by (auto simp: compilePatterns_def List.map_filter_def image_iff)
     (metis option.sel)

lemma matchesAnyPattern_compile:
  "matchesAnyPattern name ps (compilePatterns compile ps) \<longleftrightarrow>
     name \<in> set ps \<or> (\<exists>p \<in> set ps. \<exists>g. compile p = Some g \<and> g name)"
  by (auto simp: matchesAnyPattern_def list_ex_iff)

text \<open>A pattern list only matters as a set, so removing duplicates changes nothing.\<close>

lemma env_isAllowed_cong:
  assumes "set (re_Allow p) = set (re_Allow q)" "set (re_Deny p) = set (re_Deny q)"
  shows "env_isAllowed compile p = env_isAllowed compile q"
proof -
  have "re_Allow p = [] \<longleftrightarrow> re_Allow q = []"
    using assms(1) by (metis set_empty)
  then show ?thesis
    by (auto simp: fun_eq_iff env_isAllowed_def env_isDenied_def matchesAnyPattern_compile assms)
qed

section \<open>What BuildEnv returns\<close>

definition base_vars :: "string list \<Rightarrow> env_map" where
  "base_vars baseEnv = filter (\<lambda>(k, v). v \<noteq> []) (List.map_filter splitKV baseEnv)"

text \<open>The value a variable must have in the child: an internal variable that agentsh injects passes
  unfiltered; otherwise a variable the policy allows takes the injected value if there is one, else the
  last non-empty definition in the base environment.\<close>

definition env_spec :: "(string \<Rightarrow> pattern option) \<Rightarrow> ResolvedEnvPolicy \<Rightarrow> string list \<Rightarrow> env_map \<Rightarrow> string \<rightharpoonup> string" where
  "env_spec compile pol baseEnv addKeys k =
     (if isInternalVar k \<and> k \<in> fst ` set addKeys then map_of addKeys k
      else if env_isAllowed compile pol k
      then (map_of (rev (base_vars baseEnv)) ++ map_of addKeys) k
      else None)"

lemma map_of_addBase:
  "map_of (addBase ok base al) k =
     (if ok k then (map_of al ++ map_of (rev (base_vars base))) k else map_of al k)"
  by (induction base arbitrary: al)
     (auto simp: base_vars_def List.map_filter_def map_add_def update_conv' split: option.splits)

lemma map_of_addWhen:
  "distinct (map fst ks) \<Longrightarrow>
   map_of (addWhen ok ks al) k = (if ok k then (map_of al ++ map_of ks) k else map_of al k)"
proof (induction ks arbitrary: al)
  case (Cons kv ks)
  obtain a b where [simp]: "kv = (a, b)" by (cases kv)
  show ?case
    using Cons by (auto simp: update_conv' map_add_def split: option.splits dest: map_of_SomeD) force+
qed simp

lemma distinct_addBase: "distinct (map fst al) \<Longrightarrow> distinct (map fst (addBase ok base al))"
  by (induction base arbitrary: al) (auto simp: distinct_update split: option.splits)

lemma distinct_addWhen: "distinct (map fst al) \<Longrightarrow> distinct (map fst (addWhen ok ks al))"
  by (induction ok ks al rule: addWhen.induct) (auto simp: distinct_update)

lemma distinct_env_allowed: "distinct (map fst (env_allowed compile pol base add))"
  by (simp add: env_allowed_def Let_def distinct_addWhen distinct_addBase)

lemma map_of_env_allowed:
  "distinct (map fst add) \<Longrightarrow> map_of (env_allowed compile pol base add) = env_spec compile pol base add"
  by (auto simp: fun_eq_iff env_allowed_def Let_def map_of_addWhen map_of_addBase env_spec_def map_add_def
      image_iff split: option.splits dest: map_of_SomeD)
     (metis fst_conv map_of_eq_None_iff image_eqI option.distinct(1))

lemma set_env_allowed:
  assumes "distinct (map fst add)"
  shows "set (env_allowed compile pol base add) = {(k, v). env_spec compile pol base add k = Some v}"
  using map_of_env_allowed [OF assms, of compile pol base] distinct_env_allowed [of compile pol base add]
  by (auto simp flip: map_of_eq_Some_iff)

lemma mset_env_allowed:
  assumes "distinct (map fst add)" "mset add = mset add'"
  shows "mset (env_allowed compile pol base add) = mset (env_allowed compile pol base add')"
proof -
  have d': "distinct (map fst add')"
    using assms by (metis mset_map mset_eq_imp_distinct_iff)
  have "map_of add = map_of add'"
    using assms d' by (metis map_of_eqI map_of_eq_Some_iff mset_eq_setD option.exhaust set_map ext)
  then have "env_spec compile pol base add = env_spec compile pol base add'"
    using mset_eq_setD [OF assms(2)] by (intro ext) (simp add: env_spec_def)
  then have "set (env_allowed compile pol base add) = set (env_allowed compile pol base add')"
    by (simp add: set_env_allowed assms(1) d')
  then show ?thesis
    using distinct_env_allowed by (metis distinct_map set_eq_iff_mset_eq_distinct)
qed

lemma BuildEnv_InrD:
  assumes "BuildEnv compile pol base add = Inr pairs"
  shows "pairs = sort (map envPair (env_allowed compile pol base add))"
    and "re_MaxKeys pol > 0 \<Longrightarrow> int (length pairs) \<le> re_MaxKeys pol"
    and "re_MaxBytes pol > 0 \<Longrightarrow> int (envBytes pairs) \<le> re_MaxBytes pol"
  using assms by (auto simp: BuildEnv_def Let_def split: if_splits)

text \<open>C19: when \<^verbatim>\<open>BuildEnv\<close> returns an environment it is sorted and consists of exactly the variables the
  specification gives a value: injected \<^verbatim>\<open>AGENTSH_\<close> variables, and the variables the policy allows with
  the injected value or else the last non-empty value of the base environment. A denied variable, or a
  default secret when there is no allow list, is therefore absent unless it is an injected internal
  variable. The limits \<^verbatim>\<open>max_keys\<close> and \<^verbatim>\<open>max_bytes\<close> hold of the result.\<close>

theorem BuildEnv_functional:
  assumes "distinct (map fst addKeys)"
    and "BuildEnv compile pol baseEnv addKeys = Inr pairs"
  shows "sorted pairs \<and>
    set pairs = envPair ` {(k, v). env_spec compile pol baseEnv addKeys k = Some v} \<and>
    (re_MaxKeys pol > 0 \<longrightarrow> int (length pairs) \<le> re_MaxKeys pol) \<and>
    (re_MaxBytes pol > 0 \<longrightarrow> int (envBytes pairs) \<le> re_MaxBytes pol)"
  using BuildEnv_InrD [OF assms(2)] set_env_allowed [OF assms(1), of compile pol baseEnv] by simp_all

text \<open>the result of \<^verbatim>\<open>BuildEnv\<close> does not depend on the order in which Go iterates over the map
  \<^verbatim>\<open>addKeys\<close>: any two listings of the same map give the same environment or the same error.\<close>

lemma BuildEnv_order_irrelevant:
  assumes "distinct (map fst addKeys)" and "mset addKeys = mset addKeys'"
  shows "BuildEnv compile pol baseEnv addKeys = BuildEnv compile pol baseEnv addKeys'"
proof -
  have "sort (map envPair (env_allowed compile pol baseEnv addKeys)) =
        sort (map envPair (env_allowed compile pol baseEnv addKeys'))"
    using mset_env_allowed [OF assms, of compile pol baseEnv]
    by (intro properties_for_sort) simp_all
  then show ?thesis by (simp add: BuildEnv_def)
qed

section \<open>What variable expansion returns\<close>

datatype segment = Lit string | Ref string "string option"

fun segment_ok :: "segment \<Rightarrow> bool" where
  "segment_ok (Lit t) \<longleftrightarrow> CHR ''$'' \<notin> set t"
| "segment_ok (Ref n f) \<longleftrightarrow> n \<noteq> [] \<and> is_var_start (hd n) \<and> list_all is_var_byte n \<and>
     (case f of None \<Rightarrow> True | Some d \<Rightarrow> CHR ''}'' \<notin> set d)"

fun segment_text :: "segment \<Rightarrow> string" where
  "segment_text (Lit t) = t"
| "segment_text (Ref n None) = ''${'' @ n @ ''}''"
| "segment_text (Ref n (Some d)) = ''${'' @ n @ '':-'' @ d @ ''}''"

fun expand_segments :: "(string \<rightharpoonup> string) \<Rightarrow> (string \<Rightarrow> string) \<Rightarrow> segment list \<Rightarrow> string + string" where
  "expand_segments vars getenv [] = Inr []"
| "expand_segments vars getenv (Lit t # segs) = map_sum id (\<lambda>r. t @ r) (expand_segments vars getenv segs)"
| "expand_segments vars getenv (Ref n f # segs) =
     (case lookupVar vars getenv n f of
        None \<Rightarrow> Inl n
      | Some v \<Rightarrow> map_sum id (\<lambda>r. v @ r) (expand_segments vars getenv segs))"

lemma varPattern_no_dollar: "x \<noteq> CHR ''$'' \<Longrightarrow> varPattern (x # s) = None"
  by (cases "x # s" rule: varPattern.cases) auto

lemma takeWhile_until: "list_all P n \<Longrightarrow> \<not> P x \<Longrightarrow>
    takeWhile P (n @ x # r) = n \<and> dropWhile P (n @ x # r) = x # r"
  by (induction n) auto

lemma var_byte_stops: "\<not> is_var_byte (CHR ''}'')" "\<not> is_var_byte (CHR '':'')"
  by (simp_all add: is_var_byte_def is_letter_def is_digit_def is_lower_def is_upper_def)

lemma varPattern_Ref:
  assumes "segment_ok (Ref n f)"
  shows "varPattern (segment_text (Ref n f) @ r) = Some (n, f, r)"
proof -
  obtain c m where n: "n = c # m" using assms by (cases n) auto
  have m: "list_all is_var_byte m" using assms n by simp
  show ?thesis
  proof (cases f)
    case None
    then show ?thesis
      using assms n takeWhile_until [OF m, of "CHR ''}''"] var_byte_stops by simp
  next
    case (Some d)
    then have d: "list_all (\<lambda>x. x \<noteq> CHR ''}'') d" using assms by (auto simp: list_all_iff)
    show ?thesis
      using Some assms n takeWhile_until [OF m, of "CHR '':''"] var_byte_stops
        takeWhile_until [OF d, of "CHR ''}''"] by (simp add: HasPrefix_def)
  qed
qed

lemma ExpandVariables_Lit:
  "CHR ''$'' \<notin> set t \<Longrightarrow>
   ExpandVariables vars getenv (t @ r) = map_sum id (\<lambda>u. t @ u) (ExpandVariables vars getenv r)"
  by (induction t; cases "ExpandVariables vars getenv r") (auto simp: varPattern_no_dollar)

lemma ExpandVariables_Ref:
  assumes "segment_ok (Ref n f)"
  shows "ExpandVariables vars getenv (segment_text (Ref n f) @ r) =
    (case lookupVar vars getenv n f of
       None \<Rightarrow> Inl n
     | Some v \<Rightarrow> map_sum id (\<lambda>u. v @ u) (ExpandVariables vars getenv r))"
proof -
  obtain x s where x: "segment_text (Ref n f) @ r = x # s" by (cases f) auto
  show ?thesis
    using varPattern_Ref [OF assms, of r] unfolding x by simp
qed

text \<open>on a template made of literal text and of \<^verbatim>\<open>${NAME}\<close> and \<^verbatim>\<open>${NAME:-fallback}\<close> references,
  \<^verbatim>\<open>ExpandVariables\<close> replaces each reference by the policy variable, else the non-empty environment
  variable, else the fallback, never expanding a substituted value again, and fails with the first
  reference that has no value.\<close>

lemma ExpandVariables_segments:
  assumes "list_all segment_ok segs"
  shows "ExpandVariables vars getenv (concat (map segment_text segs)) = expand_segments vars getenv segs"
  using assms
proof (induction segs)
  case (Cons g segs)
  then show ?case
    by (cases g) (auto simp add: ExpandVariables_Lit ExpandVariables_Ref simp del: segment_text.simps(2,3) segment_ok.simps(2) split: option.split)
qed simp

theorem BuildEnv_functional_witness:
  "BuildEnv (\<lambda>p. Some (HasPrefix p)) \<lparr>re_Allow = [], re_Deny = [''TOK''], re_MaxBytes = 100, re_MaxKeys = 3, re_BlockIteration = False\<rparr>
     [''PATH=/bin'', ''LD_PRELOAD=x'', ''TOK=1'', ''PATH=/usr''] [(''AGENTSH_X'', ''1'')]
     = Inr [''AGENTSH_X=1'', ''PATH=/usr'']
   \<and> set [''AGENTSH_X=1'', ''PATH=/usr''] = envPair ` {(k, v). env_spec (\<lambda>p. Some (HasPrefix p))
      \<lparr>re_Allow = [], re_Deny = [''TOK''], re_MaxBytes = 100, re_MaxKeys = 3, re_BlockIteration = False\<rparr>
      [''PATH=/bin'', ''LD_PRELOAD=x'', ''TOK=1'', ''PATH=/usr''] [(''AGENTSH_X'', ''1'')] k = Some v}"
proof -
  have h: "BuildEnv (\<lambda>p. Some (HasPrefix p)) \<lparr>re_Allow = [], re_Deny = [''TOK''], re_MaxBytes = 100, re_MaxKeys = 3, re_BlockIteration = False\<rparr>
     [''PATH=/bin'', ''LD_PRELOAD=x'', ''TOK=1'', ''PATH=/usr''] [(''AGENTSH_X'', ''1'')]
     = Inr [''AGENTSH_X=1'', ''PATH=/usr'']" by code_simp
  show ?thesis using h BuildEnv_functional [OF _ h] by simp
qed

lemma BuildEnv_order_irrelevant_witness:
  "BuildEnv (\<lambda>p. None) \<lparr>re_Allow = [''A'', ''B''], re_Deny = [], re_MaxBytes = 0, re_MaxKeys = 1, re_BlockIteration = False\<rparr>
     [] [(''A'', ''1''), (''B'', ''2'')] =
   BuildEnv (\<lambda>p. None) \<lparr>re_Allow = [''A'', ''B''], re_Deny = [], re_MaxBytes = 0, re_MaxKeys = 1, re_BlockIteration = False\<rparr>
     [] [(''B'', ''2''), (''A'', ''1'')]"
  by (rule BuildEnv_order_irrelevant) simp_all

lemma ExpandVariables_segments_witness:
  "ExpandVariables [''A'' \<mapsto> ''${B}''] (\<lambda>_. []) ''x/${A}/${C:-d}'' = Inr ''x/${B}/d''"
proof -
  have "list_all segment_ok [Lit ''x/'', Ref ''A'' None, Lit ''/'', Ref ''C'' (Some ''d'')]"
    by code_simp
  from ExpandVariables_segments [OF this, of "[''A'' \<mapsto> ''${B}'']" "\<lambda>_. []"] show ?thesis
    by (simp add: lookupVar_def)
qed

end
