(* ===== verification/SignalPolicy.thy ===== *)
theory SignalPolicy
  imports PolicyTypes
begin

text \<open>
  \<^verbatim>\<open>internal/signal\<close>: signal names and groups (types.go), target specifications (target.go), the rule
  engine (engine.go), the registry of the processes of a session (registry.go), the handler
  (handler.go), the decoding of intercepted system calls (seccomp_linux.go) and the reply the supervisor
  gives to the kernel (\<^verbatim>\<open>internal/api/signal_handler_linux.go\<close>). Signal and system-call numbers are those of
  Linux on amd64. The registry's mutex makes each method atomic; a method is a function on the registry.
\<close>

section \<open>Signal names\<close>

definition signalNames :: "(string \<times> int) list" where
  "signalNames =
    [(''SIGHUP'', 1), (''SIGINT'', 2), (''SIGQUIT'', 3), (''SIGILL'', 4), (''SIGTRAP'', 5),
     (''SIGABRT'', 6), (''SIGBUS'', 7), (''SIGFPE'', 8), (''SIGKILL'', 9), (''SIGUSR1'', 10),
     (''SIGSEGV'', 11), (''SIGUSR2'', 12), (''SIGPIPE'', 13), (''SIGALRM'', 14), (''SIGTERM'', 15),
     (''SIGCHLD'', 17), (''SIGCONT'', 18), (''SIGSTOP'', 19), (''SIGTSTP'', 20), (''SIGTTIN'', 21),
     (''SIGTTOU'', 22), (''SIGURG'', 23), (''SIGXCPU'', 24), (''SIGXFSZ'', 25), (''SIGVTALRM'', 26),
     (''SIGPROF'', 27), (''SIGWINCH'', 28), (''SIGIO'', 29), (''SIGSYS'', 31)]"

definition AllSignals :: "int list" where
  "AllSignals = map (\<lambda>i. int i + 1) [0..<31]"

definition signalGroups :: "(string \<times> int list) list" where
  "signalGroups =
    [(''@fatal'', [9, 15, 3, 6]), (''@job'', [19, 18, 20, 21, 22]), (''@reload'', [1, 10, 12]),
     (''@ignore'', [17, 23, 28]), (''@all'', AllSignals)]"

datatype signal_error =
    SignalOutOfRange int
  | UnknownSignal string
  | UnknownGroup string
  | InvalidTargetType string
  | InvalidProcessPattern string
  | PidRangeNotPositive
  | PidRangeInverted int int

definition SignalFromString :: "string \<Rightarrow> signal_error + int" where
  "SignalFromString s0 =
     (let s = TrimSpace (ToUpper s0) in
      case Atoi s of
        Some num \<Rightarrow> if num > 0 \<and> num < 64 then Inr num else Inl (SignalOutOfRange num)
      | None \<Rightarrow>
          (case map_of signalNames s of
             Some sig \<Rightarrow> Inr sig
           | None \<Rightarrow>
               if \<not> HasPrefix s ''SIG'' then
                 (case map_of signalNames (''SIG'' @ s) of
                    Some sig \<Rightarrow> Inr sig
                  | None \<Rightarrow> Inl (UnknownSignal s))
               else Inl (UnknownSignal s)))"

definition SignalName :: "int \<Rightarrow> string" where
  "SignalName sig = (case List.find (\<lambda>(name, num). num = sig) signalNames of
      Some (name, _) \<Rightarrow> name
    | None \<Rightarrow> ''SIG'' @ Itoa sig)"

definition ExpandSignalGroup :: "string \<Rightarrow> signal_error + int list" where
  "ExpandSignalGroup group0 =
     (let group = ToLower (TrimSpace group0) in
      case map_of signalGroups group of
        Some signals \<Rightarrow> Inr signals
      | None \<Rightarrow> Inl (UnknownGroup group))"

definition IsSignalGroup :: "string \<Rightarrow> bool" where
  "IsSignalGroup s = HasPrefix (TrimSpace s) ''@''"

section \<open>Targets\<close>

datatype TargetType =
    TargetSelf | TargetChildren | TargetDescendants | TargetSiblings | TargetSession | TargetParent
  | TargetExternal | TargetSystem | TargetUser | TargetProcess | TargetPIDRange

definition validTargetTypes :: "(string \<times> TargetType) list" where
  "validTargetTypes =
    [(''self'', TargetSelf), (''children'', TargetChildren), (''descendants'', TargetDescendants),
     (''siblings'', TargetSiblings), (''session'', TargetSession), (''parent'', TargetParent),
     (''external'', TargetExternal), (''system'', TargetSystem), (''user'', TargetUser),
     (''process'', TargetProcess), (''pid_range'', TargetPIDRange)]"

record ParsedTarget =
  pt_Type :: TargetType
  pt_ProcessGlob :: "pattern option"
  pt_PIDMin :: int
  pt_PIDMax :: int

definition ParseTargetSpec :: "golib \<Rightarrow> SignalTargetSpec \<Rightarrow> signal_error + ParsedTarget" where
  "ParseTargetSpec lib spec =
     (case map_of validTargetTypes (ToLower (TrimSpace (ts_Type spec))) of
        None \<Rightarrow> Inl (InvalidTargetType (ts_Type spec))
      | Some targetType \<Rightarrow>
          sum_bind
            (if targetType = TargetProcess \<and> ts_Pattern spec \<noteq> [] then
               (case glob_Compile lib (ts_Pattern spec) [] of
                  None \<Rightarrow> Inl (InvalidProcessPattern (ts_Pattern spec))
                | Some g \<Rightarrow> Inr (Some g))
             else Inr None)
            (\<lambda>processGlob.
               if targetType = TargetPIDRange \<and> (ts_Min spec \<le> 0 \<or> ts_Max spec \<le> 0) then Inl PidRangeNotPositive
               else if targetType = TargetPIDRange \<and> ts_Min spec > ts_Max spec
                 then Inl (PidRangeInverted (ts_Min spec) (ts_Max spec))
               else Inr \<lparr>pt_Type = targetType, pt_ProcessGlob = processGlob,
                         pt_PIDMin = ts_Min spec, pt_PIDMax = ts_Max spec\<rparr>))"

record TargetContext =
  tc_SourcePID :: int
  tc_TargetPID :: int
  tc_TargetCmd :: string
  tc_IsChild :: bool
  tc_IsDescendant :: bool
  tc_IsSibling :: bool
  tc_IsParent :: bool
  tc_InSession :: bool
  tc_SameUser :: bool

definition target_Matches :: "ParsedTarget \<Rightarrow> TargetContext \<Rightarrow> bool" where
  "target_Matches t ctx =
     (case pt_Type t of
        TargetSelf \<Rightarrow> tc_TargetPID ctx = tc_SourcePID ctx
      | TargetChildren \<Rightarrow> tc_IsChild ctx
      | TargetDescendants \<Rightarrow> tc_IsDescendant ctx
      | TargetSiblings \<Rightarrow> tc_IsSibling ctx
      | TargetSession \<Rightarrow> tc_InSession ctx
      | TargetParent \<Rightarrow> tc_IsParent ctx
      | TargetExternal \<Rightarrow> \<not> tc_InSession ctx
      | TargetSystem \<Rightarrow> tc_TargetPID ctx = 1 \<or> tc_TargetPID ctx = 2
      | TargetUser \<Rightarrow> tc_SameUser ctx \<and> \<not> tc_InSession ctx
      | TargetProcess \<Rightarrow> (case pt_ProcessGlob t of None \<Rightarrow> False | Some g \<Rightarrow> g (tc_TargetCmd ctx))
      | TargetPIDRange \<Rightarrow> tc_TargetPID ctx \<ge> pt_PIDMin t \<and> tc_TargetPID ctx \<le> pt_PIDMax t)"

section \<open>The rule engine\<close>

datatype DecisionAction =
  ActAllow | ActDeny | ActAudit | ActApprove | ActRedirect | ActAbsorb | ActOther string

definition to_DecisionAction :: "string \<Rightarrow> DecisionAction" where
  "to_DecisionAction s =
     (if s = ''allow'' then ActAllow else if s = ''deny'' then ActDeny
      else if s = ''audit'' then ActAudit else if s = ''approve'' then ActApprove
      else if s = ''redirect'' then ActRedirect else if s = ''absorb'' then ActAbsorb
      else ActOther s)"

record signal_Decision =
  sd_Action :: DecisionAction
  sd_Rule :: string
  sd_Message :: string
  sd_RedirectSignal :: int
  sd_Fallback :: string

record compiledSignalRule =
  cs_rule :: SignalRule
  cs_signals :: "int set"
  cs_target :: ParsedTarget
  cs_redirect :: int

fun expandSignals :: "string list \<Rightarrow> int set \<Rightarrow> signal_error + int set" where
  "expandSignals [] signals = Inr signals"
| "expandSignals (sigSpec # specs) signals =
     (if IsSignalGroup sigSpec then
        (case ExpandSignalGroup sigSpec of
           Inl e \<Rightarrow> Inl e
         | Inr expanded \<Rightarrow> expandSignals specs (signals \<union> set expanded))
      else
        (case SignalFromString sigSpec of
           Inl e \<Rightarrow> Inl e
         | Inr sig \<Rightarrow> expandSignals specs (insert sig signals)))"

definition compileSignalRule :: "golib \<Rightarrow> SignalRule \<Rightarrow> signal_error + compiledSignalRule" where
  "compileSignalRule lib rule =
     sum_bind (expandSignals (sr_Signals rule) {}) (\<lambda>signals.
     sum_bind (ParseTargetSpec lib (sr_Target rule)) (\<lambda>target.
     sum_bind (if sr_Decision rule = ''redirect'' \<and> sr_RedirectTo rule \<noteq> []
               then SignalFromString (sr_RedirectTo rule) else Inr 0) (\<lambda>redirect.
     Inr \<lparr>cs_rule = rule, cs_signals = signals, cs_target = target, cs_redirect = redirect\<rparr>)))"

type_synonym signal_Engine = "compiledSignalRule list"

definition signal_NewEngine :: "golib \<Rightarrow> SignalRule list \<Rightarrow> signal_error + signal_Engine" where
  "signal_NewEngine lib rules = sum_mapM (compileSignalRule lib) rules"

text \<open>\<^verbatim>\<open>compileSignalRules\<close> of the policy engine: no engine at all without rules. The conversion between the
  two rule structs copies every field, and both are the same record here.\<close>

definition compileSignalRules :: "golib \<Rightarrow> SignalRule list \<Rightarrow> signal_error + signal_Engine option" where
  "compileSignalRules lib rules =
     (if rules = [] then Inr None else sum_bind (signal_NewEngine lib rules) (\<lambda>e. Inr (Some e)))"

fun signal_Check :: "signal_Engine \<Rightarrow> int \<Rightarrow> TargetContext \<Rightarrow> signal_Decision" where
  "signal_Check [] sig ctx =
     \<lparr>sd_Action = ActDeny, sd_Rule = [], sd_Message = ''no matching rule'', sd_RedirectSignal = 0, sd_Fallback = []\<rparr>"
| "signal_Check (rule # rules) sig ctx =
     (if sig \<notin> cs_signals rule then signal_Check rules sig ctx
      else if \<not> target_Matches (cs_target rule) ctx then signal_Check rules sig ctx
      else \<lparr>sd_Action = to_DecisionAction (sr_Decision (cs_rule rule)),
            sd_Rule = sr_Name (cs_rule rule), sd_Message = sr_Message (cs_rule rule),
            sd_RedirectSignal = cs_redirect rule, sd_Fallback = sr_Fallback (cs_rule rule)\<rparr>)"

definition needsBlock :: "DecisionAction \<Rightarrow> bool" where
  "needsBlock a \<longleftrightarrow> a = ActDeny \<or> a = ActApprove \<or> a = ActRedirect \<or> a = ActAbsorb"

definition ApplyFallback :: "signal_Decision \<Rightarrow> bool \<Rightarrow> signal_Decision" where
  "ApplyFallback dec canBlock =
     (if canBlock then dec
      else if \<not> needsBlock (sd_Action dec) then dec
      else if sd_Fallback dec \<noteq> [] then
        \<lparr>sd_Action = to_DecisionAction (sd_Fallback dec), sd_Rule = sd_Rule dec,
         sd_Message = sd_Message dec @ '' (fallback applied)'',
         sd_RedirectSignal = sd_RedirectSignal dec, sd_Fallback = sd_Fallback dec\<rparr>
      else
        \<lparr>sd_Action = ActAudit, sd_Rule = sd_Rule dec,
         sd_Message = sd_Message dec @ '' (platform cannot enforce)'',
         sd_RedirectSignal = 0, sd_Fallback = sd_Fallback dec\<rparr>)"

section \<open>The process registry\<close>

record PIDRegistry =
  reg_sessionID :: string
  reg_supervisorPID :: int
  reg_supervisorUID :: int
  reg_parents :: "int \<rightharpoonup> int"
  reg_commands :: "int \<rightharpoonup> string"
  reg_children :: "int \<rightharpoonup> int list"
  reg_uids :: "int \<rightharpoonup> int"

definition NewPIDRegistryWithUID :: "string \<Rightarrow> int \<Rightarrow> int \<Rightarrow> PIDRegistry" where
  "NewPIDRegistryWithUID sessionID supervisorPID supervisorUID =
     \<lparr>reg_sessionID = sessionID, reg_supervisorPID = supervisorPID, reg_supervisorUID = supervisorUID,
      reg_parents = Map.empty, reg_commands = Map.empty, reg_children = Map.empty, reg_uids = Map.empty\<rparr>"

definition NewPIDRegistry :: "string \<Rightarrow> int \<Rightarrow> PIDRegistry" where
  "NewPIDRegistry sessionID supervisorPID =
     \<lparr>reg_sessionID = sessionID, reg_supervisorPID = supervisorPID, reg_supervisorUID = -1,
      reg_parents = Map.empty, reg_commands = Map.empty, reg_children = Map.empty, reg_uids = Map.empty\<rparr>"

text \<open>Reading a Go map at a missing key gives the zero value.\<close>

definition map_get0 :: "(int \<rightharpoonup> int) \<Rightarrow> int \<Rightarrow> int" where
  "map_get0 m k = (case m k of Some v \<Rightarrow> v | None \<Rightarrow> 0)"

definition addChild :: "(int \<rightharpoonup> int list) \<Rightarrow> int \<Rightarrow> int \<Rightarrow> (int \<rightharpoonup> int list)" where
  "addChild ch parent pid = ch(parent \<mapsto> (case ch parent of Some cs \<Rightarrow> cs | None \<Rightarrow> []) @ [pid])"

definition reg_Register :: "PIDRegistry \<Rightarrow> int \<Rightarrow> int \<Rightarrow> string \<Rightarrow> PIDRegistry" where
  "reg_Register r pid parentPID command =
     r\<lparr>reg_parents := (reg_parents r)(pid \<mapsto> parentPID),
       reg_commands := (reg_commands r)(pid \<mapsto> command),
       reg_children := addChild (reg_children r) parentPID pid,
       reg_uids := (if reg_supervisorUID r \<ge> 0 then (reg_uids r)(pid \<mapsto> reg_supervisorUID r) else reg_uids r)\<rparr>"

definition reg_RegisterWithUID :: "PIDRegistry \<Rightarrow> int \<Rightarrow> int \<Rightarrow> string \<Rightarrow> int \<Rightarrow> PIDRegistry" where
  "reg_RegisterWithUID r pid parentPID command uid =
     r\<lparr>reg_parents := (reg_parents r)(pid \<mapsto> parentPID),
       reg_commands := (reg_commands r)(pid \<mapsto> command),
       reg_children := addChild (reg_children r) parentPID pid,
       reg_uids := (reg_uids r)(pid \<mapsto> uid)\<rparr>"

definition reg_Unregister :: "PIDRegistry \<Rightarrow> int \<Rightarrow> PIDRegistry" where
  "reg_Unregister r pid =
     (let parentPID = map_get0 (reg_parents r) pid;
          children = (case reg_children r parentPID of
                        Some cs \<Rightarrow> (reg_children r)(parentPID \<mapsto> remove1 pid cs)
                      | None \<Rightarrow> reg_children r)
      in r\<lparr>reg_parents := (reg_parents r)(pid := None),
           reg_commands := (reg_commands r)(pid := None),
           reg_uids := (reg_uids r)(pid := None),
           reg_children := children(pid := None)\<rparr>)"

definition reg_InSession :: "PIDRegistry \<Rightarrow> int \<Rightarrow> bool" where
  "reg_InSession r pid \<longleftrightarrow> (if pid = reg_supervisorPID r then True else reg_parents r pid \<noteq> None)"

text \<open>The ancestor walk may not return; not returning is \<^const>\<open>None\<close>.\<close>

partial_function (option) isDescendantLocked :: "PIDRegistry \<Rightarrow> int \<Rightarrow> int \<Rightarrow> bool option" where
  "isDescendantLocked r ancestorPID current =
     (case reg_parents r current of
        None \<Rightarrow> Some False
      | Some parent \<Rightarrow> if parent = ancestorPID then Some True else isDescendantLocked r ancestorPID parent)"

definition knownUID :: "PIDRegistry \<Rightarrow> int \<Rightarrow> int option" where
  "knownUID r pid =
     (case reg_uids r pid of
        Some uid \<Rightarrow> Some uid
      | None \<Rightarrow> if pid = reg_supervisorPID r \<and> reg_supervisorUID r \<ge> 0 then Some (reg_supervisorUID r) else None)"

definition ClassifyTarget :: "PIDRegistry \<Rightarrow> int \<Rightarrow> int \<Rightarrow> TargetContext option" where
  "ClassifyTarget r sourcePID targetPID =
     (let sameUser = (knownUID r sourcePID \<noteq> None \<and> knownUID r targetPID \<noteq> None \<and>
                      knownUID r sourcePID = knownUID r targetPID);
          ctx = \<lparr>tc_SourcePID = sourcePID, tc_TargetPID = targetPID,
                 tc_TargetCmd = (case reg_commands r targetPID of Some c \<Rightarrow> c | None \<Rightarrow> []),
                 tc_IsChild = False, tc_IsDescendant = False, tc_IsSibling = False, tc_IsParent = False,
                 tc_InSession = reg_InSession r targetPID, tc_SameUser = sameUser\<rparr>
      in if sourcePID = targetPID then Some ctx
         else if targetPID = reg_supervisorPID r then Some (ctx\<lparr>tc_IsParent := True\<rparr>)
         else if map_get0 (reg_parents r) sourcePID = targetPID then Some (ctx\<lparr>tc_IsParent := True\<rparr>)
         else if map_get0 (reg_parents r) targetPID = sourcePID
           then Some (ctx\<lparr>tc_IsChild := True, tc_IsDescendant := True\<rparr>)
         else Option.bind (isDescendantLocked r sourcePID targetPID) (\<lambda>d.
                if d then Some (ctx\<lparr>tc_IsDescendant := True\<rparr>)
                else if map_get0 (reg_parents r) sourcePID = map_get0 (reg_parents r) targetPID \<and>
                        map_get0 (reg_parents r) sourcePID \<noteq> 0
                  then Some (ctx\<lparr>tc_IsSibling := True\<rparr>)
                else Some ctx))"

section \<open>Intercepted system calls\<close>

record ScmpNotifReq =
  rq_Pid :: "32 word"
  rq_Syscall :: int
  rq_Args :: "64 word list"

record SignalContext =
  sc_PID :: int
  sc_Syscall :: int
  sc_TargetPID :: int
  sc_TargetTID :: int
  sc_Signal :: int

definition "SYS_KILL = (62 :: int)"
definition "SYS_TGKILL = (234 :: int)"
definition "SYS_TKILL = (200 :: int)"
definition "SYS_RT_SIGQUEUEINFO = (129 :: int)"
definition "SYS_RT_TGSIGQUEUEINFO = (297 :: int)"

lemmas syscall_numbers = SYS_KILL_def SYS_TGKILL_def SYS_TKILL_def SYS_RT_SIGQUEUEINFO_def SYS_RT_TGSIGQUEUEINFO_def

text \<open>\<^verbatim>\<open>int(x)\<close> of a \<^verbatim>\<open>uint64\<close> reinterprets it as signed; \<^verbatim>\<open>int32(x)\<close> keeps the low half.\<close>

definition ExtractSignalContext :: "ScmpNotifReq \<Rightarrow> SignalContext" where
  "ExtractSignalContext req =
     (let ctx = \<lparr>sc_PID = int (unat (rq_Pid req)), sc_Syscall = rq_Syscall req,
                 sc_TargetPID = 0, sc_TargetTID = 0, sc_Signal = 0\<rparr>;
          arg = (\<lambda>i. sint (rq_Args req ! i))
      in if rq_Syscall req = SYS_KILL then
           ctx\<lparr>sc_TargetPID := sint (ucast (rq_Args req ! 0) :: 32 word), sc_Signal := arg 1\<rparr>
         else if rq_Syscall req = SYS_TGKILL then
           ctx\<lparr>sc_TargetPID := arg 0, sc_TargetTID := arg 1, sc_Signal := arg 2\<rparr>
         else if rq_Syscall req = SYS_TKILL then
           ctx\<lparr>sc_TargetTID := arg 0, sc_TargetPID := arg 0, sc_Signal := arg 1\<rparr>
         else if rq_Syscall req = SYS_RT_SIGQUEUEINFO then
           ctx\<lparr>sc_TargetPID := arg 0, sc_Signal := arg 1\<rparr>
         else if rq_Syscall req = SYS_RT_TGSIGQUEUEINFO then
           ctx\<lparr>sc_TargetPID := arg 0, sc_TargetTID := arg 1, sc_Signal := arg 2\<rparr>
         else ctx)"

section \<open>The handler\<close>

datatype signal_EventType =
  EventSignalSent | EventSignalBlocked | EventSignalRedirected | EventSignalAbsorbed | EventSignalApproved

record signal_event =
  se_Type :: signal_EventType
  se_SourcePID :: int
  se_TargetPID :: int
  se_Signal :: int
  se_SignalName :: string
  se_Syscall :: int
  se_Decision :: DecisionAction
  se_Rule :: string
  se_Message :: "string option"
  se_RedirectTo :: "(int \<times> string) option"
  se_OriginalAction :: "DecisionAction option"

definition emitEvent :: "SignalContext \<Rightarrow> signal_Decision \<Rightarrow> signal_Decision \<Rightarrow> signal_event" where
  "emitEvent sigCtx originalDec finalDec =
     \<lparr>se_Type =
        (case sd_Action finalDec of
           ActAllow \<Rightarrow> EventSignalSent
         | ActAudit \<Rightarrow> EventSignalSent
         | ActDeny \<Rightarrow> EventSignalBlocked
         | ActRedirect \<Rightarrow> EventSignalRedirected
         | ActAbsorb \<Rightarrow> EventSignalAbsorbed
         | ActApprove \<Rightarrow> EventSignalApproved
         | ActOther _ \<Rightarrow> EventSignalBlocked),
      se_SourcePID = sc_PID sigCtx, se_TargetPID = sc_TargetPID sigCtx,
      se_Signal = sc_Signal sigCtx, se_SignalName = SignalName (sc_Signal sigCtx),
      se_Syscall = sc_Syscall sigCtx,
      se_Decision = sd_Action finalDec, se_Rule = sd_Rule finalDec,
      se_Message = (if sd_Message finalDec \<noteq> [] then Some (sd_Message finalDec) else None),
      se_RedirectTo = (if sd_Action finalDec = ActRedirect
                       then Some (sd_RedirectSignal finalDec, SignalName (sd_RedirectSignal finalDec)) else None),
      se_OriginalAction = (if sd_Action originalDec \<noteq> sd_Action finalDec then Some (sd_Action originalDec) else None)\<rparr>"

definition handler_Evaluate :: "signal_Engine \<Rightarrow> PIDRegistry \<Rightarrow> SignalContext \<Rightarrow> signal_Decision option" where
  "handler_Evaluate engine registry sigCtx =
     map_option (signal_Check engine (sc_Signal sigCtx))
       (ClassifyTarget registry (sc_PID sigCtx) (sc_TargetPID sigCtx))"

definition handler_Handle :: "signal_Engine \<Rightarrow> PIDRegistry \<Rightarrow> bool \<Rightarrow> SignalContext \<Rightarrow>
    (signal_Decision \<times> signal_event) option" where
  "handler_Handle engine registry canBlock sigCtx =
     map_option (\<lambda>dec. let finalDec = ApplyFallback dec canBlock in (finalDec, emitEvent sigCtx dec finalDec))
       (handler_Evaluate engine registry sigCtx)"

datatype notify_response = RespContinue | RespError int

definition signal_response :: "signal_Decision \<Rightarrow> notify_response" where
  "signal_response dec =
     (let allow = (sd_Action dec = ActAllow \<or> sd_Action dec = ActAudit \<or> sd_Action dec = ActAbsorb);
          errno = (if \<not> allow then 1 else 0)
      in if allow then RespContinue else RespError (- errno))"

definition serveSignal :: "signal_Engine \<Rightarrow> PIDRegistry \<Rightarrow> bool \<Rightarrow> ScmpNotifReq \<Rightarrow>
    (notify_response \<times> signal_event) option" where
  "serveSignal engine registry canBlock req =
     map_option (map_prod signal_response id)
       (handler_Handle engine registry canBlock (ExtractSignalContext req))"

section \<open>The first matching rule decides\<close>

definition signal_rule_matches :: "compiledSignalRule \<Rightarrow> int \<times> TargetContext \<Rightarrow> bool" where
  "signal_rule_matches r q \<longleftrightarrow> fst q \<in> cs_signals r \<and> target_Matches (cs_target r) (snd q)"

definition signal_rule_decision :: "compiledSignalRule \<Rightarrow> signal_Decision" where
  "signal_rule_decision r =
     \<lparr>sd_Action = to_DecisionAction (sr_Decision (cs_rule r)), sd_Rule = sr_Name (cs_rule r),
      sd_Message = sr_Message (cs_rule r), sd_RedirectSignal = cs_redirect r,
      sd_Fallback = sr_Fallback (cs_rule r)\<rparr>"

definition signal_default :: signal_Decision where
  "signal_default =
     \<lparr>sd_Action = ActDeny, sd_Rule = [], sd_Message = ''no matching rule'', sd_RedirectSignal = 0, sd_Fallback = []\<rparr>"

interpretation sigeng: first_match signal_rule_matches "\<lambda>r q. signal_rule_decision r" "\<lambda>q. signal_default"
    "\<lambda>rules q. signal_Check rules (fst q) (snd q)"
  by unfold_locales (auto simp: signal_rule_matches_def signal_rule_decision_def signal_default_def)

section \<open>Compiled rules hold signal numbers between 1 and 63\<close>

lemma signalNames_range: "map_of signalNames s = Some n \<Longrightarrow> n \<in> {1..<64}"
  by (drule map_of_SomeD) (auto simp: signalNames_def)

lemma signalGroups_range: "map_of signalGroups s = Some ns \<Longrightarrow> set ns \<subseteq> {1..<64}"
  by (drule map_of_SomeD) (auto simp: signalGroups_def AllSignals_def)

lemma SignalFromString_range: "SignalFromString s = Inr n \<Longrightarrow> n \<in> {1..<64}"
  by (auto simp: SignalFromString_def Let_def split: option.splits if_splits dest!: signalNames_range)

lemma ExpandSignalGroup_range: "ExpandSignalGroup s = Inr ns \<Longrightarrow> set ns \<subseteq> {1..<64}"
  by (auto simp: ExpandSignalGroup_def Let_def split: option.splits dest: signalGroups_range)

lemma expandSignals_range: "expandSignals specs acc = Inr S \<Longrightarrow> acc \<subseteq> {1..<64} \<Longrightarrow> S \<subseteq> {1..<64}"
proof (induction specs arbitrary: acc)
  case (Cons sp specs)
  show ?case
  proof (cases "IsSignalGroup sp")
    case True
    then show ?thesis
      using Cons.prems Cons.IH ExpandSignalGroup_range [of sp]
      by (auto split: sum.splits simp del: atLeastLessThan_iff)
  next
    case False
    then show ?thesis
      using Cons.prems Cons.IH SignalFromString_range [of sp]
      by (auto split: sum.splits simp del: atLeastLessThan_iff)
  qed
qed simp

lemma compileSignalRule_range: "compileSignalRule lib r = Inr c \<Longrightarrow> cs_signals c \<subseteq> {1..<64}"
  by (auto simp: compileSignalRule_def sum_bind_Inr_iff simp del: atLeastLessThan_iff dest!: expandSignals_range)

lemma compileSignalRule_rule: "compileSignalRule lib r = Inr c \<Longrightarrow> cs_rule c = r"
  by (auto simp: compileSignalRule_def sum_bind_Inr_iff)

section \<open>The ancestor walk\<close>

definition parent_rel :: "PIDRegistry \<Rightarrow> (int \<times> int) set" where
  "parent_rel r = {(p, c). reg_parents r c = Some p}"

lemma parent_rel_last: "reg_parents r c = Some p \<Longrightarrow> (a, c) \<in> (parent_rel r)\<^sup>+ \<longleftrightarrow> a = p \<or> (a, p) \<in> (parent_rel r)\<^sup>+"
  by (subst trancl_unfold) (auto simp: parent_rel_def relcomp_unfold)

lemma parent_rel_root: "reg_parents r c = None \<Longrightarrow> (a, c) \<notin> (parent_rel r)\<^sup>+"
  by (auto simp: parent_rel_def dest: tranclD2)

lemma isDescendantLocked_correct:
  assumes "wf (parent_rel r)"
  shows "isDescendantLocked r a c = Some ((a, c) \<in> (parent_rel r)\<^sup>+)"
proof (induction c rule: wf_induct_rule [OF assms])
  case (1 c)
  show ?case
  proof (cases "reg_parents r c")
    case None
    then show ?thesis by (subst isDescendantLocked.simps) (simp add: parent_rel_root)
  next
    case (Some p)
    then have "(p, c) \<in> parent_rel r" by (simp add: parent_rel_def)
    from 1 [OF this] Some show ?thesis
      by (subst isDescendantLocked.simps) (auto simp: parent_rel_last)
  qed
qed

lemma isDescendantLocked_stuck:
  assumes "isDescendantLocked r a c = Some b"
  shows "\<not> (c \<in> C \<and> (\<forall>x \<in> C. \<exists>p \<in> C. reg_parents r x = Some p \<and> p \<noteq> a))"
proof (induction rule: isDescendantLocked.raw_induct [OF _ assms])
  case (1 f r a c b)
  then show ?case
    by (auto split: option.splits if_splits) (metis option.inject option.distinct(1))+
qed

lemma finite_parent_rel: "finite (dom (reg_parents r)) \<Longrightarrow> finite (parent_rel r)"
proof -
  assume "finite (dom (reg_parents r))"
  moreover have "parent_rel r \<subseteq> (\<lambda>c. (the (reg_parents r c), c)) ` dom (reg_parents r)"
    by (force simp: parent_rel_def)
  ultimately show ?thesis by (blast intro: finite_subset)
qed

section \<open>Registries built with fresh process ids\<close>

datatype registry_op =
    OpRegister int int string
  | OpRegisterWithUID int int string int
  | OpUnregister int

fun registry_step :: "PIDRegistry \<Rightarrow> registry_op \<Rightarrow> PIDRegistry" where
  "registry_step r (OpRegister pid parent command) = reg_Register r pid parent command"
| "registry_step r (OpRegisterWithUID pid parent command uid) = reg_RegisterWithUID r pid parent command uid"
| "registry_step r (OpUnregister pid) = reg_Unregister r pid"

text \<open>A process id is fresh when no registered process has it, none has it as its parent, and it is not
  its own parent.\<close>

definition fresh_pid :: "PIDRegistry \<Rightarrow> int \<Rightarrow> int \<Rightarrow> bool" where
  "fresh_pid r pid parent \<longleftrightarrow> pid \<noteq> parent \<and> reg_parents r pid = None \<and> pid \<notin> ran (reg_parents r)"

fun registry_enabled :: "PIDRegistry \<Rightarrow> registry_op \<Rightarrow> bool" where
  "registry_enabled r (OpRegister pid parent command) = fresh_pid r pid parent"
| "registry_enabled r (OpRegisterWithUID pid parent command uid) = fresh_pid r pid parent"
| "registry_enabled r (OpUnregister pid) = True"

definition registry_invar :: "PIDRegistry \<Rightarrow> bool" where
  "registry_invar r \<longleftrightarrow>
     finite (dom (reg_parents r)) \<and> acyclic (parent_rel r) \<and>
     dom (reg_commands r) = dom (reg_parents r) \<and> dom (reg_uids r) \<subseteq> dom (reg_parents r) \<and>
     (\<forall>p cs. reg_children r p = Some cs \<longrightarrow> distinct cs \<and> (\<forall>c \<in> set cs. reg_parents r c = Some p))"

lemma acyclic_fresh:
  assumes "acyclic (parent_rel r)" "fresh_pid r pid parent" "reg_parents r' = (reg_parents r)(pid \<mapsto> parent)"
  shows "acyclic (parent_rel r')"
proof -
  have eq: "parent_rel r' = insert (parent, pid) (parent_rel r)"
    using assms(2,3) by (auto simp: parent_rel_def fresh_pid_def)
  have "(pid, parent) \<notin> (parent_rel r)\<^sup>*"
  proof
    assume "(pid, parent) \<in> (parent_rel r)\<^sup>*"
    then obtain z where "(pid, z) \<in> parent_rel r"
      using assms(2) by (metis converse_rtranclE fresh_pid_def)
    then show False
      using assms(2) by (auto simp: parent_rel_def fresh_pid_def ran_def)
  qed
  then show ?thesis using assms(1) by (simp add: eq acyclic_insert)
qed

lemma registry_invar_register:
  assumes "registry_invar r" "fresh_pid r pid parent"
    and "reg_parents r' = (reg_parents r)(pid \<mapsto> parent)" "reg_commands r' = (reg_commands r)(pid \<mapsto> command)"
    and "reg_children r' = addChild (reg_children r) parent pid"
    and "dom (reg_uids r') \<subseteq> insert pid (dom (reg_uids r))"
  shows "registry_invar r'"
  using assms acyclic_fresh [OF _ assms(2,3)]
  unfolding registry_invar_def addChild_def fresh_pid_def
  by (auto split: option.splits if_splits) blast+

lemma registry_invar_unregister:
  assumes "registry_invar r"
  shows "registry_invar (reg_Unregister r pid)"
proof -
  have "parent_rel (reg_Unregister r pid) \<subseteq> parent_rel r"
    by (auto simp: parent_rel_def reg_Unregister_def Let_def split: if_splits)
  then have "acyclic (parent_rel (reg_Unregister r pid))"
    using assms by (auto simp: registry_invar_def intro: acyclic_subset)
  moreover have "distinct cs \<and> (\<forall>c \<in> set cs. reg_parents (reg_Unregister r pid) c = Some p)"
    if "reg_children (reg_Unregister r pid) p = Some cs" for p cs
    using assms that
    unfolding registry_invar_def reg_Unregister_def Let_def map_get0_def
    by (auto split: option.splits if_splits)
  ultimately show ?thesis
    using assms unfolding registry_invar_def reg_Unregister_def Let_def by auto
qed

interpretation registry: transition_system registry_enabled registry_step registry_invar
proof
  fix r op
  assume inv: "registry_invar r" and en: "registry_enabled r op"
  show "registry_invar (registry_step r op)"
  proof (cases op)
    case (OpRegister pid parent command)
    with inv en show ?thesis
      by (auto simp: reg_Register_def intro!: registry_invar_register [OF inv])
  next
    case (OpRegisterWithUID pid parent command uid)
    with inv en show ?thesis
      by (auto simp: reg_RegisterWithUID_def intro!: registry_invar_register [OF inv])
  qed (use inv registry_invar_unregister in auto)
qed

lemma registry_invar_new: "registry_invar (NewPIDRegistryWithUID sid supPID uid)"
  by (simp add: registry_invar_def NewPIDRegistryWithUID_def parent_rel_def acyclic_def)

lemma registry_wf: "registry_invar r \<Longrightarrow> wf (parent_rel r)"
  by (simp add: registry_invar_def finite_acyclic_wf finite_parent_rel)

section \<open>Properties\<close>

lemma NewEngine_nth:
  "signal_NewEngine lib rules = Inr e \<Longrightarrow>
   length e = length rules \<and> (\<forall>i < length rules. compileSignalRule lib (rules ! i) = Inr (e ! i))"
  by (auto simp: signal_NewEngine_def sum_mapM_Inr_iff list_all2_conv_all_nth)

lemma first_index:
  assumes "xs = pre @ x # post" "P x" "\<forall>y \<in> set pre. \<not> P y"
  shows "length pre < length xs \<and> xs ! length pre = x \<and> P (xs ! length pre) \<and> (\<forall>j < length pre. \<not> P (xs ! j))"
  using assms by (auto simp: nth_append)

text \<open>an engine built from a rule list decides by the first rule of the list whose expanded signal set
  contains the signal and whose target matches, with that rule's decision, name, message and fallback;
  when no rule matches, and in particular for a number outside 1 to 63, the decision is deny.\<close>

lemma signal_Check_first_rule:
  assumes "signal_NewEngine lib rules = Inr e"
  shows "(\<exists>i < length rules. signal_rule_matches (e ! i) (sig, ctx)
            \<and> (\<forall>j < i. \<not> signal_rule_matches (e ! j) (sig, ctx))
            \<and> sd_Action (signal_Check e sig ctx) = to_DecisionAction (sr_Decision (rules ! i))
            \<and> sd_Rule (signal_Check e sig ctx) = sr_Name (rules ! i)
            \<and> sd_Message (signal_Check e sig ctx) = sr_Message (rules ! i)
            \<and> sd_Fallback (signal_Check e sig ctx) = sr_Fallback (rules ! i)
            \<and> 0 < sig \<and> sig < 64)
       \<or> (\<forall>i < length rules. \<not> signal_rule_matches (e ! i) (sig, ctx)) \<and> signal_Check e sig ctx = signal_default"
  using sigeng.outcome [of e "(sig, ctx)"]
proof
  note nth = NewEngine_nth [OF assms]
  assume "\<exists>pre r post. e = pre @ r # post \<and> signal_rule_matches r (sig, ctx) \<and>
       (\<forall>p \<in> set pre. \<not> signal_rule_matches p (sig, ctx)) \<and>
       signal_Check e (fst (sig, ctx)) (snd (sig, ctx)) = signal_rule_decision r"
  then obtain pre r post where r: "e = pre @ r # post" "signal_rule_matches r (sig, ctx)"
    "\<forall>p \<in> set pre. \<not> signal_rule_matches p (sig, ctx)" "signal_Check e sig ctx = signal_rule_decision r"
    by auto
  note i = first_index [where P = "\<lambda>r. signal_rule_matches r (sig, ctx)", OF r(1-3)]
  have c: "compileSignalRule lib (rules ! length pre) = Inr r"
    using nth i by metis
  have "sig \<in> {1..<64}"
    using compileSignalRule_range [OF c] r(2) by (auto simp: signal_rule_matches_def)
  with i r(4) nth compileSignalRule_rule [OF c] show ?thesis
    by (intro disjI1 exI [of _ "length pre"]) (auto simp: signal_rule_decision_def)
qed (use NewEngine_nth [OF assms] in \<open>auto simp: all_set_conv_all_nth\<close>)


text \<open>C21: when the platform can block signals, the intercepted call continues only if the first matching
  rule says allow, audit or absorb; deny, approve, redirect, any other decision string and no matching
  rule at all make the call fail with \<^verbatim>\<open>EPERM\<close>.\<close>

theorem serveSignal_fail_closed:
  assumes "serveSignal e r True req = Some (resp, ev)"
  shows "\<exists>ctx. ClassifyTarget r (sc_PID (ExtractSignalContext req)) (sc_TargetPID (ExtractSignalContext req)) = Some ctx \<and>
    (resp = RespContinue \<longleftrightarrow>
      (\<exists>pre c post. e = pre @ c # post \<and> signal_rule_matches c (sc_Signal (ExtractSignalContext req), ctx)
         \<and> (\<forall>p \<in> set pre. \<not> signal_rule_matches p (sc_Signal (ExtractSignalContext req), ctx))
         \<and> sr_Decision (cs_rule c) \<in> {''allow'', ''audit'', ''absorb''})) \<and>
    (resp \<noteq> RespContinue \<longrightarrow> resp = RespError (- 1))"
proof -
  let ?sc = "ExtractSignalContext req"
  obtain ctx where ctx: "ClassifyTarget r (sc_PID ?sc) (sc_TargetPID ?sc) = Some ctx"
    and resp: "resp = signal_response (signal_Check e (sc_Signal ?sc) ctx)"
    using assms by (auto simp: serveSignal_def handler_Handle_def handler_Evaluate_def ApplyFallback_def)
  let ?q = "(sc_Signal ?sc, ctx)"
  have act: "sd_Action (signal_rule_decision c) \<in> {ActAllow, ActAudit, ActAbsorb} \<longleftrightarrow>
      sr_Decision (cs_rule c) \<in> {''allow'', ''audit'', ''absorb''}" for c
    by (auto simp: signal_rule_decision_def to_DecisionAction_def)
  have cont: "resp = RespContinue \<longleftrightarrow> sd_Action (signal_Check e (sc_Signal ?sc) ctx) \<in> {ActAllow, ActAudit, ActAbsorb}"
    by (auto simp: resp signal_response_def Let_def split: if_splits)
  have "resp = RespContinue \<longleftrightarrow> (\<exists>pre c post. e = pre @ c # post \<and> signal_rule_matches c ?q
         \<and> (\<forall>p \<in> set pre. \<not> signal_rule_matches p ?q) \<and> sr_Decision (cs_rule c) \<in> {''allow'', ''audit'', ''absorb''})"
    (is "_ \<longleftrightarrow> ?R")
  proof
    assume "resp = RespContinue"
    then have ok: "sd_Action (signal_Check e (sc_Signal ?sc) ctx) \<in> {ActAllow, ActAudit, ActAbsorb}"
      using cont by simp
    then have "signal_Check e (sc_Signal ?sc) ctx \<noteq> signal_default"
      by (auto simp: signal_default_def)
    then obtain pre c post where c: "e = pre @ c # post" "signal_rule_matches c ?q"
        "\<forall>p \<in> set pre. \<not> signal_rule_matches p ?q" "signal_Check e (sc_Signal ?sc) ctx = signal_rule_decision c"
      using sigeng.outcome [of e ?q] by auto
    from ok c(4) act have "sr_Decision (cs_rule c) \<in> {''allow'', ''audit'', ''absorb''}" by metis
    with c(1-3) show ?R by blast
  next
    assume ?R
    then obtain pre c post where c: "e = pre @ c # post" "signal_rule_matches c ?q"
        "\<forall>p \<in> set pre. \<not> signal_rule_matches p ?q" "sr_Decision (cs_rule c) \<in> {''allow'', ''audit'', ''absorb''}"
      by blast
    from sigeng.first [OF c(3,2), of post] c(1)
    have "signal_Check e (sc_Signal ?sc) ctx = signal_rule_decision c" by simp
    with c(4) act cont show "resp = RespContinue" by metis
  qed
  with ctx show ?thesis by (auto simp: resp signal_response_def Let_def)
qed

text \<open>C24: registering a process as its own parent, which happens when a command leads its own process
  group and the group id is passed as the parent, makes the handler never return on a signal sent to
  that process by any other process that is not its recorded parent.\<close>

theorem self_parent_handler_hangs:
  assumes "sc_TargetPID sigCtx = pid" "sc_PID sigCtx \<noteq> pid" "pid \<noteq> reg_supervisorPID r" "pid \<noteq> 0"
    and "reg_parents r (sc_PID sigCtx) \<noteq> Some pid"
  shows "handler_Handle e (reg_Register r pid pid command) canBlock sigCtx = None"
proof -
  let ?r = "reg_Register r pid pid command"
  have "isDescendantLocked ?r (sc_PID sigCtx) pid \<noteq> Some b" for b
    using isDescendantLocked_stuck [of ?r "sc_PID sigCtx" pid b "{pid}"] assms(2) by (auto simp: reg_Register_def)
  then have "isDescendantLocked ?r (sc_PID sigCtx) pid = None" by auto
  then have "ClassifyTarget ?r (sc_PID sigCtx) pid = None"
    using assms(2-5) by (auto simp: ClassifyTarget_def Let_def map_get0_def reg_Register_def split: option.splits)
  then show ?thesis using assms(1) by (simp add: handler_Handle_def handler_Evaluate_def)
qed

lemma kill_target_low_bits:
  assumes "rq_Syscall req = SYS_KILL" "rq_Syscall req' = SYS_KILL"
    and "(ucast (rq_Args req ! 0) :: 32 word) = ucast (rq_Args req' ! 0)"
  shows "sc_TargetPID (ExtractSignalContext req) = sc_TargetPID (ExtractSignalContext req')"
  using assms by (simp add: ExtractSignalContext_def Let_def)

text \<open>C23: a \<^verbatim>\<open>kill\<close> is classified by the low 32 bits of its target argument, as the kernel reads it, so
  requests the kernel treats alike are classified alike; a \<^verbatim>\<open>tgkill\<close> is classified by all 64 bits, and two
  requests that agree in the low 32 bits always get different targets when their high bits differ.\<close>

theorem signal_target_width:
  assumes "(ucast (rq_Args req ! 0) :: 32 word) = ucast (rq_Args req' ! 0)" "rq_Args req ! 0 \<noteq> rq_Args req' ! 0"
    and "rq_Syscall req' = rq_Syscall req"
  shows "(rq_Syscall req = SYS_KILL \<longrightarrow>
            sc_TargetPID (ExtractSignalContext req) = sc_TargetPID (ExtractSignalContext req'))
    \<and> (rq_Syscall req = SYS_TGKILL \<longrightarrow>
            sc_TargetPID (ExtractSignalContext req) \<noteq> sc_TargetPID (ExtractSignalContext req'))"
  using assms kill_target_low_bits [of req req']
  by (auto simp: ExtractSignalContext_def Let_def syscall_numbers signed_word_eqI)

section \<open>Witnesses\<close>

definition example_rule :: SignalRule where
  "example_rule =
     \<lparr>sr_Name = ''own'', sr_Description = [], sr_Signals = [''@fatal''],
      sr_Target = \<lparr>ts_Type = ''self'', ts_Pattern = [], ts_Min = 0, ts_Max = 0\<rparr>,
      sr_Decision = ''allow'', sr_Fallback = [], sr_RedirectTo = [], sr_Message = [], sr_Timeout = 0\<rparr>"

definition example_compiled :: compiledSignalRule where
  "example_compiled =
     \<lparr>cs_rule = example_rule, cs_signals = {9, 15, 3, 6},
      cs_target = \<lparr>pt_Type = TargetSelf, pt_ProcessGlob = None, pt_PIDMin = 0, pt_PIDMax = 0\<rparr>, cs_redirect = 0\<rparr>"

lemma example_compiles: "signal_NewEngine literal_lib [example_rule] = Inr [example_compiled]"
proof -
  have 1: "expandSignals [''@fatal''] {} = Inr {9, 15, 3, 6}" by code_simp
  have 2: "ToLower (TrimSpace ''self'') = ''self''" by code_simp
  show ?thesis
    using 1 2
    by (simp add: signal_NewEngine_def compileSignalRule_def example_rule_def example_compiled_def
        ParseTargetSpec_def validTargetTypes_def)
qed

lemma signal_Check_first_rule_witness:
  "sd_Action (signal_Check [example_compiled] 9
      \<lparr>tc_SourcePID = 5, tc_TargetPID = 5, tc_TargetCmd = [], tc_IsChild = False, tc_IsDescendant = False,
       tc_IsSibling = False, tc_IsParent = False, tc_InSession = True, tc_SameUser = True\<rparr>) = ActAllow"
  using signal_Check_first_rule [OF example_compiles, of 9
      "\<lparr>tc_SourcePID = 5, tc_TargetPID = 5, tc_TargetCmd = [], tc_IsChild = False, tc_IsDescendant = False,
       tc_IsSibling = False, tc_IsParent = False, tc_InSession = True, tc_SameUser = True\<rparr>"]
  by (auto simp: signal_rule_matches_def example_compiled_def example_rule_def target_Matches_def to_DecisionAction_def)


theorem serveSignal_fail_closed_witness:
  "\<exists>ev. serveSignal [example_compiled] (NewPIDRegistry ''s'' 1) True
      \<lparr>rq_Pid = 5, rq_Syscall = SYS_KILL, rq_Args = [6, 9, 0, 0, 0, 0]\<rparr> = Some (RespError (- 1), ev)"
proof -
  let ?req = "\<lparr>rq_Pid = 5, rq_Syscall = SYS_KILL, rq_Args = [6, 9, 0, 0, 0, 0]\<rparr> :: ScmpNotifReq"
  have ctx: "\<exists>c. ClassifyTarget (NewPIDRegistry ''s'' 1) 5 6 = Some c \<and> tc_SourcePID c = 5 \<and> tc_TargetPID c = 6"
    by (simp add: ClassifyTarget_def Let_def NewPIDRegistry_def map_get0_def isDescendantLocked.simps)
  have sc: "sc_PID (ExtractSignalContext ?req) = 5" "sc_TargetPID (ExtractSignalContext ?req) = 6"
    by (simp_all add: ExtractSignalContext_def Let_def syscall_numbers)
  have "serveSignal [example_compiled] (NewPIDRegistry ''s'' 1) True ?req \<noteq> None"
    using ctx sc by (auto simp: serveSignal_def handler_Handle_def handler_Evaluate_def simp del: signal_Check.simps)
  then obtain resp ev where h: "serveSignal [example_compiled] (NewPIDRegistry ''s'' 1) True ?req = Some (resp, ev)"
    by force
  from serveSignal_fail_closed [OF h] ctx sc have "resp = RespError (- 1)"
    by (auto simp: Cons_eq_append_conv signal_rule_matches_def example_compiled_def target_Matches_def)
  with h show ?thesis by blast
qed

theorem self_parent_handler_hangs_witness:
  "handler_Handle [example_compiled] (reg_Register (NewPIDRegistry ''s'' 1) 40 40 ''make'') True
     \<lparr>sc_PID = 41, sc_Syscall = 62, sc_TargetPID = 40, sc_TargetTID = 0, sc_Signal = 15\<rparr> = None"
  by (rule self_parent_handler_hangs) (simp_all add: NewPIDRegistry_def)

theorem signal_target_width_witness:
  "sc_TargetPID (ExtractSignalContext \<lparr>rq_Pid = 7, rq_Syscall = SYS_TGKILL, rq_Args = [0x100000001, 1, 9, 0, 0, 0]\<rparr>)
   \<noteq> sc_TargetPID (ExtractSignalContext \<lparr>rq_Pid = 7, rq_Syscall = SYS_TGKILL, rq_Args = [1, 1, 9, 0, 0, 0]\<rparr>)"
  using signal_target_width [of "\<lparr>rq_Pid = 7, rq_Syscall = SYS_TGKILL, rq_Args = [0x100000001, 1, 9, 0, 0, 0]\<rparr>"
      "\<lparr>rq_Pid = 7, rq_Syscall = SYS_TGKILL, rq_Args = [1, 1, 9, 0, 0, 0]\<rparr>"]
  by simp

end
