(* ===== verification/HttpServices.thy ===== *)
theory HttpServices
  imports PolicyTypes
begin

text \<open>
  \<^verbatim>\<open>internal/policy/http_service.go\<close> and \<^verbatim>\<open>http_service_compile.go\<close>: canonical host names, validation of the
  declared HTTP services, and their compilation into the lookup tables by name and by host.
\<close>

section \<open>Canonical hosts\<close>

definition count_byte :: "char \<Rightarrow> string \<Rightarrow> nat" where
  "count_byte c s = length (filter (\<lambda>x. x = c) s)"

definition before_last :: "char \<Rightarrow> string \<Rightarrow> string" where
  "before_last c s = rev (tl (dropWhile (\<lambda>x. x \<noteq> c) (rev s)))"

definition canonicalizeHost :: "golib \<Rightarrow> string \<Rightarrow> string option" where
  "canonicalizeHost lib s0 =
     (let s = TrimSpace s0 in
      if s = [] then None
      else if HasPrefix s ''['' then
        (case IndexByte s (CHR '']'') of
           None \<Rightarrow> None
         | Some i \<Rightarrow>
             (let inner = take (i - 1) (tl s); rest = drop (i + 1) s in
              if rest \<noteq> [] \<and> \<not> HasPrefix rest '':'' then None
              else if \<not> ParseAddr6 lib inner then None
              else Some (ToLower inner)))
      else if count_byte (CHR '':'') s \<ge> 2 then None
      else
        (let h = (if CHR '':'' \<in> set s then before_last (CHR '':'') s else s);
             t = TrimSuffix (ToLower h) ''.''
         in if t = [] then None else Some t))"

section \<open>Validation\<close>

datatype http_error =
    NameRequired nat
  | NameInvalid nat string
  | DuplicateName string
  | InvalidUpstream string
  | InsecureUpstream string
  | InvalidUpstreamHost string
  | DuplicateHost string string
  | InvalidAlias string string
  | DuplicateAlias string string
  | InvalidDefault string string
  | InvalidDerivedEnv string string
  | InvalidExposeAs string string
  | ReservedEnv string string
  | DuplicateEnv string string
  | InvalidRuleDecision string nat
  | RuleWithoutPaths string nat
  | EmptyRulePath string nat
  | InvalidRuleGlob string nat
  | EmptyRuleMethod string nat

definition name_byte :: "char \<Rightarrow> bool" where
  "name_byte c \<longleftrightarrow> is_letter c \<or> is_digit c \<or> c = CHR ''.'' \<or> c = CHR ''_'' \<or> c = CHR ''-''"

definition httpServiceNameRe :: "string \<Rightarrow> bool" where
  "httpServiceNameRe s \<longleftrightarrow> s \<noteq> [] \<and> list_all name_byte s"

definition envVarNameRe :: "string \<Rightarrow> bool" where
  "envVarNameRe s \<longleftrightarrow> s \<noteq> [] \<and> (is_letter (hd s) \<or> hd s = CHR ''_'') \<and>
     list_all (\<lambda>c. is_letter c \<or> is_digit c \<or> c = CHR ''_'') s"

definition reservedEnvVarNames :: "string list" where
  "reservedEnvVarNames = [''ANTHROPIC_BASE_URL'', ''OPENAI_BASE_URL'', ''AGENTSH_SESSION_ID'']"

fun validatePaths :: "golib \<Rightarrow> string \<Rightarrow> nat \<Rightarrow> string list \<Rightarrow> http_error option" where
  "validatePaths lib svc idx [] = None"
| "validatePaths lib svc idx (pat # pats) =
     (if TrimSpace pat = [] then Some (EmptyRulePath svc idx)
      else if glob_Compile lib pat ''/'' = None then Some (InvalidRuleGlob svc idx)
      else validatePaths lib svc idx pats)"

definition validateHTTPServiceRule :: "golib \<Rightarrow> string \<Rightarrow> nat \<Rightarrow> HTTPServiceRule \<Rightarrow> http_error option" where
  "validateHTTPServiceRule lib svc idx r =
     (if hr_Decision r \<notin> {''allow'', ''deny'', ''approve'', ''audit''} then Some (InvalidRuleDecision svc idx)
      else if hr_Paths r = [] then Some (RuleWithoutPaths svc idx)
      else
        (case validatePaths lib svc idx (hr_Paths r) of
           Some e \<Rightarrow> Some e
         | None \<Rightarrow>
             if list_ex (\<lambda>m. TrimSpace m = []) (hr_Methods r) then Some (EmptyRuleMethod svc idx) else None))"

fun validateRules :: "golib \<Rightarrow> string \<Rightarrow> nat \<Rightarrow> HTTPServiceRule list \<Rightarrow> http_error option" where
  "validateRules lib svc idx [] = None"
| "validateRules lib svc idx (r # rs) =
     (case validateHTTPServiceRule lib svc idx r of
        Some e \<Rightarrow> Some e
      | None \<Rightarrow> validateRules lib svc (idx + 1) rs)"

fun validateAliases :: "golib \<Rightarrow> string \<Rightarrow> string list \<Rightarrow> (string \<rightharpoonup> string) \<Rightarrow> http_error + (string \<rightharpoonup> string)" where
  "validateAliases lib svc [] hostSeen = Inr hostSeen"
| "validateAliases lib svc (alias # aliases) hostSeen =
     (case canonicalizeHost lib alias of
        None \<Rightarrow> Inl (InvalidAlias svc alias)
      | Some a \<Rightarrow>
          if hostSeen a \<noteq> None then Inl (DuplicateAlias svc a)
          else validateAliases lib svc aliases (hostSeen(a \<mapsto> svc)))"

definition exposedName :: "HTTPService \<Rightarrow> string" where
  "exposedName s = (if h_ExposeAs s = [] then ToUpper (h_Name s) @ ''_API_URL'' else h_ExposeAs s)"

record validate_state =
  vs_names :: "string set"
  vs_hosts :: "string \<rightharpoonup> string"
  vs_envs :: "string \<rightharpoonup> string"

text \<open>One round of the loop of \<^verbatim>\<open>ValidateHTTPServices\<close>. The test-only switch for insecure upstreams is off.\<close>

definition validateService :: "golib \<Rightarrow> nat \<Rightarrow> HTTPService \<Rightarrow> validate_state \<Rightarrow> http_error + validate_state" where
  "validateService lib i s st =
     (if TrimSpace (h_Name s) = [] then Inl (NameRequired i)
      else if \<not> httpServiceNameRe (h_Name s) then Inl (NameInvalid i (h_Name s))
      else if ToLower (h_Name s) \<in> vs_names st then Inl (DuplicateName (h_Name s))
      else
        (case url_Parse lib (h_Upstream s) of
           None \<Rightarrow> Inl (InvalidUpstream (h_Name s))
         | Some (scheme, uhost) \<Rightarrow>
             if uhost = [] then Inl (InvalidUpstream (h_Name s))
             else if scheme \<noteq> ''https'' then Inl (InsecureUpstream (h_Name s))
             else
               (case canonicalizeHost lib uhost of
                  None \<Rightarrow> Inl (InvalidUpstreamHost (h_Name s))
                | Some host \<Rightarrow>
                    if vs_hosts st host \<noteq> None then Inl (DuplicateHost (h_Name s) host)
                    else
                      sum_bind (validateAliases lib (h_Name s) (h_Aliases s) ((vs_hosts st)(host \<mapsto> h_Name s)))
                        (\<lambda>hosts.
                           if h_Default s \<notin> {[], ''allow'', ''deny''} then Inl (InvalidDefault (h_Name s) (h_Default s))
                           else if \<not> envVarNameRe (exposedName s) then
                             Inl (if h_ExposeAs s = [] then InvalidDerivedEnv (h_Name s) (exposedName s)
                                  else InvalidExposeAs (h_Name s) (exposedName s))
                           else if ToUpper (exposedName s) \<in> set reservedEnvVarNames
                             then Inl (ReservedEnv (h_Name s) (exposedName s))
                           else if vs_envs st (ToUpper (exposedName s)) \<noteq> None
                             then Inl (DuplicateEnv (h_Name s) (exposedName s))
                           else
                             (case validateRules lib (h_Name s) 0 (h_Rules s) of
                                Some e \<Rightarrow> Inl e
                              | None \<Rightarrow>
                                  Inr \<lparr>vs_names = insert (ToLower (h_Name s)) (vs_names st),
                                       vs_hosts = hosts,
                                       vs_envs = (vs_envs st)(ToUpper (exposedName s) \<mapsto> h_Name s)\<rparr>)))))"

fun validateLoop :: "golib \<Rightarrow> nat \<Rightarrow> HTTPService list \<Rightarrow> validate_state \<Rightarrow> http_error + validate_state" where
  "validateLoop lib i [] st = Inr st"
| "validateLoop lib i (s # svcs) st = sum_bind (validateService lib i s st) (validateLoop lib (i + 1) svcs)"

definition ValidateHTTPServices :: "golib \<Rightarrow> HTTPService list \<Rightarrow> http_error option" where
  "ValidateHTTPServices lib svcs =
     (case validateLoop lib 0 svcs \<lparr>vs_names = {}, vs_hosts = Map.empty, vs_envs = Map.empty\<rparr> of
        Inl e \<Rightarrow> Some e
      | Inr _ \<Rightarrow> None)"

section \<open>Compilation\<close>

record compiledHTTPServiceRule =
  chr_rule :: HTTPServiceRule
  chr_methods :: "string set"
  chr_paths :: "pattern list"

record compiledHTTPService =
  chs_cfg :: HTTPService
  chs_rules :: "compiledHTTPServiceRule list"
  chs_upstream :: "string \<times> string"
  chs_envVar :: string
  chs_defaultDecision :: string
  chs_upstreamHost :: string

datatype compile_http_error =
    ParseUpstream string
  | CanonicalizeUpstream string
  | CompilePath string string string
  | DuplicateServiceName string
  | DuplicateUpstreamHost string string
  | CanonicalizeAlias string string
  | DuplicateAliasHost string string

definition compileHTTPRule :: "golib \<Rightarrow> string \<Rightarrow> HTTPServiceRule \<Rightarrow> compile_http_error + compiledHTTPServiceRule" where
  "compileHTTPRule lib svc r =
     sum_bind
       (sum_mapM (\<lambda>pat. case glob_Compile lib pat ''/'' of
                          None \<Rightarrow> Inl (CompilePath svc (hr_Name r) pat)
                        | Some g \<Rightarrow> Inr g) (hr_Paths r))
       (\<lambda>globs. Inr \<lparr>chr_rule = r, chr_methods = set (map (\<lambda>m. ToUpper (TrimSpace m)) (hr_Methods r)), chr_paths = globs\<rparr>)"

definition serviceDefault :: "HTTPService \<Rightarrow> string" where
  "serviceDefault s =
     (if h_Default s = [] then (if h_Rules s = [] \<and> h_Secret s \<noteq> None then ''allow'' else ''deny'') else h_Default s)"

type_synonym service_map = "string \<rightharpoonup> compiledHTTPService"

fun compileAliases :: "golib \<Rightarrow> compiledHTTPService \<Rightarrow> string list \<Rightarrow> service_map \<Rightarrow> compile_http_error + service_map" where
  "compileAliases lib cs [] byHost = Inr byHost"
| "compileAliases lib cs (alias # aliases) byHost =
     (case canonicalizeHost lib alias of
        None \<Rightarrow> Inl (CanonicalizeAlias (h_Name (chs_cfg cs)) alias)
      | Some a \<Rightarrow>
          if byHost a \<noteq> None then Inl (DuplicateAliasHost (h_Name (chs_cfg cs)) a)
          else compileAliases lib cs aliases (byHost(a \<mapsto> cs)))"

definition compileService :: "golib \<Rightarrow> HTTPService \<Rightarrow> service_map \<times> service_map \<Rightarrow>
    compile_http_error + service_map \<times> service_map" where
  "compileService lib s maps =
     (let (byName, byHost) = maps in
      case url_Parse lib (h_Upstream s) of
        None \<Rightarrow> Inl (ParseUpstream (h_Name s))
      | Some (scheme, uhost) \<Rightarrow>
          (case canonicalizeHost lib uhost of
             None \<Rightarrow> Inl (CanonicalizeUpstream (h_Name s))
           | Some host \<Rightarrow>
               sum_bind (sum_mapM (compileHTTPRule lib (h_Name s)) (h_Rules s)) (\<lambda>rules.
                 let cs = \<lparr>chs_cfg = s, chs_rules = rules, chs_upstream = (scheme, uhost),
                           chs_envVar = exposedName s, chs_defaultDecision = serviceDefault s,
                           chs_upstreamHost = host\<rparr>
                 in if byName (ToLower (h_Name s)) \<noteq> None then Inl (DuplicateServiceName (h_Name s))
                    else if byHost host \<noteq> None then Inl (DuplicateUpstreamHost (h_Name s) host)
                    else sum_bind (compileAliases lib cs (h_Aliases s) (byHost(host \<mapsto> cs)))
                           (\<lambda>byHost'. Inr (byName(ToLower (h_Name s) \<mapsto> cs), byHost')))))"

fun compileHTTPLoop :: "golib \<Rightarrow> HTTPService list \<Rightarrow> service_map \<times> service_map \<Rightarrow>
    compile_http_error + service_map \<times> service_map" where
  "compileHTTPLoop lib [] maps = Inr maps"
| "compileHTTPLoop lib (s # svcs) maps = sum_bind (compileService lib s maps) (compileHTTPLoop lib svcs)"

definition compileHTTPServices :: "golib \<Rightarrow> HTTPService list \<Rightarrow> compile_http_error + service_map \<times> service_map" where
  "compileHTTPServices lib svcs = compileHTTPLoop lib svcs (Map.empty, Map.empty)"

text \<open>\<^verbatim>\<open>DeclaredHTTPServiceHost\<close> and \<^verbatim>\<open>DeclaredHTTPServiceAllowsDirect\<close> on the table by host: a bare IPv6
  literal is wrapped in brackets first.\<close>

definition lookupServiceHost :: "golib \<Rightarrow> service_map \<Rightarrow> string \<Rightarrow> compiledHTTPService option" where
  "lookupServiceHost lib byHost host0 =
     (let host = (if \<not> HasPrefix host0 ''['' \<and> count_byte (CHR '':'') host0 \<ge> 2 then ''['' @ host0 @ '']'' else host0)
      in Option.bind (canonicalizeHost lib host) byHost)"

section \<open>What compilation produces\<close>

definition service_hosts :: "golib \<Rightarrow> HTTPService \<Rightarrow> string set" where
  "service_hosts lib s =
     {h. \<exists>scheme uhost. url_Parse lib (h_Upstream s) = Some (scheme, uhost) \<and> canonicalizeHost lib uhost = Some h}
     \<union> {h. \<exists>a \<in> set (h_Aliases s). canonicalizeHost lib a = Some h}"

lemma compileAliases_spec:
  assumes "compileAliases lib cs al bh = Inr bh'"
  shows "bh \<subseteq>\<^sub>m bh'"
    and "a \<in> set al \<Longrightarrow> \<exists>c. canonicalizeHost lib a = Some c \<and> bh' c = Some cs"
    and "bh' k = Some x \<Longrightarrow> bh k = Some x \<or> x = cs \<and> (\<exists>a \<in> set al. canonicalizeHost lib a = Some k)"
proof -
  have "bh \<subseteq>\<^sub>m bh' \<and> (\<forall>a \<in> set al. \<exists>c. canonicalizeHost lib a = Some c \<and> bh' c = Some cs) \<and>
    (\<forall>k x. bh' k = Some x \<longrightarrow> bh k = Some x \<or> x = cs \<and> (\<exists>a \<in> set al. canonicalizeHost lib a = Some k))"
    using assms
  proof (induction al arbitrary: bh)
    case (Cons a al)
    obtain c where c: "canonicalizeHost lib a = Some c" "bh c = None"
      and rec: "compileAliases lib cs al (bh(c \<mapsto> cs)) = Inr bh'"
      using Cons.prems by (auto simp del: fun_upd_apply split: option.splits if_splits)
    note IH = Cons.IH [OF rec]
    have "bh \<subseteq>\<^sub>m bh(c \<mapsto> cs)" using c(2) by (auto simp: map_le_def dom_def)
    then have "bh \<subseteq>\<^sub>m bh'" using IH map_le_trans by blast
    moreover have "bh' c = Some cs" using IH by (metis domI fun_upd_same map_le_def)
    moreover have "bh k = Some x \<or> x = cs \<and> (\<exists>b \<in> set (a # al). canonicalizeHost lib b = Some k)"
      if "bh' k = Some x" for k x
      using that IH c(1) by (metis fun_upd_other fun_upd_same list.set_intros option.inject)
    ultimately show ?case using IH c(1) by auto
  qed auto
  then show "bh \<subseteq>\<^sub>m bh'"
    and "a \<in> set al \<Longrightarrow> \<exists>c. canonicalizeHost lib a = Some c \<and> bh' c = Some cs"
    and "bh' k = Some x \<Longrightarrow> bh k = Some x \<or> x = cs \<and> (\<exists>a \<in> set al. canonicalizeHost lib a = Some k)"
    by blast+
qed

lemma compileService_spec:
  assumes "compileService lib s (bn, bh) = Inr (bn', bh')"
  shows "\<exists>cs. chs_cfg cs = s \<and> chs_envVar cs = exposedName s \<and> chs_defaultDecision cs = serviceDefault s
    \<and> bn (ToLower (h_Name s)) = None \<and> bn' = bn(ToLower (h_Name s) \<mapsto> cs) \<and> bh \<subseteq>\<^sub>m bh'
    \<and> (\<forall>h \<in> service_hosts lib s. bh' h = Some cs)
    \<and> (\<forall>k x. bh' k = Some x \<longrightarrow> bh k = Some x \<or> x = cs \<and> k \<in> service_hosts lib s)"
proof -
  obtain scheme uhost host rules where
    u: "url_Parse lib (h_Upstream s) = Some (scheme, uhost)" "canonicalizeHost lib uhost = Some host"
    and r: "sum_mapM (compileHTTPRule lib (h_Name s)) (h_Rules s) = Inr rules"
    using assms by (auto simp: compileService_def sum_bind_Inr_iff split: option.splits)
  define cs where "cs = \<lparr>chs_cfg = s, chs_rules = rules, chs_upstream = (scheme, uhost),
    chs_envVar = exposedName s, chs_defaultDecision = serviceDefault s, chs_upstreamHost = host\<rparr>"
  have n: "bn (ToLower (h_Name s)) = None" "bn' = bn(ToLower (h_Name s) \<mapsto> cs)"
    and h: "bh host = None" "compileAliases lib cs (h_Aliases s) (bh(host \<mapsto> cs)) = Inr bh'"
    using assms u r
    by (auto simp: compileService_def cs_def Let_def sum_bind_Inr_iff simp del: fun_upd_apply split: if_splits)
  have cs: "chs_cfg cs = s" "chs_envVar cs = exposedName s" "chs_defaultDecision cs = serviceDefault s"
    by (simp_all add: cs_def)
  note al = compileAliases_spec [OF h(2)]
  have "bh \<subseteq>\<^sub>m bh'"
    using al(1) h(1) by (auto simp: map_le_def dom_def split: if_splits)
  moreover have "bh' k = Some cs" if "k \<in> service_hosts lib s" for k
  proof -
    have "bh' host = Some cs" using al(1) by (metis domI fun_upd_same map_le_def)
    then show ?thesis using that u al(2) by (fastforce simp: service_hosts_def)
  qed
  moreover have "bh k = Some x \<or> x = cs \<and> k \<in> service_hosts lib s" if "bh' k = Some x" for k x
    using al(3) [OF that] u by (auto simp: service_hosts_def split: if_splits)
  ultimately show ?thesis using cs n by blast
qed

lemma compileHTTPLoop_spec:
  assumes "compileHTTPLoop lib svcs (bn, bh) = Inr (bn', bh')"
  shows "bn \<subseteq>\<^sub>m bn' \<and> bh \<subseteq>\<^sub>m bh'
    \<and> (\<forall>s \<in> set svcs. \<exists>cs. chs_cfg cs = s \<and> chs_envVar cs = exposedName s \<and> chs_defaultDecision cs = serviceDefault s
         \<and> bn' (ToLower (h_Name s)) = Some cs \<and> (\<forall>h \<in> service_hosts lib s. bh' h = Some cs))
    \<and> (\<forall>k x. bh' k = Some x \<longrightarrow> bh k = Some x \<or> chs_cfg x \<in> set svcs \<and> k \<in> service_hosts lib (chs_cfg x))"
  using assms
proof (induction svcs arbitrary: bn bh)
  case (Cons s svcs)
  obtain bn1 bh1 where 1: "compileService lib s (bn, bh) = Inr (bn1, bh1)"
    and 2: "compileHTTPLoop lib svcs (bn1, bh1) = Inr (bn', bh')"
    using Cons.prems by (auto simp: sum_bind_Inr_iff)
  obtain cs where cs: "chs_cfg cs = s" "chs_envVar cs = exposedName s" "chs_defaultDecision cs = serviceDefault s"
    and n: "bn (ToLower (h_Name s)) = None" "bn1 = bn(ToLower (h_Name s) \<mapsto> cs)" and le: "bh \<subseteq>\<^sub>m bh1"
    and hosts: "\<forall>h \<in> service_hosts lib s. bh1 h = Some cs"
    and src: "\<forall>k x. bh1 k = Some x \<longrightarrow> bh k = Some x \<or> x = cs \<and> k \<in> service_hosts lib s"
    using compileService_spec [OF 1] by blast
  note IH = Cons.IH [OF 2]
  have "bn \<subseteq>\<^sub>m bn1" using n by (auto simp: map_le_def dom_def)
  moreover have "bn' (ToLower (h_Name s)) = Some cs"
    using IH n(2) by (metis domI fun_upd_same map_le_def)
  moreover have "\<forall>h \<in> service_hosts lib s. bh' h = Some cs"
    using IH hosts by (metis domI map_le_def)
  moreover have "bh k = Some x \<or> chs_cfg x \<in> set (s # svcs) \<and> k \<in> service_hosts lib (chs_cfg x)"
    if "bh' k = Some x" for k x
    using that IH src cs(1) by (metis list.set_intros)
  ultimately show ?case
    using IH le cs by (auto intro: map_le_trans)
qed simp

section \<open>Validation is enough for compilation\<close>

lemma validatePaths_ok:
  "validatePaths lib svc idx pats = None \<Longrightarrow> pat \<in> set pats \<Longrightarrow> \<exists>g. glob_Compile lib pat ''/'' = Some g"
  by (induction pats) (auto split: if_splits)

lemma sum_mapM_ok: "\<forall>x \<in> set xs. \<exists>y. f x = Inr y \<Longrightarrow> \<exists>ys. sum_mapM f xs = Inr ys"
  by (induction xs) fastforce+

lemma validateRule_compiles:
  "validateHTTPServiceRule lib svc idx r = None \<Longrightarrow> \<exists>c. compileHTTPRule lib svc' r = Inr c"
proof -
  assume "validateHTTPServiceRule lib svc idx r = None"
  then have "validatePaths lib svc idx (hr_Paths r) = None"
    by (auto simp: validateHTTPServiceRule_def split: if_splits option.splits)
  from validatePaths_ok [OF this]
  have "\<exists>gs. sum_mapM (\<lambda>pat. case glob_Compile lib pat ''/'' of
       None \<Rightarrow> Inl (CompilePath svc' (hr_Name r) pat) | Some g \<Rightarrow> Inr g) (hr_Paths r) = Inr gs"
    by (intro sum_mapM_ok) fastforce
  then show ?thesis by (auto simp: compileHTTPRule_def)
qed

lemma validateRules_compiles:
  "validateRules lib svc idx rs = None \<Longrightarrow> \<exists>cs. sum_mapM (compileHTTPRule lib svc') rs = Inr cs"
proof (induction rs arbitrary: idx)
  case (Cons r rs)
  then obtain c cs where "compileHTTPRule lib svc' r = Inr c" "sum_mapM (compileHTTPRule lib svc') rs = Inr cs"
    using validateRule_compiles [of lib svc idx r svc'] by (fastforce split: option.splits)
  then show ?case by simp
qed simp

lemma validateAliases_compiles:
  assumes "validateAliases lib svc al hs = Inr hs'" "dom bh = dom hs"
  shows "\<exists>bh'. compileAliases lib cs al bh = Inr bh' \<and> dom bh' = dom hs'"
  using assms
proof (induction al arbitrary: hs bh)
  case (Cons a al)
  then obtain c where c: "canonicalizeHost lib a = Some c" "hs c = None"
    and rec: "validateAliases lib svc al (hs(c \<mapsto> svc)) = Inr hs'"
    by (auto split: option.splits if_splits)
  have "bh c = None" using c Cons.prems(2) by (metis domIff)
  then show ?case
    using Cons.IH [OF rec, of "bh(c \<mapsto> cs)"] Cons.prems(2) c by (simp del: fun_upd_apply)
qed simp

lemma validateService_compiles:
  assumes "validateService lib i s st = Inr st'" "dom bn = vs_names st" "dom bh = dom (vs_hosts st)"
  shows "\<exists>bn' bh'. compileService lib s (bn, bh) = Inr (bn', bh') \<and> dom bn' = vs_names st' \<and> dom bh' = dom (vs_hosts st')"
proof -
  obtain scheme uhost host hosts where
    u: "url_Parse lib (h_Upstream s) = Some (scheme, uhost)" "canonicalizeHost lib uhost = Some host"
    and fresh: "ToLower (h_Name s) \<notin> vs_names st" "vs_hosts st host = None"
    and al: "validateAliases lib (h_Name s) (h_Aliases s) ((vs_hosts st)(host \<mapsto> h_Name s)) = Inr hosts"
    and r: "validateRules lib (h_Name s) 0 (h_Rules s) = None"
    and st': "vs_names st' = insert (ToLower (h_Name s)) (vs_names st)" "vs_hosts st' = hosts"
    using assms(1)
    by (auto simp: validateService_def sum_bind_Inr_iff simp del: insert_iff
        split: if_splits option.splits prod.splits)
  obtain rules where rules: "sum_mapM (compileHTTPRule lib (h_Name s)) (h_Rules s) = Inr rules"
    using validateRules_compiles [OF r] by blast
  let ?cs = "\<lparr>chs_cfg = s, chs_rules = rules, chs_upstream = (scheme, uhost), chs_envVar = exposedName s,
      chs_defaultDecision = serviceDefault s, chs_upstreamHost = host\<rparr>"
  have n: "bn (ToLower (h_Name s)) = None" "bh host = None"
    using fresh assms(2,3) by (metis domIff)+
  obtain bh' where "compileAliases lib ?cs (h_Aliases s) (bh(host \<mapsto> ?cs)) = Inr bh'" "dom bh' = dom hosts"
    using validateAliases_compiles [OF al, of "bh(host \<mapsto> ?cs)" ?cs] assms(3) by auto
  with u rules n st' assms(2) show ?thesis
    by (simp add: compileService_def Let_def)
qed

lemma validateLoop_compiles:
  assumes "validateLoop lib i svcs st = Inr st'" "dom bn = vs_names st" "dom bh = dom (vs_hosts st)"
  shows "\<exists>m. compileHTTPLoop lib svcs (bn, bh) = Inr m"
  using assms
proof (induction svcs arbitrary: i st bn bh)
  case (Cons s svcs)
  then obtain st1 where 1: "validateService lib i s st = Inr st1" "validateLoop lib (i + 1) svcs st1 = Inr st'"
    by (auto simp: sum_bind_Inr_iff)
  then obtain bn1 bh1 where "compileService lib s (bn, bh) = Inr (bn1, bh1)" "dom bn1 = vs_names st1"
    "dom bh1 = dom (vs_hosts st1)"
    using validateService_compiles [OF 1(1) Cons.prems(2,3)] by blast
  with Cons.IH [OF 1(2)] show ?case by simp
qed simp

lemma Validate_compiles:
  "ValidateHTTPServices lib svcs = None \<Longrightarrow> \<exists>bn bh. compileHTTPServices lib svcs = Inr (bn, bh)"
  using validateLoop_compiles [of lib 0 svcs _ _ Map.empty Map.empty]
  by (fastforce simp: ValidateHTTPServices_def compileHTTPServices_def split: sum.splits)

section \<open>Host names up to case, a trailing dot and a port\<close>

lemma name_byte_plain: "name_byte c \<Longrightarrow> plain c \<and> c \<noteq> CHR '':'' \<and> c \<noteq> CHR ''[''"
  by (auto simp: name_byte_def is_letter_def is_lower_def is_upper_def is_digit_def plain_def space_runes_def)

lemma name_byte_upper: "name_byte c \<Longrightarrow> name_byte (ascii_upper c)"
proof (cases "is_lower c")
  case True
  then show ?thesis
    using byte_upper [OF True] by (simp add: name_byte_def is_letter_def is_upper_def)
qed (simp add: ascii_upper_def)

lemma digit_name_byte: "is_digit c \<Longrightarrow> name_byte c"
  by (simp add: name_byte_def)

lemma before_last_append: "c \<notin> set t \<Longrightarrow> before_last c (s @ c # t) = s"
  by (simp add: before_last_def dropWhile_append)

lemma count_byte_append [simp]: "count_byte c (s @ t) = count_byte c s + count_byte c t"
  by (simp add: count_byte_def)

lemma count_byte_none: "c \<notin> set s \<Longrightarrow> count_byte c s = 0"
  by (auto simp: count_byte_def filter_empty_conv)

lemma canonicalizeHost_name:
  assumes "h \<noteq> []" "list_all name_byte h" "list_all is_digit port" "port = [] \<Longrightarrow> sep = []"
    "port \<noteq> [] \<Longrightarrow> sep = '':''" "TrimSuffix (ToLower h) ''.'' \<noteq> []"
  shows "canonicalizeHost lib (h @ sep @ port) = Some (TrimSuffix (ToLower h) ''.'')"
proof -
  have nb: "\<forall>c \<in> set h. plain c \<and> c \<noteq> CHR '':'' \<and> c \<noteq> CHR ''[''"
    "\<forall>c \<in> set port. plain c \<and> c \<noteq> CHR '':'' \<and> c \<noteq> CHR ''[''"
    using assms(2,3) name_byte_plain digit_name_byte by (auto simp: list_all_iff)
  have "plain (hd (h @ sep @ port))" using nb(1) assms(1) by simp
  moreover have "plain (last (h @ sep @ port))"
    using nb assms(1,4) by (cases "port = []") auto
  ultimately have t: "TrimSpace (h @ sep @ port) = h @ sep @ port"
    using assms(1) by (intro TrimSpace_plain) auto
  have b: "\<not> HasPrefix (h @ sep @ port) ''[''"
    using nb(1) assms(1) by (cases h) (auto simp: HasPrefix_def)
  have c: "count_byte (CHR '':'') h = 0" "count_byte (CHR '':'') port = 0"
    using nb by (auto intro: count_byte_none)
  have no: "CHR '':'' \<notin> set h" "CHR '':'' \<notin> set port" using nb by auto
  show ?thesis
  proof (cases "port = []")
    case True
    with assms(1,4,6) t b c(1) no(1) show ?thesis by (simp add: canonicalizeHost_def)
  next
    case False
    with assms(5) have sep: "sep = '':''" by simp
    have cnt: "count_byte (CHR '':'') (h @ sep @ port) = 1"
      using c by (simp add: sep) (simp add: count_byte_def)
    have bl: "before_last (CHR '':'') (h @ sep @ port) = h"
      using before_last_append [OF no(2), of h] by (simp add: sep)
    show ?thesis
      using t b cnt bl assms(1,6) unfolding canonicalizeHost_def Let_def by (simp add: sep)
  qed
qed

text \<open>a declared host is recognised however it is written: for a host name without a trailing dot, the
  name in upper case, with one trailing dot, and with a port all have the lower-case name as their
  canonical form.\<close>

lemma canonicalizeHost_spellings:
  assumes "h \<noteq> []" "list_all name_byte h" "last h \<noteq> CHR ''.''" "list_all is_digit port" "port \<noteq> []"
  shows "canonicalizeHost lib h = Some (ToLower h)
    \<and> canonicalizeHost lib (ToUpper h) = Some (ToLower h)
    \<and> canonicalizeHost lib (h @ ''.'') = Some (ToLower h)
    \<and> canonicalizeHost lib (h @ '':'' @ port) = Some (ToLower h)
    \<and> canonicalizeHost lib (h @ ''.'' @ '':'' @ port) = Some (ToLower h)"
proof -
  have up: "ToLower (ToUpper h) = ToLower h"
    by (simp add: ToLower_def ToUpper_def ascii_lower_upper)
  have ne: "ToLower h \<noteq> []" using assms(1) by (cases h) (simp_all add: ToLower_def)
  have lst: "last (ToLower h) \<noteq> CHR ''.''"
    using assms(1,3) by (simp add: ToLower_def last_map ascii_lower_eq_dot)
  then have dot: "TrimSuffix (ToLower h) ''.'' = ToLower h"
    using ne by (auto simp: TrimSuffix_def HasSuffix_iff)
  have dot2: "TrimSuffix (ToLower (h @ ''.'')) ''.'' = ToLower h"
    using TrimSuffix_append [of "ToLower h" "''.''"] by (simp add: ToLower_append ToLower_dot)
  have upb: "list_all name_byte (ToUpper h)" "ToUpper h \<noteq> []"
    using assms(1,2) by (auto simp: ToUpper_def list_all_iff name_byte_upper)
  have hd: "list_all name_byte (h @ ''.'')" using assms(2) by (simp add: name_byte_def)
  show ?thesis
    using canonicalizeHost_name [of h "[]" "[]" lib] canonicalizeHost_name [of "ToUpper h" "[]" "[]" lib]
      canonicalizeHost_name [of "h @ ''.''" "[]" "[]" lib] canonicalizeHost_name [of h port "'':''" lib]
      canonicalizeHost_name [of "h @ ''.''" port "'':''" lib] assms up ne dot dot2 upb hd
    by simp
qed


lemma canonicalizeHost_spellings_witness:
  "canonicalizeHost literal_lib ''API.GitHub.com.:443'' = Some ''api.github.com''"
proof -
  have "list_all name_byte ''API.GitHub.com''" "list_all is_digit ''443''" "ToLower ''API.GitHub.com'' = ''api.github.com''"
    by code_simp+
  then show ?thesis
    using canonicalizeHost_spellings [of "''API.GitHub.com''" "''443''" literal_lib] by simp
qed

definition example_service :: HTTPService where
  "example_service =
     \<lparr>h_Name = ''github'', h_Upstream = ''api.github.com'', h_ExposeAs = [], h_Aliases = [''gh.local''],
      h_AllowDirect = False, h_Default = [], h_Rules = [], h_Secret = None, h_Inject = None, h_ScrubResponse = None\<rparr>"


end
