(* ===== verification/PolicyEngine.thy ===== *)
theory PolicyEngine
  imports ShellParse EnvPolicy SignalPolicy HttpServices
begin

text \<open>
  \<^verbatim>\<open>internal/policy/engine.go\<close>, first part: the engine and its compiled rules, \<^verbatim>\<open>NewEngine\<close>, variable
  expansion of a policy, the setters and accessors, and \<^verbatim>\<open>wrapDecision\<close>, which turns a rule's decision
  string into a decision. The threat feed and the Tor coordinator are interfaces of the Go code; they
  are functions the engine carries. \<^verbatim>\<open>sort.Slice\<close> is not stable: the registry rules are sorted stably here,
  and the theorem on registry rules covers every order of rules with the same priority.
\<close>

section \<open>Decisions\<close>

record ThreatCheckResult =
  tr_FeedName :: string
  tr_MatchedDomain :: string

record TorVerdict =
  tv_Vector :: string
  tv_Mode :: string
  tv_Decision :: string
  tv_Target :: string

record TorChecker =
  EvalExecve :: "string \<Rightarrow> string list \<Rightarrow> TorVerdict option"
  EvalConnect :: "IP option \<Rightarrow> int \<Rightarrow> TorVerdict option"
  EvalOnionName :: "string \<Rightarrow> TorVerdict option"

text \<open>The message of a decision is a text, or one of the two shell-script messages built around a reason.\<close>

datatype message = Text string | BypassMessage "bypassReason option" | OpaqueMessage "opaqueReason option"

record Decision =
  d_PolicyDecision :: types_Decision
  d_EffectiveDecision :: types_Decision
  d_Rule :: string
  d_Message :: message
  d_Approval :: "ApprovalInfo option"
  d_Redirect :: "RedirectInfo option"
  d_FileRedirect :: "FileRedirectInfo option"
  d_EnvPolicy :: ResolvedEnvPolicy
  d_ThreatFeed :: string
  d_ThreatMatch :: string
  d_ThreatAction :: string
  d_Tor :: "TorVerdict option"

definition ResolvedEnvPolicy0 :: ResolvedEnvPolicy where
  "ResolvedEnvPolicy0 = \<lparr>re_Allow = [], re_Deny = [], re_MaxBytes = 0, re_MaxKeys = 0, re_BlockIteration = False\<rparr>"

definition EnvPolicy0 :: EnvPolicy where
  "EnvPolicy0 = \<lparr>ep_Allow = [], ep_Deny = [], ep_MaxBytes = 0, ep_MaxKeys = 0, ep_BlockIteration = False\<rparr>"

definition CommandRule0 :: CommandRule where
  "CommandRule0 =
     \<lparr>cr_Name = [], cr_Description = [], cr_Commands = [], cr_ArgsPatterns = [], cr_Decision = [],
      cr_Message = [], cr_RedirectTo = None, cr_Context = \<lparr>cc_MinDepth = 0, cc_MaxDepth = 0\<rparr>,
      cr_EnvAllow = [], cr_EnvDeny = [], cr_EnvMaxBytes = 0, cr_EnvMaxKeys = 0, cr_EnvBlockIteration = None\<rparr>"

definition mkDecision :: "types_Decision \<Rightarrow> types_Decision \<Rightarrow> string \<Rightarrow> message \<Rightarrow> Decision" where
  "mkDecision pd ed rule msg =
     \<lparr>d_PolicyDecision = pd, d_EffectiveDecision = ed, d_Rule = rule, d_Message = msg,
      d_Approval = None, d_Redirect = None, d_FileRedirect = None, d_EnvPolicy = ResolvedEnvPolicy0,
      d_ThreatFeed = [], d_ThreatMatch = [], d_ThreatAction = [], d_Tor = None\<rparr>"

section \<open>The engine\<close>

record compiledFileRule =
  cf_rule :: FileRule
  cf_globs :: "pattern list"
  cf_ops :: "string set"
  cf_redirectTo :: string
  cf_preserveTree :: bool

record compiledNetworkRule =
  cn_rule :: NetworkRule
  cn_domainGlobs :: "pattern list"
  cn_cidrs :: "IPNet list"
  cn_ports :: "int set"

record compiledCommandRule =
  cc_rule :: CommandRule
  cc_basenames :: "string set"
  cc_basenameGlobs :: "pattern list"
  cc_fullPaths :: "string set"
  cc_pathGlobs :: "pattern list"
  cc_argsRegexes :: "pattern list"

record compiledUnixRule =
  cu_rule :: UnixSocketRule
  cu_paths :: "pattern list"
  cu_ops :: "string set"

record compiledRegistryRule =
  cg_rule :: RegistryRule
  cg_globs :: "pattern list"
  cg_ops :: "string set"
  cg_priority :: int

text \<open>A redirect rule whose expression does not compile has a nil pattern.\<close>

record compiledDnsRedirectRule =
  cdr_rule :: DnsRedirectRule
  cdr_pattern :: "pattern option"

record compiledConnectRedirectRule =
  cxr_rule :: ConnectRedirectRule
  cxr_pattern :: "pattern option"

record Engine =
  en_policy :: "Policy option"
  en_enforceApprovals :: bool
  en_enforceRedirects :: bool
  en_fileRules :: "compiledFileRule list"
  en_networkRules :: "compiledNetworkRule list"
  en_commandRules :: "compiledCommandRule list"
  en_unixRules :: "compiledUnixRule list"
  en_registryRules :: "compiledRegistryRule list"
  en_hasRestrictiveCommandRule :: bool
  en_httpServices :: service_map
  en_httpServiceHosts :: service_map
  en_dnsRedirectRules :: "compiledDnsRedirectRule list"
  en_connectRedirectRules :: "compiledConnectRedirectRule list"
  en_compiledEnvAllow :: "pattern list"
  en_compiledEnvDeny :: "pattern list"
  en_signalEngine :: "signal_Engine option"
  en_threatStore :: "(string \<Rightarrow> ThreatCheckResult option) option"
  en_threatAction :: string
  en_torChecker :: "TorChecker option"

section \<open>wrapDecision\<close>

definition toRedirectInfo :: "CommandRedirect option \<Rightarrow> string \<Rightarrow> RedirectInfo option" where
  "toRedirectInfo r msg =
     (case r of
        None \<Rightarrow> None
      | Some cr \<Rightarrow>
          if TrimSpace (cd_Command cr) = [] then None
          else Some \<lparr>ri_Command = cd_Command cr, ri_Args = cd_Args cr, ri_ArgsAppend = cd_ArgsAppend cr,
                     ri_Environment = cd_Environment cr, ri_Reason = msg\<rparr>)"

definition message_text :: "message \<Rightarrow> string" where
  "message_text m = (case m of Text t \<Rightarrow> t | _ \<Rightarrow> [])"

definition wrapDecision :: "Engine \<Rightarrow> string \<Rightarrow> string \<Rightarrow> message \<Rightarrow> CommandRedirect option \<Rightarrow> Decision" where
  "wrapDecision e decision rule msg redirect =
     (let pd = to_Decision (ToLower decision) in
      case pd of
        DecisionAllow \<Rightarrow> mkDecision pd pd rule msg
      | DecisionDeny \<Rightarrow> mkDecision pd pd rule msg
      | DecisionApprove \<Rightarrow>
          (if en_enforceApprovals e
           then (mkDecision pd pd rule msg)\<lparr>d_Approval := Some \<lparr>ai_Required = True, ai_Mode = ApprovalModeEnforced, ai_ID = []\<rparr>\<rparr>
           else (mkDecision pd DecisionAllow rule msg)\<lparr>d_Approval := Some \<lparr>ai_Required = True, ai_Mode = ApprovalModeShadow, ai_ID = []\<rparr>\<rparr>)
      | DecisionRedirect \<Rightarrow>
          (if en_enforceRedirects e
           then (mkDecision pd pd rule msg)\<lparr>d_Redirect := toRedirectInfo redirect (message_text msg)\<rparr>
           else (mkDecision pd DecisionAllow rule msg)\<lparr>d_Redirect := toRedirectInfo redirect (message_text msg)\<rparr>)
      | DecisionAudit \<Rightarrow> mkDecision pd DecisionAllow rule msg
      | DecisionSoftDelete \<Rightarrow> mkDecision pd DecisionAllow rule msg
      | OtherDecision _ \<Rightarrow>
          mkDecision DecisionDeny DecisionDeny ''invalid-policy-decision'' (Text ''invalid decision in policy''))"

section \<open>Compiling a policy\<close>

datatype engine_error =
    FileGlobError string string
  | NetworkDomainError string string
  | NetworkCIDRError string string
  | CommandArgsError string string
  | UnixGlobError string string
  | RegistryGlobError string string
  | EnvAllowError string
  | EnvDenyError string
  | SignalRulesError signal_error
  | HTTPServicesError compile_http_error

definition compile_all :: "(string \<Rightarrow> 'a option) \<Rightarrow> (string \<Rightarrow> 'e) \<Rightarrow> string list \<Rightarrow> 'e + 'a list" where
  "compile_all f err pats = sum_mapM (\<lambda>p. case f p of None \<Rightarrow> Inl (err p) | Some g \<Rightarrow> Inr g) pats"

definition op_set :: "string list \<Rightarrow> string set" where
  "op_set ops = set (map ToLower ops)"

definition compileFileRule :: "golib \<Rightarrow> FileRule \<Rightarrow> engine_error + compiledFileRule" where
  "compileFileRule lib r =
     sum_bind (compile_all (\<lambda>p. glob_Compile lib p ''/'') (FileGlobError (fr_Name r)) (fr_Paths r))
       (\<lambda>globs. Inr \<lparr>cf_rule = r, cf_globs = globs, cf_ops = op_set (fr_Operations r),
                     cf_redirectTo = fr_RedirectTo r, cf_preserveTree = fr_PreserveTree r\<rparr>)"

definition compileDomain :: "golib \<Rightarrow> string \<Rightarrow> pattern option" where
  "compileDomain lib pat =
     (case glob_Compile lib (ToLower pat) ''.'' of
        Some g \<Rightarrow> Some g
      | None \<Rightarrow> glob_Compile lib (ToLower pat) [])"

definition compileNetworkRule :: "golib \<Rightarrow> NetworkRule \<Rightarrow> engine_error + compiledNetworkRule" where
  "compileNetworkRule lib r =
     sum_bind (compile_all (compileDomain lib) (NetworkDomainError (nr_Name r)) (nr_Domains r)) (\<lambda>domains.
     sum_bind (compile_all (ParseCIDR lib) (NetworkCIDRError (nr_Name r)) (nr_CIDRs r)) (\<lambda>cidrs.
       Inr \<lparr>cn_rule = r, cn_domainGlobs = domains, cn_cidrs = cidrs, cn_ports = set (nr_Ports r)\<rparr>))"

definition ContainsAny :: "string \<Rightarrow> string \<Rightarrow> bool" where
  "ContainsAny s chars = list_ex (\<lambda>c. c \<in> set chars) s"

definition addCommand :: "golib \<Rightarrow> string \<Rightarrow> compiledCommandRule \<Rightarrow> compiledCommandRule" where
  "addCommand lib c0 cr =
     (let c = TrimSpace c0 in
      if c = [] then cr
      else if ContainsByte c (CHR ''/'') then
        (if ContainsAny c ''*?['' then
           (case glob_Compile lib c ''/'' of
              None \<Rightarrow> cr\<lparr>cc_fullPaths := insert (ToLower c) (cc_fullPaths cr)\<rparr>
            | Some g \<Rightarrow> cr\<lparr>cc_pathGlobs := cc_pathGlobs cr @ [g]\<rparr>)
         else cr\<lparr>cc_fullPaths := insert (ToLower c) (cc_fullPaths cr)\<rparr>)
      else
        (if ContainsAny c ''*?['' then
           (case glob_Compile lib c [] of
              None \<Rightarrow> cr\<lparr>cc_basenames := insert (ToLower c) (cc_basenames cr)\<rparr>
            | Some g \<Rightarrow> cr\<lparr>cc_basenameGlobs := cc_basenameGlobs cr @ [g]\<rparr>)
         else cr\<lparr>cc_basenames := insert (ToLower c) (cc_basenames cr)\<rparr>))"

definition compileCommandRule :: "golib \<Rightarrow> CommandRule \<Rightarrow> engine_error + compiledCommandRule" where
  "compileCommandRule lib r =
     (let cr = fold (addCommand lib) (cr_Commands r)
                 \<lparr>cc_rule = r, cc_basenames = {}, cc_basenameGlobs = [], cc_fullPaths = {}, cc_pathGlobs = [], cc_argsRegexes = []\<rparr>
      in sum_bind (compile_all (regexp_Compile lib) (CommandArgsError (cr_Name r)) (cr_ArgsPatterns r))
           (\<lambda>res. Inr (cr\<lparr>cc_argsRegexes := res\<rparr>)))"

definition isRestrictive :: "string \<Rightarrow> bool" where
  "isRestrictive decision \<longleftrightarrow>
     to_Decision (ToLower decision) \<in> {DecisionDeny, DecisionRedirect, DecisionSoftDelete, DecisionApprove, DecisionAudit}"

definition compileUnixPath :: "golib \<Rightarrow> string \<Rightarrow> pattern option" where
  "compileUnixPath lib pat =
     (case glob_Compile lib pat ''/'' of Some g \<Rightarrow> Some g | None \<Rightarrow> glob_Compile lib pat [])"

definition compileUnixRule :: "golib \<Rightarrow> UnixSocketRule \<Rightarrow> engine_error + compiledUnixRule" where
  "compileUnixRule lib r =
     sum_bind (compile_all (compileUnixPath lib) (UnixGlobError (ur_Name r)) (ur_Paths r))
       (\<lambda>paths. Inr \<lparr>cu_rule = r, cu_paths = paths, cu_ops = op_set (ur_Operations r)\<rparr>)"

definition escapeBackslash :: "string \<Rightarrow> string" where
  "escapeBackslash s = concat (map (\<lambda>c. if c = CHR 0x5C then [CHR 0x5C, CHR 0x5C] else [c]) s)"

definition compileRegistryRule :: "golib \<Rightarrow> RegistryRule \<Rightarrow> engine_error + compiledRegistryRule" where
  "compileRegistryRule lib r =
     sum_bind (compile_all (\<lambda>p. glob_Compile lib (escapeBackslash p) []) (RegistryGlobError (rr_Name r)) (rr_Paths r))
       (\<lambda>globs. Inr \<lparr>cg_rule = r, cg_globs = globs, cg_ops = op_set (rr_Operations r), cg_priority = rr_Priority r\<rparr>)"

definition NewEngine :: "golib \<Rightarrow> Policy \<Rightarrow> bool \<Rightarrow> bool \<Rightarrow> engine_error + Engine" where
  "NewEngine lib p enforceApprovals enforceRedirects =
     sum_bind (sum_mapM (compileFileRule lib) (p_FileRules p)) (\<lambda>fileRules.
     sum_bind (sum_mapM (compileNetworkRule lib) (p_NetworkRules p)) (\<lambda>networkRules.
     sum_bind (sum_mapM (compileCommandRule lib) (p_CommandRules p)) (\<lambda>commandRules.
     sum_bind (sum_mapM (compileUnixRule lib) (p_UnixRules p)) (\<lambda>unixRules.
     sum_bind (sum_mapM (compileRegistryRule lib) (p_RegistryRules p)) (\<lambda>registryRules.
     sum_bind (compile_all (\<lambda>pat. glob_Compile lib pat []) EnvAllowError (ep_Allow (p_EnvPolicy p))) (\<lambda>envAllow.
     sum_bind (compile_all (\<lambda>pat. glob_Compile lib pat []) EnvDenyError (ep_Deny (p_EnvPolicy p))) (\<lambda>envDeny.
     sum_bind (map_sum SignalRulesError id (compileSignalRules lib (p_SignalRules p))) (\<lambda>sigEngine.
     sum_bind (map_sum HTTPServicesError id (compileHTTPServices lib (p_HTTPServices p))) (\<lambda>(byName, byHost).
       Inr \<lparr>en_policy = Some p, en_enforceApprovals = enforceApprovals, en_enforceRedirects = enforceRedirects,
            en_fileRules = fileRules, en_networkRules = networkRules, en_commandRules = commandRules,
            en_unixRules = unixRules,
            en_registryRules = sort_key (\<lambda>r. - cg_priority r) registryRules,
            en_hasRestrictiveCommandRule = list_ex (\<lambda>r. isRestrictive (cr_Decision (cc_rule r))) commandRules,
            en_httpServices = byName, en_httpServiceHosts = byHost,
            en_dnsRedirectRules = map (\<lambda>r. \<lparr>cdr_rule = r, cdr_pattern = regexp_Compile lib (dr_Match r)\<rparr>) (p_DnsRedirectRules p),
            en_connectRedirectRules = map (\<lambda>r. \<lparr>cxr_rule = r, cxr_pattern = regexp_Compile lib (xr_Match r)\<rparr>) (p_ConnectRedirectRules p),
            en_compiledEnvAllow = envAllow, en_compiledEnvDeny = envDeny, en_signalEngine = sigEngine,
            en_threatStore = None, en_threatAction = [], en_torChecker = None\<rparr>)))))))))"

section \<open>Variable expansion, setters and accessors\<close>

datatype expand_error = ExpandFilePath string string string | ExpandDomain string string string

definition expand_all :: "(string \<rightharpoonup> string) \<Rightarrow> (string \<Rightarrow> string) \<Rightarrow> (string \<Rightarrow> string \<Rightarrow> expand_error) \<Rightarrow>
    string list \<Rightarrow> expand_error + string list" where
  "expand_all vars getenv err ss =
     sum_mapM (\<lambda>s. case ExpandVariables vars getenv s of Inl v \<Rightarrow> Inl (err s v) | Inr t \<Rightarrow> Inr t) ss"

definition expandFileRule :: "(string \<rightharpoonup> string) \<Rightarrow> (string \<Rightarrow> string) \<Rightarrow> FileRule \<Rightarrow> expand_error + FileRule" where
  "expandFileRule vars getenv r =
     sum_bind (expand_all vars getenv (ExpandFilePath (fr_Name r)) (fr_Paths r)) (\<lambda>ps. Inr (r\<lparr>fr_Paths := ps\<rparr>))"

definition expandNetworkRule :: "(string \<rightharpoonup> string) \<Rightarrow> (string \<Rightarrow> string) \<Rightarrow> NetworkRule \<Rightarrow> expand_error + NetworkRule" where
  "expandNetworkRule vars getenv r =
     sum_bind (expand_all vars getenv (ExpandDomain (nr_Name r)) (nr_Domains r)) (\<lambda>ds. Inr (r\<lparr>nr_Domains := ds\<rparr>))"

definition expandPolicy :: "(string \<rightharpoonup> string) \<Rightarrow> (string \<Rightarrow> string) \<Rightarrow> Policy \<Rightarrow> expand_error + Policy" where
  "expandPolicy vars getenv p =
     sum_bind (sum_mapM (expandFileRule vars getenv) (p_FileRules p)) (\<lambda>frs.
     sum_bind (sum_mapM (expandNetworkRule vars getenv) (p_NetworkRules p)) (\<lambda>nrs.
       Inr (p\<lparr>p_FileRules := frs, p_NetworkRules := nrs\<rparr>)))"

definition NewEngineWithVariables :: "golib \<Rightarrow> (string \<Rightarrow> string) \<Rightarrow> Policy \<Rightarrow> bool \<Rightarrow> bool \<Rightarrow> (string \<rightharpoonup> string) \<Rightarrow>
    (expand_error + engine_error) + Engine" where
  "NewEngineWithVariables lib getenv p enforceApprovals enforceRedirects vars =
     (case expandPolicy vars getenv p of
        Inl x \<Rightarrow> Inl (Inl x)
      | Inr expanded \<Rightarrow> map_sum Inr id (NewEngine lib expanded enforceApprovals enforceRedirects))"

definition SetThreatStore :: "Engine \<Rightarrow> (string \<Rightarrow> ThreatCheckResult option) option \<Rightarrow> string \<Rightarrow> Engine" where
  "SetThreatStore e store action =
     e\<lparr>en_threatStore := store,
       en_threatAction := (if action = ''deny'' \<or> action = ''audit'' then action else ''deny'')\<rparr>"

definition SetTorPolicy :: "Engine \<Rightarrow> TorChecker option \<Rightarrow> Engine" where
  "SetTorPolicy e tc = e\<lparr>en_torChecker := tc\<rparr>"

record Limits =
  li_CommandTimeout :: int
  li_SessionTimeout :: int
  li_IdleTimeout :: int
  li_MaxMemoryMB :: int
  li_CPUQuotaPercent :: int
  li_PidsMax :: int

text \<open>The methods with a nil check take an optional engine.\<close>

definition engine_policy :: "Engine option \<Rightarrow> Policy option" where
  "engine_policy e = Option.bind e en_policy"

definition engine_Limits :: "Engine option \<Rightarrow> Limits" where
  "engine_Limits e =
     (case engine_policy e of
        None \<Rightarrow> \<lparr>li_CommandTimeout = 0, li_SessionTimeout = 0, li_IdleTimeout = 0, li_MaxMemoryMB = 0,
                 li_CPUQuotaPercent = 0, li_PidsMax = 0\<rparr>
      | Some p \<Rightarrow>
          (let r = p_ResourceLimits p in
           \<lparr>li_CommandTimeout = rl_CommandTimeout r, li_SessionTimeout = rl_SessionTimeout r,
            li_IdleTimeout = rl_IdleTimeout r, li_MaxMemoryMB = rl_MaxMemoryMB r,
            li_CPUQuotaPercent = rl_CPUQuotaPercent r, li_PidsMax = rl_PidsMax r\<rparr>))"

definition engine_NetworkRules :: "Engine option \<Rightarrow> NetworkRule list" where
  "engine_NetworkRules e = (case engine_policy e of None \<Rightarrow> [] | Some p \<Rightarrow> p_NetworkRules p)"

definition engine_EnvPolicy :: "Engine option \<Rightarrow> EnvPolicy" where
  "engine_EnvPolicy e = (case engine_policy e of None \<Rightarrow> EnvPolicy0 | Some p \<Rightarrow> p_EnvPolicy p)"

definition GetEnvInject :: "Engine option \<Rightarrow> string \<rightharpoonup> string" where
  "GetEnvInject e =
     (case engine_policy e of
        None \<Rightarrow> Map.empty
      | Some p \<Rightarrow> (case p_EnvInject p of None \<Rightarrow> Map.empty | Some m \<Rightarrow> m))"

definition matchOp :: "string set \<Rightarrow> string \<Rightarrow> bool" where
  "matchOp ops op1 \<longleftrightarrow> (if ops = {} then True else if ''*'' \<in> ops then True else op1 \<in> ops)"

section \<open>Lemmas on decisions and compilation\<close>

lemma mkDecision_fields [simp]:
  "d_PolicyDecision (mkDecision pd ed rule msg) = pd"
  "d_EffectiveDecision (mkDecision pd ed rule msg) = ed"
  "d_Rule (mkDecision pd ed rule msg) = rule"
  "d_Message (mkDecision pd ed rule msg) = msg"
  "d_Approval (mkDecision pd ed rule msg) = None"
  "d_Redirect (mkDecision pd ed rule msg) = None"
  "d_FileRedirect (mkDecision pd ed rule msg) = None"
  "d_EnvPolicy (mkDecision pd ed rule msg) = ResolvedEnvPolicy0"
  "d_Tor (mkDecision pd ed rule msg) = None"
  by (simp_all add: mkDecision_def)

lemma wrapDecision_deny [simp]:
  "wrapDecision e ''deny'' rule msg redirect = mkDecision DecisionDeny DecisionDeny rule msg"
  by (simp add: wrapDecision_def ToLower_def ascii_lower_def is_upper_def to_Decision_def)

lemma wrapDecision_allow [simp]:
  "wrapDecision e ''allow'' rule msg redirect = mkDecision DecisionAllow DecisionAllow rule msg"
  by (simp add: wrapDecision_def ToLower_def ascii_lower_def is_upper_def to_Decision_def)

text \<open>Every decision string that is not one of the known names, in any case, is a denial.\<close>

lemma wrapDecision_policy:
  "d_PolicyDecision (wrapDecision e decision rule msg redirect) =
     (case to_Decision (ToLower decision) of OtherDecision _ \<Rightarrow> DecisionDeny | d \<Rightarrow> d)"
  by (auto simp: wrapDecision_def Let_def split: types_Decision.split)

lemma wrapDecision_effective:
  "d_EffectiveDecision (wrapDecision e decision rule msg redirect) =
     (case to_Decision (ToLower decision) of
        DecisionAllow \<Rightarrow> DecisionAllow
      | DecisionAudit \<Rightarrow> DecisionAllow
      | DecisionSoftDelete \<Rightarrow> DecisionAllow
      | DecisionApprove \<Rightarrow> if en_enforceApprovals e then DecisionApprove else DecisionAllow
      | DecisionRedirect \<Rightarrow> if en_enforceRedirects e then DecisionRedirect else DecisionAllow
      | _ \<Rightarrow> DecisionDeny)"
  by (auto simp: wrapDecision_def Let_def split: types_Decision.split)

lemma wrapDecision_known: "d_PolicyDecision (wrapDecision e decision rule msg redirect) \<noteq> OtherDecision x"
  by (auto simp: wrapDecision_policy split: types_Decision.split)

text \<open>What the engine really does for a policy decision.\<close>

definition effective :: "Engine \<Rightarrow> types_Decision \<Rightarrow> types_Decision" where
  "effective e pd =
     (case pd of
        DecisionAllow \<Rightarrow> DecisionAllow
      | DecisionAudit \<Rightarrow> DecisionAllow
      | DecisionSoftDelete \<Rightarrow> DecisionAllow
      | DecisionApprove \<Rightarrow> if en_enforceApprovals e then DecisionApprove else DecisionAllow
      | DecisionRedirect \<Rightarrow> if en_enforceRedirects e then DecisionRedirect else DecisionAllow
      | _ \<Rightarrow> DecisionDeny)"

definition consistent :: "Engine \<Rightarrow> Decision \<Rightarrow> bool" where
  "consistent e d \<longleftrightarrow> d_EffectiveDecision d = effective e (d_PolicyDecision d) \<and>
     (d_PolicyDecision d = DecisionApprove \<longleftrightarrow> d_Approval d \<noteq> None) \<and>
     (\<forall>x. d_PolicyDecision d \<noteq> OtherDecision x)"

lemma consistent_wrap [simp]: "consistent e (wrapDecision e decision rule msg redirect)"
  by (auto simp: consistent_def effective_def wrapDecision_def Let_def split: types_Decision.split)

lemma consistent_upd [simp]:
  "consistent e (d\<lparr>d_EnvPolicy := x\<rparr>) = consistent e d"
  "consistent e (d\<lparr>d_Tor := y\<rparr>) = consistent e d"
  "consistent e (d\<lparr>d_FileRedirect := z\<rparr>) = consistent e d"
  by (simp_all add: consistent_def)

lemma compile_all_Inr_iff:
  "compile_all f err pats = Inr gs \<longleftrightarrow> list_all2 (\<lambda>p g. f p = Some g) pats gs"
proof -
  have "(case f p of None \<Rightarrow> Inl (err p) | Some g \<Rightarrow> Inr g) = Inr g \<longleftrightarrow> f p = Some g" for p g
    by (auto split: option.split)
  then show ?thesis by (simp add: compile_all_def sum_mapM_Inr_iff)
qed

lemma compile_all_set: "compile_all f err pats = Inr gs \<Longrightarrow> g \<in> set gs \<longleftrightarrow> (\<exists>p \<in> set pats. f p = Some g)"
  by (auto simp: compile_all_Inr_iff list_all2_conv_all_nth in_set_conv_nth) (metis nth_mem)+

lemma fold_addCommand_rule: "cc_rule (fold (addCommand lib) cs cr) = cc_rule cr"
  by (induction cs arbitrary: cr) (auto simp: addCommand_def Let_def split: option.split)

lemma compileCommandRule_rule: "compileCommandRule lib r = Inr c \<Longrightarrow> cc_rule c = r"
  by (auto simp: compileCommandRule_def Let_def sum_bind_Inr_iff fold_addCommand_rule)

lemma NewEngineD:
  assumes "NewEngine lib p ea er = Inr e"
  shows "en_policy e = Some p" "en_enforceApprovals e = ea" "en_enforceRedirects e = er"
    and "sum_mapM (compileFileRule lib) (p_FileRules p) = Inr (en_fileRules e)"
    and "sum_mapM (compileNetworkRule lib) (p_NetworkRules p) = Inr (en_networkRules e)"
    and "sum_mapM (compileCommandRule lib) (p_CommandRules p) = Inr (en_commandRules e)"
    and "sum_mapM (compileUnixRule lib) (p_UnixRules p) = Inr (en_unixRules e)"
    and "\<exists>rs. sum_mapM (compileRegistryRule lib) (p_RegistryRules p) = Inr rs \<and>
           en_registryRules e = sort_key (\<lambda>r. - cg_priority r) rs"
    and "compile_all (\<lambda>pat. glob_Compile lib pat []) EnvAllowError (ep_Allow (p_EnvPolicy p)) = Inr (en_compiledEnvAllow e)"
    and "compile_all (\<lambda>pat. glob_Compile lib pat []) EnvDenyError (ep_Deny (p_EnvPolicy p)) = Inr (en_compiledEnvDeny e)"
    and "compileHTTPServices lib (p_HTTPServices p) = Inr (en_httpServices e, en_httpServiceHosts e)"
    and "en_hasRestrictiveCommandRule e \<longleftrightarrow> (\<exists>r \<in> set (en_commandRules e). isRestrictive (cr_Decision (cc_rule r)))"
    and "en_dnsRedirectRules e = map (\<lambda>r. \<lparr>cdr_rule = r, cdr_pattern = regexp_Compile lib (dr_Match r)\<rparr>) (p_DnsRedirectRules p)"
    and "en_connectRedirectRules e = map (\<lambda>r. \<lparr>cxr_rule = r, cxr_pattern = regexp_Compile lib (xr_Match r)\<rparr>) (p_ConnectRedirectRules p)"
    and "en_torChecker e = None" "en_threatStore e = None"
  using assms by (auto simp: NewEngine_def sum_bind_Inr_iff map_sum_def list_ex_iff split: sum.splits)

section \<open>A small policy for the examples\<close>

definition Policy0 :: Policy where
  "Policy0 =
     \<lparr>p_Version = 1, p_Name = ''example'', p_Description = [], p_FileRules = [], p_NetworkRules = [],
      p_CommandRules = [], p_UnixRules = [], p_RegistryRules = [], p_SignalRules = [], p_DnsRedirectRules = [],
      p_ConnectRedirectRules = [],
      p_ResourceLimits = \<lparr>rl_MaxMemoryMB = 0, rl_MemorySwapMaxMB = 0, rl_CPUQuotaPercent = 0, rl_DiskReadBpsMax = 0,
        rl_DiskWriteBpsMax = 0, rl_NetBandwidthMbps = 0, rl_PidsMax = 0, rl_CommandTimeout = 0,
        rl_SessionTimeout = 0, rl_IdleTimeout = 0\<rparr>,
      p_EnvPolicy = EnvPolicy0, p_EnvInject = None, p_HTTPServices = [], p_Metadata = [], p_PackageRules = [], p_Services = False, p_Providers = []\<rparr>"

definition command_rule :: "string \<Rightarrow> string list \<Rightarrow> string \<Rightarrow> CommandRule" where
  "command_rule name cmds dec =
     CommandRule0\<lparr>cr_Name := name, cr_Commands := cmds, cr_Decision := dec, cr_Context := DefaultContext\<rparr>"

text \<open>Shells are allowed, \<^verbatim>\<open>shutdown\<close> is denied, \<^verbatim>\<open>git\<close> is audited.\<close>

definition example_policy :: Policy where
  "example_policy = Policy0\<lparr>p_CommandRules :=
     [command_rule ''no-shutdown'' [''shutdown''] ''deny'', command_rule ''git'' [''git''] ''audit'',
      (command_rule ''shells'' [''sh'', ''bash''] ''allow'')\<lparr>cr_EnvDeny := [''BASH_ENV'']\<rparr>]\<rparr>"

definition example_engine :: Engine where
  "example_engine = (case NewEngine literal_lib example_policy True True of Inr e \<Rightarrow> e | Inl _ \<Rightarrow> undefined)"

text \<open>A Tor coordinator that denies every execution, onion name and connection.\<close>

definition example_verdict :: "string \<Rightarrow> TorVerdict" where
  "example_verdict target = \<lparr>tv_Vector = ''test'', tv_Mode = ''block'', tv_Decision = ''deny'', tv_Target = target\<rparr>"

definition example_tor :: TorChecker where
  "example_tor =
     \<lparr>EvalExecve = (\<lambda>f a. Some (example_verdict f)), EvalConnect = (\<lambda>ip p. Some (example_verdict [])),
      EvalOnionName = (\<lambda>h. Some (example_verdict h))\<rparr>"

end
