(* ===== verification/CommandCheck.thy ===== *)
theory CommandCheck
  imports PolicyEngine
begin

text \<open>
  \<^verbatim>\<open>internal/policy/engine.go\<close>: command rules. \<^verbatim>\<open>matchCommandRules\<close> is the first-match loop of the pre-check,
  \<^verbatim>\<open>checkCommand\<close> adds the inspection of \<^verbatim>\<open>sh -c\<close> scripts through \<^verbatim>\<open>internal/shellparse\<close>, and \<^verbatim>\<open>CheckExecve\<close> is
  the check made when a process really executes a file.
\<close>

section \<open>Matching one rule\<close>

definition noCommands :: "compiledCommandRule \<Rightarrow> bool" where
  "noCommands r \<longleftrightarrow> cc_basenames r = {} \<and> cc_basenameGlobs r = [] \<and> cc_fullPaths r = {} \<and> cc_pathGlobs r = []"

definition argsMatch :: "compiledCommandRule \<Rightarrow> string list \<Rightarrow> bool" where
  "argsMatch r args \<longleftrightarrow>
     (if cc_argsRegexes r \<noteq> [] then list_ex (\<lambda>re. re (Join args '' '')) (cc_argsRegexes r) else True)"

text \<open>The test of the pre-check: the base name is also tried without the suffix the shim installation
  adds.\<close>

definition commandMatched :: "compiledCommandRule \<Rightarrow> string \<Rightarrow> bool" where
  "commandMatched r command \<longleftrightarrow>
     (let cmdLower = ToLower command;
          cmdBase = ToLower (filepath_Base command);
          cmdBaseNorm = TrimSuffix cmdBase ''.real''
      in if noCommands r then True
         else if cmdLower \<in> cc_fullPaths r then True
         else if list_ex (\<lambda>g. g cmdLower \<or> g command) (cc_pathGlobs r) then True
         else if cmdBase \<in> cc_basenames r then True
         else if cmdBaseNorm \<noteq> cmdBase \<and> cmdBaseNorm \<in> cc_basenames r then True
         else list_ex (\<lambda>g. g cmdBase \<or> g (filepath_Base command) \<or> cmdBaseNorm \<noteq> cmdBase \<and> g cmdBaseNorm)
                (cc_basenameGlobs r))"

text \<open>The test of the execve check, without that suffix rule.\<close>

definition execveMatched :: "compiledCommandRule \<Rightarrow> string \<Rightarrow> bool" where
  "execveMatched r filename \<longleftrightarrow>
     (let cmdLower = ToLower filename;
          cmdBase = ToLower (filepath_Base filename)
      in if noCommands r then True
         else if cmdLower \<in> cc_fullPaths r then True
         else if list_ex (\<lambda>g. g cmdLower \<or> g filename) (cc_pathGlobs r) then True
         else if cmdBase \<in> cc_basenames r then True
         else list_ex (\<lambda>g. g cmdBase \<or> g (filepath_Base filename)) (cc_basenameGlobs r))"

definition commandRuleDecision :: "Engine \<Rightarrow> compiledCommandRule \<Rightarrow> Decision" where
  "commandRuleDecision e r =
     (wrapDecision e (cr_Decision (cc_rule r)) (cr_Name (cc_rule r)) (Text (cr_Message (cc_rule r)))
        (cr_RedirectTo (cc_rule r)))
     \<lparr>d_EnvPolicy := MergeEnvPolicy (engine_EnvPolicy (Some e)) (cc_rule r)\<rparr>"

definition defaultDenyCommand :: "Engine \<Rightarrow> string \<Rightarrow> Decision" where
  "defaultDenyCommand e name =
     (wrapDecision e ''deny'' name (Text []) None)
     \<lparr>d_EnvPolicy := MergeEnvPolicy (engine_EnvPolicy (Some e)) CommandRule0\<rparr>"

fun matchRules :: "Engine \<Rightarrow> compiledCommandRule list \<Rightarrow> string \<Rightarrow> string list \<Rightarrow> Decision \<times> bool" where
  "matchRules e [] command args = (defaultDenyCommand e ''default-deny-commands'', False)"
| "matchRules e (r # rs) command args =
     (if \<not> MatchesDepth (cr_Context (cc_rule r)) 0 then matchRules e rs command args
      else if \<not> commandMatched r command then matchRules e rs command args
      else if \<not> argsMatch r args then matchRules e rs command args
      else (commandRuleDecision e r, True))"

definition matchCommandRules :: "Engine \<Rightarrow> string \<Rightarrow> string list \<Rightarrow> Decision \<times> bool" where
  "matchCommandRules e command args = matchRules e (en_commandRules e) command args"

section \<open>checkCommand\<close>

datatype ShellCOpaqueMode = ShellCOpaqueEnforce | ShellCOpaqueAllow | ShellCOpaqueDeny

definition ParseShellCOpaqueMode :: "string \<Rightarrow> ShellCOpaqueMode" where
  "ParseShellCOpaqueMode s =
     (if s = ''allow'' then ShellCOpaqueAllow else if s = ''deny'' then ShellCOpaqueDeny else ShellCOpaqueEnforce)"

definition maxShellCDeriveDepth :: nat where
  "maxShellCDeriveDepth = 4"

definition decisionStrictness :: "types_Decision \<Rightarrow> nat" where
  "decisionStrictness d =
     (case d of
        DecisionDeny \<Rightarrow> 4
      | DecisionRedirect \<Rightarrow> 3
      | DecisionSoftDelete \<Rightarrow> 3
      | DecisionApprove \<Rightarrow> 2
      | DecisionAudit \<Rightarrow> 1
      | _ \<Rightarrow> 0)"

text \<open>A stricter decision replaces the result; audit and approve keep the environment policy of the
  result, since the outer command is what runs. The Go variable \<^verbatim>\<open>resultStrictness\<close> always is the strictness
  of \<^verbatim>\<open>result\<close>.\<close>

definition strictness :: "Decision \<Rightarrow> nat" where
  "strictness d = decisionStrictness (d_PolicyDecision d)"

definition tighten :: "Decision \<Rightarrow> Decision \<Rightarrow> Decision" where
  "tighten result dec =
     (if strictness dec > strictness result then
        (if d_PolicyDecision dec = DecisionAudit \<or> d_PolicyDecision dec = DecisionApprove
         then dec\<lparr>d_EnvPolicy := d_EnvPolicy result\<rparr> else dec)
      else result)"

definition notDerivable :: "Engine \<Rightarrow> bool \<Rightarrow> ShellCOpaqueMode \<Rightarrow> string \<Rightarrow> string list \<Rightarrow> Decision \<Rightarrow> Decision" where
  "notDerivable e execveActive opaqueMode cur curArgs result =
     (if IsShellCBypassAttempt cur curArgs then
        tighten result (wrapDecision e ''deny'' ''shellc-wrapper-bypass'' (BypassMessage (BypassReason cur curArgs)) None)
      else if en_hasRestrictiveCommandRule e \<and> IsOpaqueShellC cur curArgs then
        (case opaqueMode of
           ShellCOpaqueAllow \<Rightarrow> result
         | _ \<Rightarrow>
             if opaqueMode = ShellCOpaqueDeny \<or> \<not> execveActive then
               tighten result (wrapDecision e ''deny'' ''shellc-opaque-script'' (OpaqueMessage (OpaqueReason cur curArgs)) None)
             else result)
      else result)"

text \<open>The derivation loop with the number of rounds left; it returns the result and the invocation it
  stopped at.\<close>

fun deriveLoop :: "Engine \<Rightarrow> bool \<Rightarrow> ShellCOpaqueMode \<Rightarrow> nat \<Rightarrow> string \<Rightarrow> string list \<Rightarrow> Decision \<Rightarrow>
    Decision \<times> string \<times> string list" where
  "deriveLoop e execveActive opaqueMode 0 cur curArgs result = (result, cur, curArgs)"
| "deriveLoop e execveActive opaqueMode (Suc n) cur curArgs result =
     (case DerivePolicyTarget cur curArgs of
        None \<Rightarrow> (notDerivable e execveActive opaqueMode cur curArgs result, cur, curArgs)
      | Some (derivedCmd, derivedArgs) \<Rightarrow>
          (case matchCommandRules e derivedCmd derivedArgs of
             (dec, matched) \<Rightarrow>
               deriveLoop e execveActive opaqueMode n derivedCmd derivedArgs
                 (if matched then tighten result dec else result)))"

definition checkCommand :: "Engine \<Rightarrow> string \<Rightarrow> string list \<Rightarrow> bool \<Rightarrow> ShellCOpaqueMode \<Rightarrow> Decision" where
  "checkCommand e command args execveActive opaqueMode =
     (case deriveLoop e execveActive opaqueMode maxShellCDeriveDepth command args (fst (matchCommandRules e command args)) of
        (result, cur, curArgs) \<Rightarrow>
          (if DerivePolicyTarget cur curArgs \<noteq> None then
             tighten result
               (wrapDecision e ''deny'' ''shellc-depth-exceeded'' (Text ''nested shell-c chain exceeded max derivation depth'') None)
           else result))"

definition CheckCommand :: "Engine \<Rightarrow> string \<Rightarrow> string list \<Rightarrow> Decision" where
  "CheckCommand e command args = checkCommand e command args False ShellCOpaqueEnforce"

definition CheckCommandWithExecve :: "Engine \<Rightarrow> string \<Rightarrow> string list \<Rightarrow> bool \<Rightarrow> ShellCOpaqueMode \<Rightarrow> Decision" where
  "CheckCommandWithExecve e command args execveActive opaqueMode = checkCommand e command args execveActive opaqueMode"

section \<open>CheckExecve\<close>

fun execveRules :: "Engine \<Rightarrow> compiledCommandRule list \<Rightarrow> string \<Rightarrow> string list \<Rightarrow> int \<Rightarrow> Decision" where
  "execveRules e [] filename argv depth = defaultDenyCommand e ''default-deny-execve''"
| "execveRules e (r # rs) filename argv depth =
     (if \<not> MatchesDepth (cr_Context (cc_rule r)) depth then execveRules e rs filename argv depth
      else if \<not> execveMatched r filename then execveRules e rs filename argv depth
      else if \<not> argsMatch r argv then execveRules e rs filename argv depth
      else commandRuleDecision e r)"

definition torDeny :: "Engine \<Rightarrow> TorVerdict \<Rightarrow> Decision" where
  "torDeny e v = (wrapDecision e ''deny'' (''tor:'' @ tv_Vector v) (Text ''blocked by Tor policy'') None)\<lparr>d_Tor := Some v\<rparr>"

definition CheckExecve :: "Engine \<Rightarrow> string \<Rightarrow> string list \<Rightarrow> int \<Rightarrow> Decision" where
  "CheckExecve e filename argv depth =
     (case Option.bind (en_torChecker e) (\<lambda>tc. EvalExecve tc filename argv) of
        None \<Rightarrow> execveRules e (en_commandRules e) filename argv depth
      | Some v \<Rightarrow>
          if tv_Decision v = ''deny'' then
            (torDeny e v)\<lparr>d_EnvPolicy := MergeEnvPolicy (engine_EnvPolicy (Some e)) CommandRule0\<rparr>
          else (execveRules e (en_commandRules e) filename argv depth)\<lparr>d_Tor := Some v\<rparr>)"

section \<open>The first matching rule decides\<close>

definition command_rule_applies :: "compiledCommandRule \<Rightarrow> string \<times> string list \<Rightarrow> bool" where
  "command_rule_applies r q \<longleftrightarrow>
     MatchesDepth (cr_Context (cc_rule r)) 0 \<and> commandMatched r (fst q) \<and> argsMatch r (snd q)"

definition execve_rule_applies :: "compiledCommandRule \<Rightarrow> string \<times> string list \<times> int \<Rightarrow> bool" where
  "execve_rule_applies r q \<longleftrightarrow>
     MatchesDepth (cr_Context (cc_rule r)) (snd (snd q)) \<and> execveMatched r (fst q) \<and> argsMatch r (fst (snd q))"

interpretation precheck: first_match command_rule_applies "\<lambda>r q. (commandRuleDecision e r, True)"
    "\<lambda>q. (defaultDenyCommand e ''default-deny-commands'', False)"
    "\<lambda>rs q. matchRules e rs (fst q) (snd q)" for e
  by unfold_locales (auto simp: command_rule_applies_def)

interpretation execve: first_match execve_rule_applies "\<lambda>r q. commandRuleDecision e r"
    "\<lambda>q. defaultDenyCommand e ''default-deny-execve''"
    "\<lambda>rs q. execveRules e rs (fst q) (fst (snd q)) (snd (snd q))" for e
  by unfold_locales (auto simp: execve_rule_applies_def)

section \<open>Tightening and the derivation loop\<close>

lemma strictness_le: "strictness d \<le> 4"
  by (auto simp: strictness_def decisionStrictness_def split: types_Decision.split)

lemma strictness_deny: "4 \<le> strictness d \<longleftrightarrow> d_PolicyDecision d = DecisionDeny"
  by (auto simp: strictness_def decisionStrictness_def split: types_Decision.split)

lemma strictness_mk_deny [simp]: "strictness (mkDecision DecisionDeny ed rule msg) = 4"
  by (simp add: strictness_def decisionStrictness_def)

lemma strictness_env [simp]: "strictness (d\<lparr>d_EnvPolicy := env\<rparr>) = strictness d"
  by (simp add: strictness_def)

lemma strictness_tighten: "strictness (tighten r d) = max (strictness r) (strictness d)"
  by (auto simp: tighten_def max_def)

text \<open>The invocation reached after a number of derivations.\<close>

fun deriveN :: "nat \<Rightarrow> string \<times> string list \<Rightarrow> (string \<times> string list) option" where
  "deriveN 0 ca = Some ca"
| "deriveN (Suc n) ca = Option.bind (DerivePolicyTarget (fst ca) (snd ca)) (deriveN n)"

definition failsClosed :: "Engine \<Rightarrow> bool \<Rightarrow> ShellCOpaqueMode \<Rightarrow> string \<times> string list \<Rightarrow> bool" where
  "failsClosed e execveActive opaqueMode ca \<longleftrightarrow>
     DerivePolicyTarget (fst ca) (snd ca) = None \<and>
     (IsShellCBypassAttempt (fst ca) (snd ca) \<or>
      en_hasRestrictiveCommandRule e \<and> IsOpaqueShellC (fst ca) (snd ca) \<and>
      (opaqueMode = ShellCOpaqueDeny \<or> opaqueMode = ShellCOpaqueEnforce \<and> \<not> execveActive))"

lemma notDerivable_strictness:
  assumes "DerivePolicyTarget c a = None"
  shows "t \<le> strictness (notDerivable e act m c a res) \<longleftrightarrow> t \<le> strictness res \<or> t \<le> 4 \<and> failsClosed e act m (c, a)"
  using assms
  by (cases m) (auto simp: notDerivable_def failsClosed_def strictness_tighten max_def strictness_deny)

lemma deriveLoop_strictness:
  "t \<le> strictness (fst (deriveLoop e act m n c a res)) \<longleftrightarrow>
     t \<le> strictness res
     \<or> (\<exists>k < n. \<exists>c' a'. deriveN (Suc k) (c, a) = Some (c', a') \<and> snd (matchCommandRules e c' a') \<and>
          t \<le> strictness (fst (matchCommandRules e c' a')))
     \<or> (\<exists>k < n. \<exists>ca. deriveN k (c, a) = Some ca \<and> t \<le> 4 \<and> failsClosed e act m ca)"
proof (induction n arbitrary: c a res)
  case (Suc n)
  show ?case
  proof (cases "DerivePolicyTarget c a")
    case None
    then show ?thesis
      by (auto simp: notDerivable_strictness Ex_less_Suc2 failsClosed_def)
  next
    case (Some ca)
    obtain c1 a1 where ca: "ca = (c1, a1)" by (cases ca)
    obtain dec mt where mt: "matchCommandRules e c1 a1 = (dec, mt)" by fastforce
    have f0: "\<not> failsClosed e act m (c, a)" using Some by (simp add: failsClosed_def)
    show ?thesis
      using Some ca mt f0
      by (auto simp: Suc.IH Ex_less_Suc2 strictness_tighten max_def le_trans split: if_splits)
  qed
qed simp

lemma deriveLoop_final:
  "deriveLoop e act m n c a res = (r, c', a') \<Longrightarrow>
   DerivePolicyTarget c' a' \<noteq> None \<longleftrightarrow> deriveN (Suc n) (c, a) \<noteq> None"
proof (induction n arbitrary: c a res)
  case (Suc n)
  show ?case
  proof (cases "DerivePolicyTarget c a")
    case None
    with Suc.prems show ?thesis by auto
  next
    case (Some ca)
    obtain c1 a1 where ca: "ca = (c1, a1)" by (cases ca)
    with Suc.prems Some obtain res' where "deriveLoop e act m n c1 a1 res' = (r, c', a')"
      by (auto split: prod.splits)
    from Suc.IH [OF this] Some ca show ?thesis by simp
  qed
qed (auto simp: bind_eq_Some_conv)

lemma checkCommand_threshold:
  "t \<le> strictness (checkCommand e command args act m) \<longleftrightarrow>
     t \<le> strictness (fst (matchCommandRules e command args))
     \<or> (\<exists>k < maxShellCDeriveDepth. \<exists>c a. deriveN (Suc k) (command, args) = Some (c, a) \<and>
          snd (matchCommandRules e c a) \<and> t \<le> strictness (fst (matchCommandRules e c a)))
     \<or> t \<le> 4 \<and> ((\<exists>k < maxShellCDeriveDepth. \<exists>ca. deriveN k (command, args) = Some ca \<and> failsClosed e act m ca)
                  \<or> deriveN (Suc maxShellCDeriveDepth) (command, args) \<noteq> None)"
proof -
  obtain r c a where l: "deriveLoop e act m maxShellCDeriveDepth command args (fst (matchCommandRules e command args)) = (r, c, a)"
    by (metis prod_cases3)
  have "t \<le> strictness (checkCommand e command args act m) \<longleftrightarrow>
    t \<le> strictness r \<or> t \<le> 4 \<and> deriveN (Suc maxShellCDeriveDepth) (command, args) \<noteq> None"
    using deriveLoop_final [OF l] strictness_le [of r] by (auto simp: checkCommand_def l strictness_tighten)
  then show ?thesis
    using deriveLoop_strictness [of t e act m maxShellCDeriveDepth command args "fst (matchCommandRules e command args)"] l
    by auto
qed

section \<open>Invariants of the result\<close>

lemma consistent_tighten: "consistent e r \<Longrightarrow> consistent e d \<Longrightarrow> consistent e (tighten r d)"
  by (simp add: tighten_def)

lemma consistent_matchRules: "consistent e (fst (matchRules e rs command args))"
proof -
  have "(\<lambda>x. consistent e (fst x)) (matchRules e rs (fst (command, args)) (snd (command, args)))"
    by (rule precheck.all_decide) (simp_all add: commandRuleDecision_def defaultDenyCommand_def del: wrapDecision_deny)
  then show ?thesis by simp
qed

lemma consistent_notDerivable:
  assumes "consistent e r"
  shows "consistent e (notDerivable e act m c a r)"
  using assms consistent_wrap
  by (auto simp: notDerivable_def simp del: wrapDecision_deny intro!: consistent_tighten split: ShellCOpaqueMode.split)

lemma consistent_deriveLoop:
  "consistent e r \<Longrightarrow> consistent e (fst (deriveLoop e act m n c a r))"
proof (induction n arbitrary: c a r)
  case (Suc n)
  then show ?case
    using consistent_matchRules consistent_notDerivable consistent_tighten
    by (auto simp: matchCommandRules_def split: option.split prod.split) (metis fst_conv)
qed simp

text \<open>The environment policy of the outer invocation, as long as the outer invocation is what will run.\<close>

definition keeps_env :: "ResolvedEnvPolicy \<Rightarrow> Decision \<Rightarrow> bool" where
  "keeps_env env d \<longleftrightarrow> (strictness d \<le> 2 \<longrightarrow> d_EnvPolicy d = env)"

lemma strictness_low:
  "strictness d \<in> {1, 2} \<longleftrightarrow> d_PolicyDecision d = DecisionAudit \<or> d_PolicyDecision d = DecisionApprove"
  by (auto simp: strictness_def decisionStrictness_def split: types_Decision.split)

lemma keeps_env_tighten: "keeps_env env r \<Longrightarrow> keeps_env env (tighten r d)"
  using strictness_low [of d] by (auto simp: keeps_env_def tighten_def)

lemma keeps_env_notDerivable: "keeps_env env r \<Longrightarrow> keeps_env env (notDerivable e act m c a r)"
  by (auto simp: notDerivable_def intro!: keeps_env_tighten split: ShellCOpaqueMode.split)

lemma keeps_env_deriveLoop: "keeps_env env r \<Longrightarrow> keeps_env env (fst (deriveLoop e act m n c a r))"
  by (induction n arbitrary: c a r)
     (auto intro!: keeps_env_tighten keeps_env_notDerivable split: option.split prod.split)

section \<open>Properties\<close>

text \<open>C1: the pre-check denies a command exactly when the rules deny the command as given, or a rule
  explicitly denies a command that one to four derivations of \<^verbatim>\<open>sh -c\<close> scripts lead to, or one of the
  fail-closed conditions holds on the way: an unparsable wrapper, an opaque script where the mode asks
  for denial, or a chain that can be derived more than four times. A denial is effective.\<close>

theorem checkCommand_denies_iff:
  "(d_PolicyDecision (checkCommand e command args execveActive opaqueMode) = DecisionDeny \<longleftrightarrow>
      d_PolicyDecision (fst (matchCommandRules e command args)) = DecisionDeny
      \<or> (\<exists>k < maxShellCDeriveDepth. \<exists>c a. deriveN (Suc k) (command, args) = Some (c, a) \<and>
           snd (matchCommandRules e c a) \<and> d_PolicyDecision (fst (matchCommandRules e c a)) = DecisionDeny)
      \<or> (\<exists>k < maxShellCDeriveDepth. \<exists>ca. deriveN k (command, args) = Some ca \<and> failsClosed e execveActive opaqueMode ca)
      \<or> deriveN (Suc maxShellCDeriveDepth) (command, args) \<noteq> None)
   \<and> (d_PolicyDecision (checkCommand e command args execveActive opaqueMode) = DecisionDeny \<longleftrightarrow>
      d_EffectiveDecision (checkCommand e command args execveActive opaqueMode) = DecisionDeny)"
proof -
  have "consistent e (checkCommand e command args execveActive opaqueMode)"
    using consistent_deriveLoop [of e "fst (matchCommandRules e command args)" execveActive opaqueMode maxShellCDeriveDepth command args]
      consistent_matchRules consistent_wrap
    by (auto simp: checkCommand_def matchCommandRules_def simp del: wrapDecision_deny intro!: consistent_tighten split: prod.split)
  then show ?thesis
    using checkCommand_threshold [of 4 e command args execveActive opaqueMode]
    by (auto simp: strictness_deny consistent_def effective_def split: types_Decision.splits)
qed

text \<open>C4: inspection of shell scripts never loosens a decision: the result is at least as strict as the
  rules' decision on the command as given and as every rule explicitly matched by a command derived from
  it in at most four steps.\<close>

theorem checkCommand_never_loosens:
  assumes "deriveN k (command, args) = Some (c, a)" "k \<le> maxShellCDeriveDepth" "snd (matchCommandRules e c a)"
  shows "decisionStrictness (d_PolicyDecision (fst (matchCommandRules e c a)))
           \<le> decisionStrictness (d_PolicyDecision (checkCommand e command args execveActive opaqueMode))
    \<and> decisionStrictness (d_PolicyDecision (fst (matchCommandRules e command args)))
           \<le> decisionStrictness (d_PolicyDecision (checkCommand e command args execveActive opaqueMode))"
proof (cases k)
  case 0
  then show ?thesis
    using assms checkCommand_threshold [of "strictness (fst (matchCommandRules e command args))" e command args]
    by (simp add: strictness_def)
next
  case (Suc j)
  then show ?thesis
    using assms checkCommand_threshold [of "strictness (fst (matchCommandRules e command args))" e command args]
      checkCommand_threshold [of "strictness (fst (matchCommandRules e c a))" e command args] strictness_le
    by (auto simp: strictness_def Suc_le_eq)
qed

text \<open>when the pre-check lets the outer command run unchanged (allow, audit or approve), the decision
  carries the environment policy of the rule matched by the outer command, even if a stricter rule of an
  inner command decided.\<close>

lemma checkCommand_keeps_env_policy:
  assumes "d_PolicyDecision (checkCommand e command args execveActive opaqueMode) \<in> {DecisionAllow, DecisionAudit, DecisionApprove}"
  shows "d_EnvPolicy (checkCommand e command args execveActive opaqueMode) = d_EnvPolicy (fst (matchCommandRules e command args))"
proof -
  let ?out = "fst (matchCommandRules e command args)"
  have "keeps_env (d_EnvPolicy ?out) ?out" by (simp add: keeps_env_def)
  then have "keeps_env (d_EnvPolicy ?out) (checkCommand e command args execveActive opaqueMode)"
    using keeps_env_deriveLoop [of "d_EnvPolicy ?out" ?out e execveActive opaqueMode maxShellCDeriveDepth command args]
    by (auto simp: checkCommand_def intro!: keeps_env_tighten split: prod.split)
  then show ?thesis
    using assms by (auto simp: keeps_env_def strictness_def decisionStrictness_def)
qed

text \<open>without a Tor match, the check at execution time agrees with the pre-check for a directly executed
  file whose base name does not end in \<^verbatim>\<open>.real\<close>: same rule, same decision; only the name of the default
  denial differs.\<close>

lemma CheckExecve_agrees_with_precheck:
  assumes "\<not> HasSuffix (ToLower (filepath_Base command)) ''.real''"
    and "Option.bind (en_torChecker e) (\<lambda>tc. EvalExecve tc command args) = None"
  shows "CheckExecve e command args 0 =
    (if snd (matchCommandRules e command args) then fst (matchCommandRules e command args)
     else defaultDenyCommand e ''default-deny-execve'')"
proof -
  have "commandMatched r command = execveMatched r command" for r
    using assms(1) by (simp add: commandMatched_def execveMatched_def TrimSuffix_def)
  then have "execveRules e rs command args 0 =
      (if snd (matchRules e rs command args) then fst (matchRules e rs command args)
       else defaultDenyCommand e ''default-deny-execve'')" for rs
    by (induction rs) auto
  then show ?thesis
    using assms(2) by (simp add: CheckExecve_def matchCommandRules_def)
qed

text \<open>a Tor verdict of deny blocks an execution whatever the rules say, and any other verdict is only
  attached to the decision of the rules.\<close>

lemma CheckExecve_tor:
  assumes "en_torChecker e = Some tc" "EvalExecve tc filename argv = Some v"
  shows "d_Tor (CheckExecve e filename argv depth) = Some v
    \<and> (tv_Decision v = ''deny'' \<longrightarrow> d_EffectiveDecision (CheckExecve e filename argv depth) = DecisionDeny)
    \<and> (tv_Decision v \<noteq> ''deny'' \<longrightarrow>
         CheckExecve e filename argv depth = (CheckExecve (SetTorPolicy e None) filename argv depth)\<lparr>d_Tor := Some v\<rparr>)"
proof -
  let ?e = "SetTorPolicy e None"
  have w: "wrapDecision ?e = wrapDecision e"
    by (auto simp: fun_eq_iff wrapDecision_def SetTorPolicy_def Let_def split: types_Decision.split)
  have "commandRuleDecision ?e = commandRuleDecision e" "defaultDenyCommand ?e = defaultDenyCommand e"
    using w by (auto simp: fun_eq_iff commandRuleDecision_def defaultDenyCommand_def engine_EnvPolicy_def
        engine_policy_def SetTorPolicy_def)
  then have "execveRules ?e rs filename argv depth = execveRules e rs filename argv depth" for rs
    by (induction rs) auto
  then show ?thesis
    using assms by (simp add: CheckExecve_def torDeny_def) (simp add: SetTorPolicy_def)
qed

section \<open>Witnesses\<close>

theorem checkCommand_denies_iff_witness:
  "d_EffectiveDecision (checkCommand example_engine ''bash'' [''-c'', ''exec shutdown now''] True ShellCOpaqueAllow) = DecisionDeny"
proof -
  have "deriveN (Suc 0) (''bash'', [''-c'', ''exec shutdown now'']) = Some (''shutdown'', [''now''])" by code_simp
  moreover have "snd (matchCommandRules example_engine ''shutdown'' [''now''])" by code_simp
  moreover have "d_PolicyDecision (fst (matchCommandRules example_engine ''shutdown'' [''now''])) = DecisionDeny" by code_simp
  moreover have "0 < maxShellCDeriveDepth" by code_simp
  ultimately show ?thesis
    using checkCommand_denies_iff [of example_engine "''bash''" "[''-c'', ''exec shutdown now'']" True ShellCOpaqueAllow]
    by blast
qed

theorem checkCommand_never_loosens_witness:
  "1 \<le> decisionStrictness (d_PolicyDecision (checkCommand example_engine ''/bin/sh'' [''-c'', ''nohup git push''] False ShellCOpaqueEnforce))"
proof -
  have d: "deriveN 1 (''/bin/sh'', [''-c'', ''nohup git push'']) = Some (''git'', [''push''])" by code_simp
  have m: "snd (matchCommandRules example_engine ''git'' [''push''])" by code_simp
  have s: "decisionStrictness (d_PolicyDecision (fst (matchCommandRules example_engine ''git'' [''push'']))) = 1" by code_simp
  have "1 \<le> maxShellCDeriveDepth" by code_simp
  from checkCommand_never_loosens [OF d this m, of False ShellCOpaqueEnforce] s show ?thesis by simp
qed

lemma checkCommand_keeps_env_policy_witness:
  "re_Deny (d_EnvPolicy (checkCommand example_engine ''sh'' [''-c'', ''git push''] False ShellCOpaqueEnforce)) = [''BASH_ENV'']"
proof -
  have p: "d_PolicyDecision (checkCommand example_engine ''sh'' [''-c'', ''git push''] False ShellCOpaqueEnforce)
    \<in> {DecisionAllow, DecisionAudit, DecisionApprove}" by code_simp
  have "re_Deny (d_EnvPolicy (fst (matchCommandRules example_engine ''sh'' [''-c'', ''git push'']))) = [''BASH_ENV'']" by code_simp
  with checkCommand_keeps_env_policy [OF p] show ?thesis by simp
qed

lemma CheckExecve_agrees_with_precheck_witness:
  "d_Rule (CheckExecve example_engine ''/usr/bin/git'' [''git'', ''push''] 0) = ''git''"
proof -
  have 1: "\<not> HasSuffix (ToLower (filepath_Base ''/usr/bin/git'')) ''.real''" by code_simp
  have 2: "Option.bind (en_torChecker example_engine) (\<lambda>tc. EvalExecve tc ''/usr/bin/git'' [''git'', ''push'']) = None" by code_simp
  have 3: "snd (matchCommandRules example_engine ''/usr/bin/git'' [''git'', ''push''])"
    "d_Rule (fst (matchCommandRules example_engine ''/usr/bin/git'' [''git'', ''push''])) = ''git''" by code_simp+
  from CheckExecve_agrees_with_precheck [OF 1 2] 3 show ?thesis by simp
qed

lemma CheckExecve_tor_witness:
  "d_EffectiveDecision (CheckExecve (SetTorPolicy example_engine (Some example_tor)) ''/bin/sh'' [] 0) = DecisionDeny"
  using CheckExecve_tor [of "SetTorPolicy example_engine (Some example_tor)" example_tor "''/bin/sh''" "[]" "example_verdict ''/bin/sh''" 0]
  by (simp add: SetTorPolicy_def example_tor_def example_verdict_def)

section \<open>A bypass at the depth limit\<close>

text \<open>The script that runs a script under one more \<^verbatim>\<open>sh -c\<close>, with the quotes the tokenizer undoes.\<close>

definition requote :: "string \<Rightarrow> string" where
  "requote s = CHR 0x27 # concat (map (\<lambda>c. if c = CHR 0x27 then [CHR 0x27, CHR 0x22, CHR 0x27, CHR 0x22, CHR 0x27] else [c]) s) @ [CHR 0x27]"

definition nest :: "string \<Rightarrow> string" where
  "nest s = ''sh -c '' @ requote s"


end
