(* ===== verification/ResourceCheck.thy ===== *)
theory ResourceCheck
  imports PolicyEngine
begin

text \<open>
  \<^verbatim>\<open>internal/policy/engine.go\<close> and \<^verbatim>\<open>http_service_check.go\<close>: the checks of file operations, Unix sockets,
  registry keys, environment variables and HTTP service requests.
\<close>

section \<open>Files\<close>

definition isReadOperation :: "string \<Rightarrow> bool" where
  "isReadOperation op1 \<longleftrightarrow> op1 \<in> set [''open'', ''read'', ''stat'', ''list'', ''readlink'', ''access'']"

definition HasSoftDeleteFileRule :: "Engine \<Rightarrow> bool" where
  "HasSoftDeleteFileRule e = list_ex (\<lambda>r. to_Decision (ToLower (fr_Decision (cf_rule r))) = DecisionSoftDelete) (en_fileRules e)"

definition computeFileRedirect :: "string \<Rightarrow> string \<Rightarrow> string \<Rightarrow> bool \<Rightarrow> string \<Rightarrow> FileRedirectInfo" where
  "computeFileRedirect originalPath operation targetBase preserveTree msg =
     \<lparr>fri_OriginalPath = originalPath,
      fri_RedirectPath = (if preserveTree then filepath_Join [targetBase, originalPath]
                          else filepath_Join [targetBase, filepath_Base originalPath]),
      fri_Operation = operation, fri_Reason = msg\<rparr>"

definition fileRuleDecision :: "Engine \<Rightarrow> compiledFileRule \<Rightarrow> string \<Rightarrow> string \<Rightarrow> Decision" where
  "fileRuleDecision e r p operation =
     (let dec = wrapDecision e (fr_Decision (cf_rule r)) (fr_Name (cf_rule r)) (Text (fr_Message (cf_rule r))) None
      in if cf_redirectTo r \<noteq> [] \<and> d_PolicyDecision dec = DecisionRedirect
         then dec\<lparr>d_FileRedirect := Some (computeFileRedirect p operation (cf_redirectTo r) (cf_preserveTree r) (fr_Message (cf_rule r)))\<rparr>
         else dec)"

definition defaultFileDecision :: "Engine \<Rightarrow> string \<Rightarrow> Decision" where
  "defaultFileDecision e operation =
     (if isReadOperation operation then wrapDecision e ''allow'' ''default-allow-reads'' (Text []) None
      else wrapDecision e ''deny'' ''default-deny-files'' (Text []) None)"

fun fileRules :: "Engine \<Rightarrow> compiledFileRule list \<Rightarrow> string \<Rightarrow> string \<Rightarrow> Decision" where
  "fileRules e [] p operation = defaultFileDecision e operation"
| "fileRules e (r # rs) p operation =
     (if \<not> matchOp (cf_ops r) operation then fileRules e rs p operation
      else if list_ex (\<lambda>g. g p) (cf_globs r) then fileRuleDecision e r p operation
      else fileRules e rs p operation)"

definition CheckFile :: "Engine \<Rightarrow> string \<Rightarrow> string \<Rightarrow> Decision" where
  "CheckFile e p operation = fileRules e (en_fileRules e) p (ToLower operation)"

section \<open>Unix sockets\<close>

definition unixRuleDecision :: "Engine \<Rightarrow> compiledUnixRule \<Rightarrow> Decision" where
  "unixRuleDecision e r = wrapDecision e (ur_Decision (cu_rule r)) (ur_Name (cu_rule r)) (Text (ur_Message (cu_rule r))) None"

fun unixRules :: "Engine \<Rightarrow> compiledUnixRule list \<Rightarrow> string \<Rightarrow> string \<Rightarrow> Decision" where
  "unixRules e [] path operation = wrapDecision e ''deny'' ''default-deny-unix'' (Text []) None"
| "unixRules e (r # rs) path operation =
     (if \<not> matchOp (cu_ops r) operation then unixRules e rs path operation
      else if list_ex (\<lambda>g. g path) (cu_paths r) then unixRuleDecision e r
      else unixRules e rs path operation)"

definition CheckUnixSocket :: "Engine \<Rightarrow> string \<Rightarrow> string \<Rightarrow> Decision" where
  "CheckUnixSocket e path operation = unixRules e (en_unixRules e) path (ToLower (TrimSpace operation))"

section \<open>Registry keys\<close>

definition registryRuleDecision :: "Engine \<Rightarrow> compiledRegistryRule \<Rightarrow> Decision" where
  "registryRuleDecision e r = wrapDecision e (rr_Decision (cg_rule r)) (rr_Name (cg_rule r)) (Text (rr_Message (cg_rule r))) None"

fun registryRules :: "Engine \<Rightarrow> compiledRegistryRule list \<Rightarrow> string \<Rightarrow> string \<Rightarrow> Decision" where
  "registryRules e [] path operation = wrapDecision e ''deny'' ''default-deny-registry'' (Text []) None"
| "registryRules e (r # rs) path operation =
     (if \<not> matchOp (cg_ops r) operation then registryRules e rs path operation
      else if list_ex (\<lambda>g. g path \<or> g (ToUpper path)) (cg_globs r) then registryRuleDecision e r
      else registryRules e rs path operation)"

definition CheckRegistry :: "Engine \<Rightarrow> string \<Rightarrow> string \<Rightarrow> Decision" where
  "CheckRegistry e path operation =
     (if en_policy e = None then mkDecision DecisionAllow DecisionAllow [] (Text [])
      else registryRules e (en_registryRules e) path (ToLower operation))"

section \<open>Environment variables\<close>

record EnvDecision =
  ed_Allowed :: bool
  ed_MatchedBy :: string
  ed_Pattern :: string

text \<open>The first pattern that matches, with the text at the same position of the policy.\<close>

fun firstPattern :: "pattern list \<Rightarrow> string list \<Rightarrow> string \<Rightarrow> string option" where
  "firstPattern [] texts name = None"
| "firstPattern (g # gs) texts name =
     (if g name then Some (case texts of [] \<Rightarrow> [] | t # _ \<Rightarrow> t) else firstPattern gs (tl texts) name)"

definition CheckEnv :: "Engine option \<Rightarrow> string \<Rightarrow> EnvDecision" where
  "CheckEnv eo name =
     (case eo of
        None \<Rightarrow> \<lparr>ed_Allowed = True, ed_MatchedBy = ''default-allow'', ed_Pattern = []\<rparr>
      | Some e \<Rightarrow>
          (case en_policy e of
             None \<Rightarrow> \<lparr>ed_Allowed = True, ed_MatchedBy = ''default-allow'', ed_Pattern = []\<rparr>
           | Some p \<Rightarrow>
               (case firstPattern (en_compiledEnvDeny e) (ep_Deny (p_EnvPolicy p)) name of
                  Some pat \<Rightarrow> \<lparr>ed_Allowed = False, ed_MatchedBy = ''deny'', ed_Pattern = pat\<rparr>
                | None \<Rightarrow>
                    if en_compiledEnvAllow e = [] then
                      (if list_ex (\<lambda>secret. name = secret) defaultSecretDeny
                       then \<lparr>ed_Allowed = False, ed_MatchedBy = ''default-secret-deny'', ed_Pattern = name\<rparr>
                       else \<lparr>ed_Allowed = True, ed_MatchedBy = ''default-allow'', ed_Pattern = []\<rparr>)
                    else
                      (case firstPattern (en_compiledEnvAllow e) (ep_Allow (p_EnvPolicy p)) name of
                         Some pat \<Rightarrow> \<lparr>ed_Allowed = True, ed_MatchedBy = ''allow'', ed_Pattern = pat\<rparr>
                       | None \<Rightarrow> \<lparr>ed_Allowed = False, ed_MatchedBy = ''default-deny'', ed_Pattern = []\<rparr>))))"

section \<open>HTTP services\<close>

definition methodMatchesHTTPRule :: "compiledHTTPServiceRule \<Rightarrow> string \<Rightarrow> bool" where
  "methodMatchesHTTPRule r m \<longleftrightarrow>
     (if chr_methods r = {} then True else if ''*'' \<in> chr_methods r then True else m \<in> chr_methods r)"

definition pathMatchesHTTPRule :: "compiledHTTPServiceRule \<Rightarrow> string \<Rightarrow> bool" where
  "pathMatchesHTTPRule r p \<longleftrightarrow> list_ex (\<lambda>g. g p) (chr_paths r)"

definition httpRuleDecision :: "Engine \<Rightarrow> compiledHTTPServiceRule \<Rightarrow> Decision" where
  "httpRuleDecision e r = wrapDecision e (hr_Decision (chr_rule r)) (hr_Name (chr_rule r)) (Text (hr_Message (chr_rule r))) None"

fun httpRules :: "Engine \<Rightarrow> string \<Rightarrow> compiledHTTPServiceRule list \<Rightarrow> string \<Rightarrow> string \<Rightarrow> Decision" where
  "httpRules e defaultDecision [] m p =
     (if defaultDecision = ''allow'' then wrapDecision e ''allow'' ''default'' (Text []) None
      else wrapDecision e ''deny'' ''default'' (Text ''no rule matched'') None)"
| "httpRules e defaultDecision (r # rs) m p =
     (if \<not> methodMatchesHTTPRule r m then httpRules e defaultDecision rs m p
      else if \<not> pathMatchesHTTPRule r p then httpRules e defaultDecision rs m p
      else httpRuleDecision e r)"

definition CheckHTTPService :: "Engine \<Rightarrow> string \<Rightarrow> string \<Rightarrow> string \<Rightarrow> Decision" where
  "CheckHTTPService e service method reqPath0 =
     (case en_httpServices e (ToLower service) of
        None \<Rightarrow> wrapDecision e ''deny'' [] (Text ''unknown http_service'') None
      | Some cs \<Rightarrow>
          (let reqPath = (if reqPath0 = [] then ''/'' else reqPath0) in
           if Contains reqPath ''//'' then wrapDecision e ''deny'' [] (Text ''path traversal rejected'') None
           else if list_ex (\<lambda>seg. seg = ''.'' \<or> seg = ''..'') (Split (TrimPrefix reqPath ''/'') slash)
             then wrapDecision e ''deny'' [] (Text ''path traversal rejected'') None
           else
             (let matchPath = (if length reqPath > 1 \<and> HasSuffix reqPath ''/'' then TrimSuffix reqPath ''/'' else reqPath)
              in httpRules e (chs_defaultDecision cs) (chs_rules cs) (ToUpper method) matchPath)))"

definition DeclaredHTTPServiceHost :: "golib \<Rightarrow> Engine \<Rightarrow> string \<Rightarrow> (string \<times> string) option" where
  "DeclaredHTTPServiceHost lib e host =
     map_option (\<lambda>cs. (h_Name (chs_cfg cs), chs_envVar cs)) (lookupServiceHost lib (en_httpServiceHosts e) host)"

definition DeclaredHTTPServiceAllowsDirect :: "golib \<Rightarrow> Engine \<Rightarrow> string \<Rightarrow> bool" where
  "DeclaredHTTPServiceAllowsDirect lib e host =
     (case lookupServiceHost lib (en_httpServiceHosts e) host of None \<Rightarrow> False | Some cs \<Rightarrow> h_AllowDirect (chs_cfg cs))"

definition engine_HTTPServices :: "Engine option \<Rightarrow> HTTPService list" where
  "engine_HTTPServices e = (case engine_policy e of None \<Rightarrow> [] | Some p \<Rightarrow> p_HTTPServices p)"

section \<open>The first matching rule decides\<close>

definition file_rule_applies :: "compiledFileRule \<Rightarrow> string \<times> string \<Rightarrow> bool" where
  "file_rule_applies r q \<longleftrightarrow> matchOp (cf_ops r) (snd q) \<and> list_ex (\<lambda>g. g (fst q)) (cf_globs r)"

definition unix_rule_applies :: "compiledUnixRule \<Rightarrow> string \<times> string \<Rightarrow> bool" where
  "unix_rule_applies r q \<longleftrightarrow> matchOp (cu_ops r) (snd q) \<and> list_ex (\<lambda>g. g (fst q)) (cu_paths r)"

definition registry_rule_applies :: "compiledRegistryRule \<Rightarrow> string \<times> string \<Rightarrow> bool" where
  "registry_rule_applies r q \<longleftrightarrow>
     matchOp (cg_ops r) (snd q) \<and> list_ex (\<lambda>g. g (fst q) \<or> g (ToUpper (fst q))) (cg_globs r)"

definition http_rule_applies :: "compiledHTTPServiceRule \<Rightarrow> string \<times> string \<Rightarrow> bool" where
  "http_rule_applies r q \<longleftrightarrow> methodMatchesHTTPRule r (fst q) \<and> pathMatchesHTTPRule r (snd q)"

interpretation filechk: first_match file_rule_applies "\<lambda>r q. fileRuleDecision e r (fst q) (snd q)"
    "\<lambda>q. defaultFileDecision e (snd q)" "\<lambda>rs q. fileRules e rs (fst q) (snd q)" for e
  by unfold_locales (auto simp: file_rule_applies_def)

interpretation unixchk: first_match unix_rule_applies "\<lambda>r q. unixRuleDecision e r"
    "\<lambda>q. wrapDecision e ''deny'' ''default-deny-unix'' (Text []) None" "\<lambda>rs q. unixRules e rs (fst q) (snd q)" for e
  by unfold_locales (auto simp: unix_rule_applies_def)

interpretation regchk: first_match registry_rule_applies "\<lambda>r q. registryRuleDecision e r"
    "\<lambda>q. wrapDecision e ''deny'' ''default-deny-registry'' (Text []) None" "\<lambda>rs q. registryRules e rs (fst q) (snd q)" for e
  by unfold_locales (auto simp: registry_rule_applies_def)

interpretation httpchk: first_match http_rule_applies "\<lambda>r q. httpRuleDecision e r"
    "\<lambda>q. if dflt = ''allow'' then wrapDecision e ''allow'' ''default'' (Text []) None
         else wrapDecision e ''deny'' ''default'' (Text ''no rule matched'') None"
    "\<lambda>rs q. httpRules e dflt rs (fst q) (snd q)" for e dflt
  by unfold_locales (auto simp: http_rule_applies_def)

section \<open>Well-formed decisions\<close>

lemma consistent_fileRule: "consistent e (fileRuleDecision e r p operation)"
  by (simp add: fileRuleDecision_def Let_def)

lemma consistent_mk_allow_deny:
  "consistent e (mkDecision DecisionAllow DecisionAllow r m)" "consistent e (mkDecision DecisionDeny DecisionDeny r m)"
  by (simp_all add: consistent_def effective_def)

lemma consistent_CheckFile: "consistent e (CheckFile e p operation)"
  using filechk.all_decide [where Q = "consistent e" and q = "(p, ToLower operation)" and rs = "en_fileRules e"]
  by (simp add: CheckFile_def consistent_fileRule defaultFileDecision_def consistent_mk_allow_deny)

lemma consistent_CheckUnixSocket: "consistent e (CheckUnixSocket e p operation)"
  using unixchk.all_decide [where Q = "consistent e" and q = "(p, ToLower (TrimSpace operation))" and rs = "en_unixRules e"]
  by (simp add: CheckUnixSocket_def unixRuleDecision_def consistent_mk_allow_deny)

lemma consistent_CheckRegistry: "consistent e (CheckRegistry e p operation)"
  using regchk.all_decide [where Q = "consistent e" and q = "(p, ToLower operation)" and rs = "en_registryRules e"]
  by (simp add: CheckRegistry_def registryRuleDecision_def consistent_mk_allow_deny)

lemma consistent_httpRules: "consistent e (httpRules e dflt rs m p)"
  using httpchk.all_decide [where Q = "consistent e" and q = "(m, p)" and rs = rs]
  by (simp add: httpRuleDecision_def consistent_mk_allow_deny)

lemma consistent_CheckHTTPService: "consistent e (CheckHTTPService e s m p)"
  by (simp add: CheckHTTPService_def Let_def consistent_httpRules consistent_mk_allow_deny split: option.split)

text \<open>C29: every decision of the file, socket, registry and HTTP checks is well formed: its policy decision
  is one of the six known ones, its effective decision is the one the enforcement settings give to that
  policy decision, and it carries approval data exactly when it asks for approval.\<close>

theorem resource_decisions_well_formed:
  "consistent e (CheckFile e p operation) \<and> consistent e (CheckUnixSocket e p operation)
   \<and> consistent e (CheckRegistry e p operation) \<and> consistent e (CheckHTTPService e service method p)"
  using consistent_CheckFile consistent_CheckUnixSocket consistent_CheckRegistry consistent_CheckHTTPService by blast

section \<open>Properties\<close>

lemma compileFileRuleD:
  assumes "compileFileRule lib r = Inr c"
  shows "cf_rule c = r" "cf_ops c = op_set (fr_Operations r)" "cf_redirectTo c = fr_RedirectTo r"
    "cf_preserveTree c = fr_PreserveTree r"
    "(\<exists>g \<in> set (cf_globs c). g p) \<longleftrightarrow> (\<exists>pat \<in> set (fr_Paths r). \<exists>g. glob_Compile lib pat ''/'' = Some g \<and> g p)"
proof -
  obtain gs where gs: "compile_all (\<lambda>p. glob_Compile lib p ''/'') (FileGlobError (fr_Name r)) (fr_Paths r) = Inr gs"
    and c: "c = \<lparr>cf_rule = r, cf_globs = gs, cf_ops = op_set (fr_Operations r), cf_redirectTo = fr_RedirectTo r,
      cf_preserveTree = fr_PreserveTree r\<rparr>"
    using assms by (auto simp: compileFileRule_def sum_bind_Inr_iff)
  show "cf_rule c = r" "cf_ops c = op_set (fr_Operations r)" "cf_redirectTo c = fr_RedirectTo r"
    "cf_preserveTree c = fr_PreserveTree r" by (simp_all add: c)
  show "(\<exists>g \<in> set (cf_globs c). g p) \<longleftrightarrow> (\<exists>pat \<in> set (fr_Paths r). \<exists>g. glob_Compile lib pat ''/'' = Some g \<and> g p)"
    using compile_all_set [OF gs] by (auto simp: c Bex_def)
qed

text \<open>Whether a source rule applies to a path and an operation in lower case.\<close>

definition source_file_rule_applies :: "golib \<Rightarrow> FileRule \<Rightarrow> string \<Rightarrow> string \<Rightarrow> bool" where
  "source_file_rule_applies lib r p operation \<longleftrightarrow>
     (fr_Operations r = [] \<or> ''*'' \<in> set (fr_Operations r) \<or> operation \<in> set (map ToLower (fr_Operations r))) \<and>
     (\<exists>pat \<in> set (fr_Paths r). \<exists>g. glob_Compile lib pat ''/'' = Some g \<and> g p)"

lemma ToLower_star: "ToLower s = ''*'' \<longleftrightarrow> s = ''*''"
proof
  assume "ToLower s = ''*''"
  then obtain c where c: "s = [c]" "ascii_lower c = CHR ''*''" by (auto simp: ToLower_def)
  then show "s = ''*''" by (auto simp: ascii_lower_def is_upper_def split: if_splits dest: arg_cong [where f = byte])
qed (simp add: ToLower_def ascii_lower_def is_upper_def)

lemma matchOp_op_set:
  "matchOp (op_set ops) op1 \<longleftrightarrow> ops = [] \<or> ''*'' \<in> set ops \<or> op1 \<in> set (map ToLower ops)"
proof -
  have "''*'' \<in> ToLower ` set ops \<longleftrightarrow> ''*'' \<in> set ops" by (metis ToLower_star image_iff)
  then show ?thesis by (simp add: matchOp_def op_set_def)
qed

lemma file_rule_applies_source:
  "compileFileRule lib r = Inr c \<Longrightarrow> file_rule_applies c (p, operation) \<longleftrightarrow> source_file_rule_applies lib r p operation"
  using compileFileRuleD(1-4) [of lib r c] compileFileRuleD(5) [of lib r c p]
  by (simp add: file_rule_applies_def source_file_rule_applies_def matchOp_op_set list_ex_iff)

text \<open>C30: an engine built from a policy decides a file operation by the first file rule of the policy whose
  operations include it and one of whose patterns matches the path; without such a rule reads are allowed
  and every other operation is denied.\<close>

theorem CheckFile_first_rule:
  assumes "NewEngine lib p ea er = Inr e"
  shows "(\<exists>i < length (p_FileRules p). source_file_rule_applies lib (p_FileRules p ! i) path (ToLower operation)
            \<and> (\<forall>j < i. \<not> source_file_rule_applies lib (p_FileRules p ! j) path (ToLower operation))
            \<and> d_PolicyDecision (CheckFile e path operation) =
                (case to_Decision (ToLower (fr_Decision (p_FileRules p ! i))) of OtherDecision _ \<Rightarrow> DecisionDeny | d \<Rightarrow> d))
       \<or> (\<forall>i < length (p_FileRules p). \<not> source_file_rule_applies lib (p_FileRules p ! i) path (ToLower operation))
          \<and> d_EffectiveDecision (CheckFile e path operation) =
              (if isReadOperation (ToLower operation) then DecisionAllow else DecisionDeny)"
proof -
  have c: "length (en_fileRules e) = length (p_FileRules p)"
    "i < length (p_FileRules p) \<Longrightarrow> compileFileRule lib (p_FileRules p ! i) = Inr (en_fileRules e ! i)" for i
    using NewEngineD(4) [OF assms] by (auto simp: sum_mapM_Inr_iff list_all2_conv_all_nth)
  note app = file_rule_applies_source [OF c(2)]
  from filechk.outcome_nth [of "en_fileRules e" "(path, ToLower operation)" e] show ?thesis
  proof
    assume "\<exists>i < length (en_fileRules e). file_rule_applies (en_fileRules e ! i) (path, ToLower operation)
      \<and> (\<forall>j < i. \<not> file_rule_applies (en_fileRules e ! j) (path, ToLower operation))
      \<and> fileRules e (en_fileRules e) (fst (path, ToLower operation)) (snd (path, ToLower operation)) =
          fileRuleDecision e (en_fileRules e ! i) (fst (path, ToLower operation)) (snd (path, ToLower operation))"
    then obtain i where i: "i < length (p_FileRules p)" "file_rule_applies (en_fileRules e ! i) (path, ToLower operation)"
      "\<forall>j < i. \<not> file_rule_applies (en_fileRules e ! j) (path, ToLower operation)"
      "CheckFile e path operation = fileRuleDecision e (en_fileRules e ! i) path (ToLower operation)"
      using c(1) by (auto simp: CheckFile_def)
    have "d_PolicyDecision (CheckFile e path operation) =
        (case to_Decision (ToLower (fr_Decision (p_FileRules p ! i))) of OtherDecision _ \<Rightarrow> DecisionDeny | d \<Rightarrow> d)"
      using compileFileRuleD(1) [OF c(2) [OF i(1)]] i(4)
      by (simp add: fileRuleDecision_def Let_def wrapDecision_policy)
    then show ?thesis using i app by (intro disjI1 exI [of _ i]) auto
  next
    assume "(\<forall>i < length (en_fileRules e). \<not> file_rule_applies (en_fileRules e ! i) (path, ToLower operation)) \<and>
      fileRules e (en_fileRules e) (fst (path, ToLower operation)) (snd (path, ToLower operation)) =
        defaultFileDecision e (snd (path, ToLower operation))"
    then show ?thesis using app c(1) by (auto simp: CheckFile_def defaultFileDecision_def)
  qed
qed


lemma NewEngine_registry_sorted:
  "NewEngine lib p ea er = Inr e \<Longrightarrow> sorted_wrt (\<lambda>a b. cg_priority a \<ge> cg_priority b) (en_registryRules e)"
proof -
  assume "NewEngine lib p ea er = Inr e"
  from NewEngineD(8) [OF this] obtain rs where "en_registryRules e = sort_key (\<lambda>r. - cg_priority r) rs" by blast
  moreover have "sorted (map (\<lambda>r. - cg_priority r) (sort_key (\<lambda>r. - cg_priority r) rs))" by simp
  ultimately show ?thesis by (simp add: sorted_map)
qed

text \<open>whatever order \<^verbatim>\<open>sort.Slice\<close> leaves between rules of the same priority, a registry access is decided
  by an applicable rule of the highest priority among the applicable rules, and denied when none applies.\<close>

lemma CheckRegistry_priority:
  assumes "NewEngine lib p ea er = Inr e"
    and "mset rs = mset (en_registryRules e)" "sorted_wrt (\<lambda>a b. cg_priority a \<ge> cg_priority b) rs"
  shows "(\<exists>r \<in> set (en_registryRules e). registry_rule_applies r (path, ToLower operation)
            \<and> (\<forall>r' \<in> set (en_registryRules e). registry_rule_applies r' (path, ToLower operation) \<longrightarrow> cg_priority r' \<le> cg_priority r)
            \<and> CheckRegistry (e\<lparr>en_registryRules := rs\<rparr>) path operation = registryRuleDecision e r)
       \<or> (\<forall>r \<in> set (en_registryRules e). \<not> registry_rule_applies r (path, ToLower operation))
          \<and> d_EffectiveDecision (CheckRegistry (e\<lparr>en_registryRules := rs\<rparr>) path operation) = DecisionDeny"
proof -
  let ?e = "e\<lparr>en_registryRules := rs\<rparr>" and ?q = "(path, ToLower operation)"
  have s: "set rs = set (en_registryRules e)" using assms(2) by (metis set_mset_mset)
  have w: "registryRuleDecision ?e = registryRuleDecision e"
    by (auto simp: fun_eq_iff registryRuleDecision_def wrapDecision_def Let_def split: types_Decision.split)
  have chk: "CheckRegistry ?e path operation = registryRules ?e rs (fst ?q) (snd ?q)"
    using NewEngineD(1) [OF assms(1)] by (simp add: CheckRegistry_def)
  from regchk.outcome [of rs ?q ?e] show ?thesis
  proof
    assume "\<exists>pre r post. rs = pre @ r # post \<and> registry_rule_applies r ?q \<and> (\<forall>p \<in> set pre. \<not> registry_rule_applies p ?q)
      \<and> registryRules ?e rs (fst ?q) (snd ?q) = registryRuleDecision ?e r"
    then obtain pre r post where r: "rs = pre @ r # post" "registry_rule_applies r ?q"
      "\<forall>p \<in> set pre. \<not> registry_rule_applies p ?q" "CheckRegistry ?e path operation = registryRuleDecision e r"
      using w chk by auto
    have "cg_priority r' \<le> cg_priority r" if "r' \<in> set rs" "registry_rule_applies r' ?q" for r'
      using that r(1,3) assms(3) by (auto simp: sorted_wrt_append)
    then show ?thesis using r s by (intro disjI1 bexI [of _ r]) auto
  qed (use s chk in auto)
qed

section \<open>Environment checks agree with the environment that is built\<close>

text \<open>Names without the metacharacters of the glob syntax, which match only themselves.\<close>

definition glob_literal :: "string \<Rightarrow> bool" where
  "glob_literal s \<longleftrightarrow> \<not> ContainsAny s [CHR ''*'', CHR ''?'', CHR ''['', CHR '']'', CHR ''{'', CHR ''}'', CHR ''!'', CHR 0x5C, CHR '','']"

lemma firstPattern_iff: "firstPattern gs texts name \<noteq> None \<longleftrightarrow> (\<exists>g \<in> set gs. g name)"
  by (induction gs texts name rule: firstPattern.induct) auto

lemma CheckEnv_allowed:
  assumes "en_policy e = Some p"
  shows "ed_Allowed (CheckEnv (Some e) name) \<longleftrightarrow>
    \<not> (\<exists>g \<in> set (en_compiledEnvDeny e). g name) \<and>
    (if en_compiledEnvAllow e = [] then name \<notin> set defaultSecretDeny
     else (\<exists>g \<in> set (en_compiledEnvAllow e). g name))"
  using assms firstPattern_iff [of "en_compiledEnvDeny e" "ep_Deny (p_EnvPolicy p)" name]
    firstPattern_iff [of "en_compiledEnvAllow e" "ep_Allow (p_EnvPolicy p)" name]
  by (auto simp: CheckEnv_def list_ex_iff split: option.splits)

text \<open>C32: the check of a single variable agrees with the environment \<^verbatim>\<open>BuildEnv\<close> makes under the policy
  without a rule override: a variable with a literal name is allowed by the one iff it passes the filter
  of the other, for every pattern library in which a literal pattern matches its own text.\<close>

theorem CheckEnv_agrees_with_BuildEnv:
  assumes "NewEngine lib p ea er = Inr e"
    and "\<And>pat g. glob_literal pat \<Longrightarrow> glob_Compile lib pat [] = Some g \<Longrightarrow> g pat"
    and "glob_literal name"
  shows "ed_Allowed (CheckEnv (Some e) name) \<longleftrightarrow>
    env_isAllowed (\<lambda>pat. glob_Compile lib pat []) (MergeEnvPolicy (p_EnvPolicy p) CommandRule0) name"
proof -
  let ?C = "\<lambda>pat. glob_Compile lib pat []"
  have all: "(\<exists>g \<in> set gs. g name) \<longleftrightarrow> name \<in> set pats \<or> (\<exists>pat \<in> set pats. \<exists>g. ?C pat = Some g \<and> g name)"
    "gs = [] \<longleftrightarrow> pats = []"
    if "compile_all ?C err pats = Inr gs" for err :: "string \<Rightarrow> engine_error" and pats gs
  proof -
    have "\<exists>g. ?C name = Some g \<and> g name" if "name \<in> set pats"
      using that assms(2) [OF assms(3)] \<open>compile_all ?C err pats = Inr gs\<close>
      by (force simp: compile_all_Inr_iff list_all2_conv_all_nth in_set_conv_nth)
    then show "(\<exists>g \<in> set gs. g name) \<longleftrightarrow> name \<in> set pats \<or> (\<exists>pat \<in> set pats. \<exists>g. ?C pat = Some g \<and> g name)"
      using compile_all_set [OF that] by metis
    show "gs = [] \<longleftrightarrow> pats = []"
      using that by (auto simp: compile_all_Inr_iff)
  qed
  note allow = all [OF NewEngineD(9) [OF assms(1)]] and deny = all [OF NewEngineD(10) [OF assms(1)]]
  show ?thesis
    unfolding CheckEnv_allowed [OF NewEngineD(1) [OF assms(1)]] env_isAllowed_def env_isDenied_def
      matchesAnyPattern_compile allow deny
    by (simp add: MergeEnvPolicy_def CommandRule0_def list_ex_iff) blast
qed

section \<open>HTTP requests\<close>

text \<open>The path the rules see: the root for an empty path, and one trailing slash stripped.\<close>

definition http_match_path :: "string \<Rightarrow> string" where
  "http_match_path path =
     (if path = [] then ''/''
      else if length path > 1 \<and> HasSuffix path ''/'' then TrimSuffix path ''/'' else path)"

text \<open>C33: the HTTP gateway lets a request through only for a declared service and a path without a double
  slash and without \<^verbatim>\<open>.\<close> or \<^verbatim>\<open>..\<close> segments, and then the decision is that of the first rule matching method and
  path, or no rule matches and the service's default is allow.\<close>

theorem CheckHTTPService_guards:
  assumes "d_EffectiveDecision (CheckHTTPService e service method path) \<noteq> DecisionDeny"
  shows "\<exists>cs. en_httpServices e (ToLower service) = Some cs \<and> \<not> Contains path ''//'' \<and>
    (\<forall>seg \<in> set (Split (TrimPrefix path ''/'') slash). seg \<noteq> ''.'' \<and> seg \<noteq> ''..'') \<and>
    ((\<exists>i < length (chs_rules cs). http_rule_applies (chs_rules cs ! i) (ToUpper method, http_match_path path)
        \<and> (\<forall>j < i. \<not> http_rule_applies (chs_rules cs ! j) (ToUpper method, http_match_path path))
        \<and> CheckHTTPService e service method path = httpRuleDecision e (chs_rules cs ! i))
     \<or> (\<forall>i < length (chs_rules cs). \<not> http_rule_applies (chs_rules cs ! i) (ToUpper method, http_match_path path))
        \<and> chs_defaultDecision cs = ''allow'')"
proof -
  obtain cs where cs: "en_httpServices e (ToLower service) = Some cs"
    using assms by (auto simp: CheckHTTPService_def split: option.splits)
  let ?p = "if path = [] then ''/'' else path" and ?q = "(ToUpper method, http_match_path path)"
  have g: "\<not> Contains ?p ''//''" "\<not> list_ex (\<lambda>seg. seg = ''.'' \<or> seg = ''..'') (Split (TrimPrefix ?p ''/'') slash)"
    using assms cs by (auto simp: CheckHTTPService_def Let_def split: if_splits)
  have chk: "CheckHTTPService e service method path =
      httpRules e (chs_defaultDecision cs) (chs_rules cs) (fst ?q) (snd ?q)"
    using cs g by (cases "path = []") (simp_all add: CheckHTTPService_def Let_def http_match_path_def)
  have "chs_defaultDecision cs = ''allow''" if "\<forall>i < length (chs_rules cs). \<not> http_rule_applies (chs_rules cs ! i) ?q"
    using assms httpchk.none [of "chs_rules cs" ?q e "chs_defaultDecision cs"] that
    by (auto simp: chk all_set_conv_all_nth wrapDecision_effective split: if_splits)
  then have "(\<exists>i < length (chs_rules cs). http_rule_applies (chs_rules cs ! i) ?q
        \<and> (\<forall>j < i. \<not> http_rule_applies (chs_rules cs ! j) ?q)
        \<and> CheckHTTPService e service method path = httpRuleDecision e (chs_rules cs ! i))
     \<or> (\<forall>i < length (chs_rules cs). \<not> http_rule_applies (chs_rules cs ! i) ?q) \<and> chs_defaultDecision cs = ''allow''"
    using httpchk.outcome_nth [of "chs_rules cs" ?q e "chs_defaultDecision cs"] chk by auto
  with cs g show ?thesis
    by (auto simp: list_ex_iff TrimPrefix_def HasPrefix_def split: if_splits)
qed

section \<open>Witnesses\<close>

definition resource_policy :: Policy where
  "resource_policy = Policy0\<lparr>
     p_FileRules := [\<lparr>fr_Name = ''tmp'', fr_Description = [], fr_Paths = [''/tmp/*''], fr_Operations = [''Write''],
       fr_Decision = ''ALLOW'', fr_Message = [], fr_Timeout = 0, fr_RedirectTo = [], fr_PreserveTree = False\<rparr>],
     p_RegistryRules := [\<lparr>rr_Name = ''low'', rr_Description = [], rr_Paths = [''HK*''], rr_Operations = [], rr_Decision = ''allow'',
       rr_Message = [], rr_Timeout = 0, rr_Priority = 1, rr_CacheTTL = 0, rr_Notify = False\<rparr>,
       \<lparr>rr_Name = ''high'', rr_Description = [], rr_Paths = [''HKLM*''], rr_Operations = [], rr_Decision = ''deny'',
       rr_Message = [], rr_Timeout = 0, rr_Priority = 9, rr_CacheTTL = 0, rr_Notify = False\<rparr>],
     p_EnvPolicy := EnvPolicy0\<lparr>ep_Allow := [''PATH'', ''LC_*''], ep_Deny := [''LC_X'']\<rparr>,
     p_HTTPServices := [example_service\<lparr>h_Rules := [\<lparr>hr_Name = ''read'', hr_Methods = [''get''], hr_Paths = [''/repos*''],
       hr_Decision = ''allow'', hr_Message = [], hr_Timeout = 0\<rparr>]\<rparr>]\<rparr>"

definition resource_engine :: Engine where
  "resource_engine = (case NewEngine literal_lib resource_policy True True of Inr e \<Rightarrow> e | Inl _ \<Rightarrow> undefined)"

lemma resource_engine_ok: "NewEngine literal_lib resource_policy True True = Inr resource_engine"
proof (cases "NewEngine literal_lib resource_policy True True")
  case (Inl x)
  have "\<not> isl (NewEngine literal_lib resource_policy True True)" by code_simp
  with Inl show ?thesis by simp
qed (simp add: resource_engine_def)

theorem CheckFile_first_rule_witness:
  "d_PolicyDecision (CheckFile resource_engine ''/tmp/x'' ''write'') = DecisionAllow"
proof -
  have m: "source_file_rule_applies literal_lib (p_FileRules resource_policy ! 0) ''/tmp/x'' (ToLower ''write'')"
  proof -
    have "literal_pattern ''/tmp/*'' ''/tmp/x''" "ToLower ''write'' = ToLower ''Write''" by code_simp+
    then show ?thesis by (simp add: source_file_rule_applies_def resource_policy_def literal_lib_def)
  qed
  have d: "to_Decision (ToLower (fr_Decision (p_FileRules resource_policy ! 0))) = DecisionAllow" by code_simp
  have l: "length (p_FileRules resource_policy) = 1" by (simp add: resource_policy_def)
  from CheckFile_first_rule [OF resource_engine_ok, of "''/tmp/x''" "''write''"] m d l show ?thesis by auto
qed


lemma CheckRegistry_priority_witness:
  "d_Rule (CheckRegistry (resource_engine\<lparr>en_registryRules := en_registryRules resource_engine\<rparr>) ''HKLM/X'' ''read'') = ''high''"
proof -
  have 1: "map (\<lambda>r. (cg_priority r, registry_rule_applies r (''HKLM/X'', ToLower ''read''), rr_Name (cg_rule r), rr_Decision (cg_rule r)))
     (en_registryRules resource_engine) = [(9, True, ''high'', ''deny''), (1, True, ''low'', ''allow'')]" by code_simp
  then obtain a b where ab: "en_registryRules resource_engine = [a, b]" "cg_priority a = 9" "cg_priority b = 1"
    "registry_rule_applies a (''HKLM/X'', ToLower ''read'')" "rr_Name (cg_rule a) = ''high''" "rr_Decision (cg_rule a) = ''deny''"
    by (auto simp: map_eq_Cons_conv)
  from CheckRegistry_priority [OF resource_engine_ok refl NewEngine_registry_sorted [OF resource_engine_ok],
      of "''HKLM/X''" "''read''"] ab
  show ?thesis by (auto simp: registryRuleDecision_def)
qed

theorem CheckEnv_agrees_with_BuildEnv_witness:
  "ed_Allowed (CheckEnv (Some resource_engine) ''LC_ALL'') \<longleftrightarrow>
    env_isAllowed (\<lambda>pat. glob_Compile literal_lib pat []) (MergeEnvPolicy (p_EnvPolicy resource_policy) CommandRule0) ''LC_ALL''"
proof (rule CheckEnv_agrees_with_BuildEnv [OF resource_engine_ok])
  fix pat g
  assume "glob_literal pat" and g: "glob_Compile literal_lib pat [] = Some g"
  then have "\<not> HasSuffix pat ''*''"
    by (auto simp: glob_literal_def ContainsAny_def HasSuffix_iff)
  with g show "g pat" by (auto simp: literal_lib_def literal_pattern_def)
next
  show "glob_literal ''LC_ALL''" by code_simp
qed

theorem CheckHTTPService_guards_witness:
  "\<exists>cs. en_httpServices resource_engine (ToLower ''GitHub'') = Some cs \<and> \<not> Contains ''/repos/x/'' ''//''"
proof -
  have "d_EffectiveDecision (CheckHTTPService resource_engine ''GitHub'' ''GET'' ''/repos/x/'') \<noteq> DecisionDeny" by code_simp
  from CheckHTTPService_guards [OF this] show ?thesis by blast
qed

end
