(* ===== verification/NetworkCheck.thy ===== *)
theory NetworkCheck
  imports PolicyEngine
begin

text \<open>
  \<^verbatim>\<open>internal/policy/engine.go\<close>: the checks of network destinations with the Tor coordinator and the threat
  feed in front, and the DNS and connect redirects. The DNS resolver is a parameter: \<^const>\<open>None\<close> is a failed
  lookup. Go resolves a name at most once per check, when the first rule with address ranges is reached, so
  the addresses are one value of the whole check.
\<close>

section \<open>Network rules\<close>

definition portMatches :: "compiledNetworkRule \<Rightarrow> int \<Rightarrow> bool" where
  "portMatches r port \<longleftrightarrow> (if cn_ports r \<noteq> {} then port \<in> cn_ports r else True)"

definition domainMatches :: "compiledNetworkRule \<Rightarrow> string \<Rightarrow> bool" where
  "domainMatches r domain \<longleftrightarrow>
     (if cn_domainGlobs r \<noteq> [] then list_ex (\<lambda>g. domain \<noteq> [] \<and> g domain) (cn_domainGlobs r) else True)"

definition cidrMatches :: "compiledNetworkRule \<Rightarrow> IP list \<Rightarrow> bool" where
  "cidrMatches r ips \<longleftrightarrow>
     (if cn_cidrs r \<noteq> [] then list_ex (\<lambda>ip. list_ex (\<lambda>cidr. IPNet_Contains cidr ip) (cn_cidrs r)) ips else True)"

definition networkRuleDecision :: "Engine \<Rightarrow> compiledNetworkRule \<Rightarrow> Decision" where
  "networkRuleDecision e r = wrapDecision e (nr_Decision (cn_rule r)) (nr_Name (cn_rule r)) (Text (nr_Message (cn_rule r))) None"

fun networkRules :: "Engine \<Rightarrow> compiledNetworkRule list \<Rightarrow> string \<Rightarrow> int \<Rightarrow> IP list \<Rightarrow> Decision" where
  "networkRules e [] domain port ips = wrapDecision e ''deny'' ''default-deny-network'' (Text []) None"
| "networkRules e (r # rs) domain port ips =
     (if \<not> portMatches r port then networkRules e rs domain port ips
      else if \<not> domainMatches r domain then networkRules e rs domain port ips
      else if \<not> cidrMatches r ips then networkRules e rs domain port ips
      else networkRuleDecision e r)"

section \<open>Tor and threat feed\<close>

definition torBlock :: "Engine \<Rightarrow> TorVerdict \<Rightarrow> Decision" where
  "torBlock e v = (wrapDecision e ''deny'' (''tor:'' @ tv_Vector v) (Text ''blocked by Tor policy'') None)\<lparr>d_Tor := Some v\<rparr>"

definition attachTor :: "TorVerdict option \<Rightarrow> Decision \<Rightarrow> Decision" where
  "attachTor v dec = (case v of None \<Rightarrow> dec | Some t \<Rightarrow> dec\<lparr>d_Tor := Some t\<rparr>)"

definition threatLookup :: "Engine \<Rightarrow> string \<Rightarrow> ThreatCheckResult option" where
  "threatLookup e domain =
     (case en_threatStore e of
        None \<Rightarrow> None
      | Some store \<Rightarrow> if domain \<noteq> [] then store domain else None)"

definition threatBlock :: "Engine \<Rightarrow> ThreatCheckResult \<Rightarrow> Decision" where
  "threatBlock e r =
     (wrapDecision e ''deny'' (''threat-feed:'' @ tr_FeedName r)
        (Text (''domain matched threat feed: '' @ tr_FeedName r @ '' (matched: '' @ tr_MatchedDomain r @ '')'')) None)
     \<lparr>d_ThreatFeed := tr_FeedName r, d_ThreatMatch := tr_MatchedDomain r, d_ThreatAction := ''deny''\<rparr>"

definition attachThreat :: "ThreatCheckResult option \<Rightarrow> Decision \<Rightarrow> Decision" where
  "attachThreat r dec =
     (case r of
        None \<Rightarrow> dec
      | Some t \<Rightarrow> dec\<lparr>d_ThreatFeed := tr_FeedName t, d_ThreatMatch := tr_MatchedDomain t, d_ThreatAction := ''audit''\<rparr>)"

text \<open>The common part of both checks: the threat feed, then the rules.\<close>

definition threatThenRules :: "Engine \<Rightarrow> string \<Rightarrow> int \<Rightarrow> IP list \<Rightarrow> Decision" where
  "threatThenRules e domain port ips =
     (case threatLookup e domain of
        Some r \<Rightarrow>
          if en_threatAction e = ''deny'' then threatBlock e r
          else attachThreat (Some r) (networkRules e (en_networkRules e) domain port ips)
      | None \<Rightarrow> networkRules e (en_networkRules e) domain port ips)"

definition CheckNetworkIP :: "golib \<Rightarrow> Engine \<Rightarrow> string \<Rightarrow> IP option \<Rightarrow> int \<Rightarrow> Decision" where
  "CheckNetworkIP lib e domain0 ip port =
     (let tor = Option.bind (en_torChecker e) (\<lambda>tc. EvalConnect tc ip port) in
      case tor of
        Some v \<Rightarrow>
          if tv_Decision v = ''deny'' then torBlock e v
          else attachTor tor
            (if en_policy e = None then mkDecision DecisionAllow DecisionAllow [] (Text [])
             else let domain = ToLower (TrimSpace domain0)
                  in threatThenRules e domain port
                       (case ip of Some a \<Rightarrow> [a] | None \<Rightarrow> (case ParseIP lib domain of Some a \<Rightarrow> [a] | None \<Rightarrow> [])))
      | None \<Rightarrow>
          (if en_policy e = None then mkDecision DecisionAllow DecisionAllow [] (Text [])
           else let domain = ToLower (TrimSpace domain0)
                in threatThenRules e domain port
                     (case ip of Some a \<Rightarrow> [a] | None \<Rightarrow> (case ParseIP lib domain of Some a \<Rightarrow> [a] | None \<Rightarrow> []))))"

definition resolvedIPs :: "golib \<Rightarrow> (string \<Rightarrow> IP list option) \<Rightarrow> string \<Rightarrow> IP list" where
  "resolvedIPs lib lookupIP domain =
     (case ParseIP lib domain of
        Some a \<Rightarrow> [a]
      | None \<Rightarrow>
          if domain = [] then []
          else (case lookupIP domain of None \<Rightarrow> [] | Some addrs \<Rightarrow> addrs))"

text \<open>Deferred assignments run last-in first-out: the verdict on the name overrides the one on the address.\<close>

definition CheckNetworkCtx :: "golib \<Rightarrow> (string \<Rightarrow> IP list option) \<Rightarrow> Engine \<Rightarrow> string \<Rightarrow> int \<Rightarrow> Decision" where
  "CheckNetworkCtx lib lookupIP e domain0 port =
     (let domain = ToLower (TrimSpace domain0);
          onion = Option.bind (en_torChecker e) (\<lambda>tc. EvalOnionName tc domain);
          conn = Option.bind (en_torChecker e) (\<lambda>tc. Option.bind (ParseIP lib domain) (\<lambda>ip. EvalConnect tc (Some ip) port));
          rest = attachTor onion
                   (case conn of
                      Some v \<Rightarrow>
                        if tv_Decision v = ''deny'' then torBlock e v
                        else attachTor conn (threatThenRules e domain port (resolvedIPs lib lookupIP domain))
                    | None \<Rightarrow> threatThenRules e domain port (resolvedIPs lib lookupIP domain))
      in case onion of
           Some v \<Rightarrow> if tv_Decision v = ''deny'' then torBlock e v else rest
         | None \<Rightarrow> rest)"

section \<open>Redirects\<close>

record DnsRedirectResult =
  dres_Matched :: bool
  dres_Rule :: string
  dres_ResolveTo :: string
  dres_Visibility :: string
  dres_OnFailure :: string

definition orDefault :: "string \<Rightarrow> string \<Rightarrow> string" where
  "orDefault s d = (if s = [] then d else s)"

text \<open>A nil pattern is a nil-pointer panic, \<^const>\<open>None\<close> here.\<close>

fun dnsRules :: "compiledDnsRedirectRule list \<Rightarrow> string \<Rightarrow> DnsRedirectResult option" where
  "dnsRules [] hostname =
     Some \<lparr>dres_Matched = False, dres_Rule = [], dres_ResolveTo = [], dres_Visibility = [], dres_OnFailure = []\<rparr>"
| "dnsRules (r # rs) hostname =
     (case cdr_pattern r of
        None \<Rightarrow> None
      | Some re \<Rightarrow>
          if re hostname then
            Some \<lparr>dres_Matched = True, dres_Rule = dr_Name (cdr_rule r), dres_ResolveTo = dr_ResolveTo (cdr_rule r),
                  dres_Visibility = orDefault (dr_Visibility (cdr_rule r)) ''audit_only'',
                  dres_OnFailure = orDefault (dr_OnFailure (cdr_rule r)) ''fail_closed''\<rparr>
          else dnsRules rs hostname)"

definition EvaluateDnsRedirect :: "Engine \<Rightarrow> string \<Rightarrow> DnsRedirectResult option" where
  "EvaluateDnsRedirect e hostname = dnsRules (en_dnsRedirectRules e) (TrimSuffix (ToLower (TrimSpace hostname)) ''.'')"

record ConnectRedirectResult =
  cres_Matched :: bool
  cres_Rule :: string
  cres_RedirectTo :: string
  cres_RedirectToUnix :: string
  cres_TLSMode :: string
  cres_SNI :: string
  cres_Visibility :: string
  cres_Message :: string
  cres_OnFailure :: string

fun connectRules :: "compiledConnectRedirectRule list \<Rightarrow> string \<Rightarrow> ConnectRedirectResult option" where
  "connectRules [] hostPort =
     Some \<lparr>cres_Matched = False, cres_Rule = [], cres_RedirectTo = [], cres_RedirectToUnix = [], cres_TLSMode = [],
           cres_SNI = [], cres_Visibility = [], cres_Message = [], cres_OnFailure = []\<rparr>"
| "connectRules (r # rs) hostPort =
     (case cxr_pattern r of
        None \<Rightarrow> None
      | Some re \<Rightarrow>
          if re hostPort then
            (let x = cxr_rule r in
             Some \<lparr>cres_Matched = True, cres_Rule = xr_Name x, cres_RedirectTo = xr_RedirectTo x,
                   cres_RedirectToUnix = xr_RedirectToUnix x,
                   cres_TLSMode = (case xr_TLS x of None \<Rightarrow> ''passthrough'' | Some t \<Rightarrow> orDefault (tls_Mode t) ''passthrough''),
                   cres_SNI = (case xr_TLS x of None \<Rightarrow> [] | Some t \<Rightarrow> tls_SNI t),
                   cres_Visibility = orDefault (xr_Visibility x) ''audit_only'',
                   cres_Message = xr_Message x,
                   cres_OnFailure = orDefault (xr_OnFailure x) ''fail_closed''\<rparr>)
          else connectRules rs hostPort)"

definition normalizeHostPort :: "string \<Rightarrow> string" where
  "normalizeHostPort hostPort0 =
     (let hostPort = TrimSpace hostPort0 in
      case SplitHostPort hostPort of
        Some (host, port) \<Rightarrow> JoinHostPort (TrimSuffix (ToLower host) ''.'') port
      | None \<Rightarrow> TrimSuffix (ToLower hostPort) ''.'')"

definition EvaluateConnectRedirect :: "Engine \<Rightarrow> string \<Rightarrow> ConnectRedirectResult option" where
  "EvaluateConnectRedirect e hostPort = connectRules (en_connectRedirectRules e) (normalizeHostPort hostPort)"

section \<open>The first matching rule decides\<close>

definition network_rule_applies :: "compiledNetworkRule \<Rightarrow> string \<times> int \<times> IP list \<Rightarrow> bool" where
  "network_rule_applies r q \<longleftrightarrow>
     portMatches r (fst (snd q)) \<and> domainMatches r (fst q) \<and> cidrMatches r (snd (snd q))"

interpretation netchk: first_match network_rule_applies "\<lambda>r q. networkRuleDecision e r"
    "\<lambda>q. wrapDecision e ''deny'' ''default-deny-network'' (Text []) None"
    "\<lambda>rs q. networkRules e rs (fst q) (fst (snd q)) (snd (snd q))" for e
  by unfold_locales (auto simp: network_rule_applies_def)

lemma consistent_threat [simp]:
  "consistent e (d\<lparr>d_ThreatFeed := x\<rparr>) = consistent e d"
  "consistent e (d\<lparr>d_ThreatMatch := x\<rparr>) = consistent e d"
  "consistent e (d\<lparr>d_ThreatAction := x\<rparr>) = consistent e d"
  by (simp_all add: consistent_def)

text \<open>The part of a decision that enforcement looks at.\<close>

definition verdict :: "Decision \<Rightarrow> types_Decision \<times> types_Decision \<times> string" where
  "verdict d = (d_PolicyDecision d, d_EffectiveDecision d, d_Rule d)"

lemma verdict_upd [simp]:
  "verdict (d\<lparr>d_Tor := x\<rparr>) = verdict d" "verdict (d\<lparr>d_ThreatFeed := s\<rparr>) = verdict d"
  "verdict (d\<lparr>d_ThreatMatch := s\<rparr>) = verdict d" "verdict (d\<lparr>d_ThreatAction := s\<rparr>) = verdict d"
  by (simp_all add: verdict_def)

lemma verdict_attach [simp]: "verdict (attachTor v d) = verdict d" "verdict (attachThreat r d) = verdict d"
  by (simp_all add: attachTor_def attachThreat_def split: option.split)

definition without_checkers :: "Engine \<Rightarrow> Engine" where
  "without_checkers e = e\<lparr>en_torChecker := None, en_threatStore := None\<rparr>"

lemma without_checkers_simps [simp]:
  "en_torChecker (without_checkers e) = None" "en_threatStore (without_checkers e) = None"
  "en_policy (without_checkers e) = en_policy e" "en_networkRules (without_checkers e) = en_networkRules e"
  by (simp_all add: without_checkers_def)

lemma wrapDecision_without [simp]: "wrapDecision (without_checkers e) = wrapDecision e"
  by (auto simp: fun_eq_iff wrapDecision_def without_checkers_def Let_def split: types_Decision.split)

lemma networkRules_without [simp]: "networkRules (without_checkers e) rs d p ips = networkRules e rs d p ips"
  by (induction rs) (simp_all add: networkRuleDecision_def)

text \<open>When a request is blocked before any rule is read.\<close>

definition tor_denies :: "TorVerdict option \<Rightarrow> bool" where
  "tor_denies v \<longleftrightarrow> (case v of None \<Rightarrow> False | Some t \<Rightarrow> tv_Decision t = ''deny'')"

definition threat_denies :: "Engine \<Rightarrow> string \<Rightarrow> bool" where
  "threat_denies e domain \<longleftrightarrow> threatLookup e domain \<noteq> None \<and> en_threatAction e = ''deny''"

definition connect_verdict :: "Engine \<Rightarrow> IP option \<Rightarrow> int \<Rightarrow> TorVerdict option" where
  "connect_verdict e ip port = Option.bind (en_torChecker e) (\<lambda>tc. EvalConnect tc ip port)"

definition onion_verdict :: "Engine \<Rightarrow> string \<Rightarrow> TorVerdict option" where
  "onion_verdict e domain = Option.bind (en_torChecker e) (\<lambda>tc. EvalOnionName tc domain)"

definition blocked_ip :: "Engine \<Rightarrow> string \<Rightarrow> IP option \<Rightarrow> int \<Rightarrow> bool" where
  "blocked_ip e domain0 ip port \<longleftrightarrow>
     tor_denies (connect_verdict e ip port) \<or> en_policy e \<noteq> None \<and> threat_denies e (ToLower (TrimSpace domain0))"

definition blocked_ctx :: "golib \<Rightarrow> Engine \<Rightarrow> string \<Rightarrow> int \<Rightarrow> bool" where
  "blocked_ctx lib e domain0 port \<longleftrightarrow>
     (let domain = ToLower (TrimSpace domain0) in
      tor_denies (onion_verdict e domain) \<or> threat_denies e domain \<or>
      (case ParseIP lib domain of None \<Rightarrow> False | Some ip \<Rightarrow> tor_denies (connect_verdict e (Some ip) port)))"

lemma threatThenRules_cases:
  "threatThenRules e domain port ips =
     (if threat_denies e domain then threatBlock e (the (threatLookup e domain))
      else attachThreat (threatLookup e domain) (networkRules e (en_networkRules e) domain port ips))"
  by (simp add: threatThenRules_def threat_denies_def attachThreat_def split: option.split)

lemma blocks_deny [simp]:
  "d_EffectiveDecision (torBlock e v) = DecisionDeny" "d_EffectiveDecision (threatBlock e r) = DecisionDeny"
  by (simp_all add: torBlock_def threatBlock_def wrapDecision_effective)

lemma threatLookup_without [simp]: "threatLookup (without_checkers e) d = None"
  by (simp add: threatLookup_def)

lemma threatThenRules_without: 
  "threatThenRules (without_checkers e) d p ips = networkRules e (en_networkRules e) d p ips"
  by (simp add: threatThenRules_def)

lemma attachTor_effective [simp]: "d_EffectiveDecision (attachTor v d) = d_EffectiveDecision d"
  by (simp add: attachTor_def split: option.split)

lemma CheckNetworkIP_blocked:
  "blocked_ip e domain ip port \<Longrightarrow> d_EffectiveDecision (CheckNetworkIP lib e domain ip port) = DecisionDeny"
  by (auto simp: blocked_ip_def tor_denies_def connect_verdict_def CheckNetworkIP_def Let_def threatThenRules_cases
      split: option.splits)

lemma CheckNetworkIP_open:
  "\<not> blocked_ip e domain ip port \<Longrightarrow>
   verdict (CheckNetworkIP lib e domain ip port) = verdict (CheckNetworkIP lib (without_checkers e) domain ip port)"
  by (auto simp: blocked_ip_def tor_denies_def connect_verdict_def CheckNetworkIP_def Let_def threatThenRules_cases
      threatThenRules_without threat_denies_def split: option.splits)

lemma CheckNetworkCtx_blocked:
  "blocked_ctx lib e domain port \<Longrightarrow> d_EffectiveDecision (CheckNetworkCtx lib lookupIP e domain port) = DecisionDeny"
  by (auto simp: blocked_ctx_def tor_denies_def connect_verdict_def onion_verdict_def CheckNetworkCtx_def Let_def
      threatThenRules_cases split: option.splits)

lemma CheckNetworkCtx_open:
  "\<not> blocked_ctx lib e domain port \<Longrightarrow>
   verdict (CheckNetworkCtx lib lookupIP e domain port) = verdict (CheckNetworkCtx lib lookupIP (without_checkers e) domain port)"
  by (auto simp: blocked_ctx_def tor_denies_def connect_verdict_def onion_verdict_def CheckNetworkCtx_def Let_def
      threatThenRules_cases threatThenRules_without threat_denies_def split: option.splits)

text \<open>C34: Tor and the threat feed can only tighten network decisions. When one of them blocks the request the
  decision is an effective denial; otherwise policy decision, effective decision and rule are those of the
  same engine without both checkers, in \<^verbatim>\<open>CheckNetworkIP\<close> and in \<^verbatim>\<open>CheckNetworkCtx\<close>.\<close>

theorem network_checkers_only_tighten:
  "(if blocked_ip e domain ip port then d_EffectiveDecision (CheckNetworkIP lib e domain ip port) = DecisionDeny
    else verdict (CheckNetworkIP lib e domain ip port) = verdict (CheckNetworkIP lib (without_checkers e) domain ip port)) \<and>
   (if blocked_ctx lib e domain port then d_EffectiveDecision (CheckNetworkCtx lib lookupIP e domain port) = DecisionDeny
    else verdict (CheckNetworkCtx lib lookupIP e domain port) =
         verdict (CheckNetworkCtx lib lookupIP (without_checkers e) domain port))"
  by (simp add: CheckNetworkIP_blocked CheckNetworkIP_open CheckNetworkCtx_blocked CheckNetworkCtx_open)

text \<open>for an IP literal without a verdict on the name, the check by name and the check by address take the
  same decision, whatever the resolver says.\<close>

lemma CheckNetworkCtx_IP_literal:
  assumes "ParseIP lib (ToLower (TrimSpace domain)) = Some ip" "en_policy e \<noteq> None"
    and "onion_verdict e (ToLower (TrimSpace domain)) = None"
  shows "CheckNetworkCtx lib lookupIP e domain port = CheckNetworkIP lib e domain (Some ip) port"
proof -
  have o: "Option.bind (en_torChecker e) (\<lambda>tc. EvalOnionName tc (ToLower (TrimSpace domain))) = None"
    using assms(3) by (simp add: onion_verdict_def)
  show ?thesis
    unfolding CheckNetworkCtx_def CheckNetworkIP_def Let_def o
    by (simp add: assms(1,2) resolvedIPs_def attachTor_def split: option.split)
qed

text \<open>Whether a rule of the policy file applies to a name in lower case, a port and addresses.\<close>

definition source_network_rule_applies :: "golib \<Rightarrow> NetworkRule \<Rightarrow> string \<Rightarrow> int \<Rightarrow> IP list \<Rightarrow> bool" where
  "source_network_rule_applies lib r domain port ips \<longleftrightarrow>
     (nr_Ports r = [] \<or> port \<in> set (nr_Ports r)) \<and>
     (nr_Domains r = [] \<or> domain \<noteq> [] \<and> (\<exists>pat \<in> set (nr_Domains r). \<exists>g. compileDomain lib pat = Some g \<and> g domain)) \<and>
     (nr_CIDRs r = [] \<or> (\<exists>ip \<in> set ips. \<exists>s \<in> set (nr_CIDRs r). \<exists>c. ParseCIDR lib s = Some c \<and> IPNet_Contains c ip))"

lemma compile_all_Nil_iff: "compile_all f err pats = Inr gs \<Longrightarrow> gs = [] \<longleftrightarrow> pats = []"
  by (auto simp: compile_all_Inr_iff)

lemma source_network_rule:
  assumes "compileNetworkRule lib r = Inr c"
  shows "cn_rule c = r" "network_rule_applies c (domain, port, ips) \<longleftrightarrow> source_network_rule_applies lib r domain port ips"
proof -
  obtain ds cs where ds: "compile_all (compileDomain lib) (NetworkDomainError (nr_Name r)) (nr_Domains r) = Inr ds"
    and cs: "compile_all (ParseCIDR lib) (NetworkCIDRError (nr_Name r)) (nr_CIDRs r) = Inr cs"
    and c: "c = \<lparr>cn_rule = r, cn_domainGlobs = ds, cn_cidrs = cs, cn_ports = set (nr_Ports r)\<rparr>"
    using assms by (auto simp: compileNetworkRule_def sum_bind_Inr_iff)
  show "cn_rule c = r" by (simp add: c)
  have d: "domainMatches c domain \<longleftrightarrow>
      nr_Domains r = [] \<or> domain \<noteq> [] \<and> (\<exists>pat \<in> set (nr_Domains r). \<exists>g. compileDomain lib pat = Some g \<and> g domain)"
    using compile_all_Nil_iff [OF ds] compile_all_set [OF ds] by (auto simp: c domainMatches_def list_ex_iff Bex_def)
  have i: "cidrMatches c ips \<longleftrightarrow>
      nr_CIDRs r = [] \<or> (\<exists>ip \<in> set ips. \<exists>s \<in> set (nr_CIDRs r). \<exists>x. ParseCIDR lib s = Some x \<and> IPNet_Contains x ip)"
    using compile_all_Nil_iff [OF cs] compile_all_set [OF cs] by (auto simp: c cidrMatches_def list_ex_iff Bex_def)
  have p: "portMatches c port \<longleftrightarrow> nr_Ports r = [] \<or> port \<in> set (nr_Ports r)" by (auto simp: c portMatches_def)
  show "network_rule_applies c (domain, port, ips) \<longleftrightarrow> source_network_rule_applies lib r domain port ips"
    by (simp add: network_rule_applies_def source_network_rule_applies_def d i p)
qed

lemma networkRules_source:
  assumes "sum_mapM (compileNetworkRule lib) rs = Inr cs"
  shows "(\<exists>i < length rs. source_network_rule_applies lib (rs ! i) domain port ips
            \<and> (\<forall>j < i. \<not> source_network_rule_applies lib (rs ! j) domain port ips)
            \<and> networkRules e cs domain port ips =
                wrapDecision e (nr_Decision (rs ! i)) (nr_Name (rs ! i)) (Text (nr_Message (rs ! i))) None)
       \<or> (\<forall>i < length rs. \<not> source_network_rule_applies lib (rs ! i) domain port ips)
          \<and> networkRules e cs domain port ips = wrapDecision e ''deny'' ''default-deny-network'' (Text []) None"
proof -
  have l: "length cs = length rs" and c: "\<And>i. i < length rs \<Longrightarrow> compileNetworkRule lib (rs ! i) = Inr (cs ! i)"
    using assms by (simp_all add: sum_mapM_Inr_iff list_all2_conv_all_nth)
  have app: "network_rule_applies (cs ! i) (domain, port, ips) \<longleftrightarrow> source_network_rule_applies lib (rs ! i) domain port ips"
    "cn_rule (cs ! i) = rs ! i" if "i < length rs" for i
    using source_network_rule [OF c [OF that]] by simp_all
  from netchk.outcome_nth [of cs "(domain, port, ips)" e] show ?thesis
  proof
    assume "\<exists>i < length cs. network_rule_applies (cs ! i) (domain, port, ips)
      \<and> (\<forall>j < i. \<not> network_rule_applies (cs ! j) (domain, port, ips))
      \<and> networkRules e cs (fst (domain, port, ips)) (fst (snd (domain, port, ips))) (snd (snd (domain, port, ips)))
        = networkRuleDecision e (cs ! i)"
    then obtain i where i: "i < length rs" "network_rule_applies (cs ! i) (domain, port, ips)"
      "\<forall>j < i. \<not> network_rule_applies (cs ! j) (domain, port, ips)" "networkRules e cs domain port ips = networkRuleDecision e (cs ! i)"
      by (auto simp: l)
    have "\<forall>j < i. \<not> source_network_rule_applies lib (rs ! j) domain port ips" using i(1,3) app(1) by auto
    with i app show ?thesis by (intro disjI1 exI [of _ i]) (simp add: networkRuleDecision_def)
  qed (simp add: l app)
qed

text \<open>a new engine decides a network request by the first rule of the policy whose ports, domain patterns
  and address ranges all match, an absent selector matching everything, and denies without such a rule.\<close>

lemma CheckNetworkCtx_first_rule:
  assumes "NewEngine lib p ea er = Inr e" and "d = ToLower (TrimSpace domain)" and "ips = resolvedIPs lib lookupIP d"
  shows "(\<exists>i < length (p_NetworkRules p). source_network_rule_applies lib (p_NetworkRules p ! i) d port ips
            \<and> (\<forall>j < i. \<not> source_network_rule_applies lib (p_NetworkRules p ! j) d port ips)
            \<and> CheckNetworkCtx lib lookupIP e domain port =
                wrapDecision e (nr_Decision (p_NetworkRules p ! i)) (nr_Name (p_NetworkRules p ! i))
                  (Text (nr_Message (p_NetworkRules p ! i))) None)
       \<or> (\<forall>i < length (p_NetworkRules p). \<not> source_network_rule_applies lib (p_NetworkRules p ! i) d port ips)
          \<and> d_EffectiveDecision (CheckNetworkCtx lib lookupIP e domain port) = DecisionDeny"
proof -
  have "CheckNetworkCtx lib lookupIP e domain port = networkRules e (en_networkRules e) d port ips"
    using NewEngineD(15,16) [OF assms(1)] assms(2,3)
    by (simp add: CheckNetworkCtx_def Let_def attachTor_def threatThenRules_def threatLookup_def)
  with networkRules_source [OF NewEngineD(5) [OF assms(1)], of d port ips e] show ?thesis
    by (auto simp: wrapDecision_effective)
qed

section \<open>Redirects do not depend on the spelling\<close>

lemma last_index_append: "c \<notin> set t \<Longrightarrow> last_index c (s @ c # t) = Some (length s)"
  by (simp add: last_index_def IndexByte_append)

lemma SplitHostPort_plain:
  assumes "CHR '':'' \<notin> set host" "CHR '':'' \<notin> set port"
    and "CHR ''['' \<notin> set host \<union> set port" "CHR '']'' \<notin> set host \<union> set port"
  shows "SplitHostPort (host @ '':'' @ port) = Some (host, port)"
proof -
  have "hd (host @ CHR '':'' # port) \<noteq> CHR ''[''" using assms(3) by (cases host) auto
  then show ?thesis using assms by (simp add: SplitHostPort_def last_index_append Let_def)
qed

lemma SplitHostPort_brackets:
  assumes "CHR '':'' \<notin> set port" "CHR ''['' \<notin> set host \<union> set port" "CHR '']'' \<notin> set host \<union> set port"
  shows "SplitHostPort (''['' @ host @ '']:'' @ port) = Some (host, port)"
proof -
  let ?s = "CHR ''['' # host @ CHR '']'' # CHR '':'' # port"
  have "last_index (CHR '':'') ((CHR ''['' # host @ [CHR '']'']) @ CHR '':'' # port) = Some (length (CHR ''['' # host @ [CHR '']'']))"
    by (rule last_index_append) (rule assms(1))
  then have li: "last_index (CHR '':'') ?s = Some (length host + 2)" by simp
  have ix: "IndexByte (host @ CHR '']'' # CHR '':'' # port) (CHR '']'') = Some (length host)"
    by (rule IndexByte_append) (use assms(3) in auto)
  show ?thesis using assms unfolding SplitHostPort_def by (simp add: li ix)
qed

lemma SplitHostPort_JoinHostPort:
  assumes "CHR '':'' \<notin> set port" "CHR ''['' \<notin> set host \<union> set port" "CHR '']'' \<notin> set host \<union> set port"
  shows "SplitHostPort (JoinHostPort host port) = Some (host, port)"
  using SplitHostPort_plain [OF _ assms] SplitHostPort_brackets [OF assms] by (simp add: JoinHostPort_def)

lemma ToLower_keeps:
  assumes "c \<in> {CHR '':'', CHR ''['', CHR '']'', CHR ''.''}"
  shows "c \<in> set (ToLower s) \<longleftrightarrow> c \<in> set s"
  using assms by (auto simp: ToLower_def image_iff ascii_lower_def is_upper_def split: if_splits dest: arg_cong [where f = byte])

lemma normalizeHostPort_plain:
  assumes "CHR '':'' \<notin> set host" "CHR '':'' \<notin> set port"
    and "CHR ''['' \<notin> set host \<union> set port" "CHR '']'' \<notin> set host \<union> set port"
    and "TrimSpace s = host @ '':'' @ port"
  shows "normalizeHostPort s = TrimSuffix (ToLower host) ''.'' @ '':'' @ port"
proof -
  have "CHR '':'' \<notin> set (TrimSuffix (ToLower host) ''.'')"
    using assms(1) ToLower_keeps [of "CHR '':''" host] by (auto simp: TrimSuffix_def dest: in_set_takeD)
  then show ?thesis
    using SplitHostPort_plain [OF assms(1-4)] assms(5) by (simp add: normalizeHostPort_def Let_def JoinHostPort_def)
qed

lemma TrimSuffix_dot_lower:
  assumes "\<not> HasSuffix host ''.''"
  shows "TrimSuffix (ToLower host) ''.'' = ToLower host" "TrimSuffix (ToLower (host @ ''.'')) ''.'' = ToLower host"
proof -
  have "\<not> HasSuffix (ToLower host) ''.''"
  proof
    assume "HasSuffix (ToLower host) ''.''"
    then obtain u where u: "ToLower host = u @ [CHR ''.'']" by (auto simp: HasSuffix_iff)
    then obtain v c where "host = v @ [c]" "ascii_lower c = CHR ''.''"
      by (cases host rule: rev_cases) (auto simp: ToLower_def)
    with assms show False by (auto simp: HasSuffix_iff ascii_lower_eq_dot)
  qed
  then show "TrimSuffix (ToLower host) ''.'' = ToLower host" by (simp add: TrimSuffix_def)
  show "TrimSuffix (ToLower (host @ ''.'')) ''.'' = ToLower host" by (simp add: ToLower_append ToLower_dot)
qed

text \<open>letter case, surrounding blanks and one trailing dot of a host name do not change DNS and connect
  redirects: the rules always see the lower-case name.\<close>

lemma redirect_spellings:
  assumes "host \<noteq> []" "plain (hd host)" "plain (last host)" "port \<noteq> []" "plain (last port)"
    and "CHR '':'' \<notin> set host" "CHR '':'' \<notin> set port"
    and "CHR ''['' \<notin> set host \<union> set port" "CHR '']'' \<notin> set host \<union> set port"
    and "\<not> HasSuffix host ''.''"
  shows "EvaluateConnectRedirect e (host @ '':'' @ port) = connectRules (en_connectRedirectRules e) (ToLower host @ '':'' @ port)
    \<and> EvaluateConnectRedirect e ('' '' @ host @ ''.'' @ '':'' @ port) = EvaluateConnectRedirect e (host @ '':'' @ port)
    \<and> EvaluateDnsRedirect e host = dnsRules (en_dnsRedirectRules e) (ToLower host)
    \<and> EvaluateDnsRedirect e ('' '' @ host @ ''.'') = EvaluateDnsRedirect e host"
proof -
  note dot = TrimSuffix_dot_lower [OF assms(10)]
  have "plain (CHR ''.'')" by (simp add: plain_def space_runes_def)
  then have ts: "TrimSpace (host @ '':'' @ port) = host @ '':'' @ port" "TrimSpace host = host"
    "TrimSpace ('' '' @ (host @ ''.'') @ '':'' @ port) = (host @ ''.'') @ '':'' @ port"
    "TrimSpace ('' '' @ host @ ''.'') = host @ ''.''"
    using assms(1-5) by (simp_all add: TrimSpace_space TrimSpace_plain)
  have "normalizeHostPort (host @ '':'' @ port) = ToLower host @ '':'' @ port"
    using normalizeHostPort_plain [OF assms(6-9) ts(1)] dot(1) by simp
  moreover have "normalizeHostPort ('' '' @ (host @ ''.'') @ '':'' @ port) = ToLower host @ '':'' @ port"
    using normalizeHostPort_plain [OF _ _ _ _ ts(3)] assms(6-9) dot(2) by simp
  ultimately show ?thesis
    using ts(2,4) dot by (simp add: EvaluateConnectRedirect_def EvaluateDnsRedirect_def)
qed

lemma redirect_spellings_witness:
  "EvaluateDnsRedirect example_engine '' Api.Example.'' = EvaluateDnsRedirect example_engine ''Api.Example''"
proof -
  have "EvaluateDnsRedirect example_engine ('' '' @ ''Api.Example'' @ ''.'') = EvaluateDnsRedirect example_engine ''Api.Example''"
    using redirect_spellings [of "''Api.Example''" "''443''" example_engine]
    by (simp add: plain_def space_runes_def HasSuffix_def)
  then show ?thesis by simp
qed

section \<open>Witnesses\<close>

definition network_lib :: golib where
  "network_lib = literal_lib\<lparr>ParseIP := (\<lambda>s. if s = ''10.0.0.1'' then Some (IPv4 0x0A000001) else None),
     ParseCIDR := (\<lambda>s. if s = ''10.0.0.0/8'' then Some (IPNet4 0x0A000000 0xFF000000) else None)\<rparr>"

definition network_policy :: Policy where
  "network_policy = Policy0\<lparr>p_NetworkRules :=
     [\<lparr>nr_Name = ''intranet'', nr_Description = [], nr_Domains = [], nr_Ports = [443], nr_CIDRs = [''10.0.0.0/8''],
       nr_Decision = ''allow'', nr_Message = [], nr_Timeout = 0\<rparr>]\<rparr>"

definition network_engine :: Engine where
  "network_engine = (case NewEngine network_lib network_policy True True of Inr e \<Rightarrow> e | Inl _ \<Rightarrow> undefined)"

lemma network_engine_ok: "NewEngine network_lib network_policy True True = Inr network_engine"
proof (cases "NewEngine network_lib network_policy True True")
  case (Inl x)
  have "\<not> isl (NewEngine network_lib network_policy True True)" by code_simp
  with Inl show ?thesis by simp
qed (simp add: network_engine_def)

lemma CheckNetworkCtx_IP_literal_witness:
  "CheckNetworkCtx network_lib (\<lambda>_. None) network_engine '' 10.0.0.1'' 443 =
   CheckNetworkIP network_lib network_engine '' 10.0.0.1'' (Some (IPv4 0x0A000001)) 443"
proof (rule CheckNetworkCtx_IP_literal)
  show "ParseIP network_lib (ToLower (TrimSpace '' 10.0.0.1'')) = Some (IPv4 0x0A000001)" by code_simp
  show "en_policy network_engine \<noteq> None" using NewEngineD(1) [OF network_engine_ok] by simp
  show "onion_verdict network_engine (ToLower (TrimSpace '' 10.0.0.1'')) = None"
    using NewEngineD(15) [OF network_engine_ok] by (simp add: onion_verdict_def)
qed

lemma CheckNetworkCtx_first_rule_witness:
  "d_Rule (CheckNetworkCtx network_lib (\<lambda>_. Some [IPv4 0x0A020304]) network_engine ''db.corp'' 443) = ''intranet''"
proof -
  let ?d = "''db.corp''" and ?ips = "[IPv4 0x0A020304]"
  have n: "ToLower (TrimSpace ?d) = ?d" and r: "resolvedIPs network_lib (\<lambda>_. Some ?ips) ?d = ?ips" by code_simp+
  have "source_network_rule_applies network_lib (p_NetworkRules network_policy ! 0) ?d 443 ?ips"
    by (simp add: source_network_rule_applies_def network_policy_def network_lib_def)
  with CheckNetworkCtx_first_rule [OF network_engine_ok refl refl, where domain = ?d and lookupIP = "\<lambda>_. Some ?ips" and port = 443] n r
  show ?thesis by (auto simp: network_policy_def)
qed

end
