(* ===== verification/Secrets.thy ===== *)
theory Secrets
  imports AgentshPrelude "HOL-Library.Multiset"
begin

text \<open>
  \<^verbatim>\<open>internal/proxy/secrets\<close>: secret references (\<^verbatim>\<open>uri.go\<close>), fake credentials (\<^verbatim>\<open>fakegen.go\<close>) and the registry of
  secret providers (\<^verbatim>\<open>registry.go\<close>), which constructs the providers in the order of their dependencies. The
  URL parser, the random bytes and the provider constructors are parameters. Go maps are association lists
  in an arbitrary iteration order, byte slices are strings.
\<close>

section \<open>Secret references\<close>

text \<open>The fields of \<^verbatim>\<open>url.URL\<close> the package reads; \<^verbatim>\<open>url_User\<close> says whether there is user information.\<close>

record URL =
  url_Scheme :: string
  url_User :: bool
  url_Host :: string
  url_Path :: string
  url_RawPath :: string
  url_ForceQuery :: bool
  url_RawQuery :: string
  url_Fragment :: string

text \<open>The metadata of a reference is reserved and read nowhere; it is left out.\<close>

record SecretRef =
  sref_Scheme :: string
  sref_Host :: string
  sref_Path :: string
  sref_Field :: string

definition supportedSchemes :: "string list" where
  "supportedSchemes = [''vault'', ''aws-sm'', ''gcp-sm'', ''azure-kv'', ''op'', ''keyring'']"

datatype ref_error =
    InvalidURI
  | UnsupportedScheme string

definition ParseRef :: "(string \<Rightarrow> URL option) \<Rightarrow> string \<Rightarrow> ref_error + SecretRef" where
  "ParseRef parse uri =
     (if uri = [] then Inl InvalidURI
      else
        (case parse uri of
           None \<Rightarrow> Inl InvalidURI
         | Some u \<Rightarrow>
             if url_Scheme u = [] then Inl InvalidURI
             else if url_Scheme u \<notin> set supportedSchemes then Inl (UnsupportedScheme (url_Scheme u))
             else if url_Host u = [] then Inl InvalidURI
             else if url_RawQuery u \<noteq> [] \<or> url_ForceQuery u then Inl InvalidURI
             else if url_User u then Inl InvalidURI
             else if url_RawPath u \<noteq> [] \<and> Contains (ToLower (url_RawPath u)) ''%2f'' then Inl InvalidURI
             else
               (let trimmedPath = TrimPrefix (url_Path u) ''/'' in
                if HasPrefix trimmedPath ''/'' then Inl InvalidURI
                else Inr \<lparr>sref_Scheme = url_Scheme u, sref_Host = url_Host u, sref_Path = trimmedPath,
                          sref_Field = url_Fragment u\<rparr>)))"

definition refKey :: "SecretRef \<Rightarrow> string" where
  "refKey ref = sref_Scheme ref @ ''://'' @ sref_Host ref @ ''/'' @ sref_Path ref @ ''#'' @ sref_Field ref"

section \<open>Fake credentials\<close>

fun Index :: "string \<Rightarrow> string \<Rightarrow> nat option" where
  "Index [] p = (if p = [] then Some 0 else None)"
| "Index (c # s) p = (if HasPrefix (c # s) p then Some 0 else map_option Suc (Index s p))"

text \<open>\<^verbatim>\<open>strings.Count\<close> for a non-empty pattern: occurrences that do not overlap.\<close>

function Count :: "string \<Rightarrow> string \<Rightarrow> nat" where
  "Count s p =
     (case s of
        [] \<Rightarrow> 0
      | c # s' \<Rightarrow> if p \<noteq> [] \<and> HasPrefix s p then Suc (Count (drop (length p) s) p) else Count s' p)"
  by pat_completeness auto

termination
  by (relation "measure (\<lambda>(s, p). length s)") auto

declare Count.simps [simp del]

datatype fake_error = ErrInvalidFakeFormat | ErrFakeEntropyTooLow | ErrFakeLengthMismatch | ErrRandom

definition minFakeEntropy :: int where
  "minFakeEntropy = 24"

definition randOpen :: string where
  "randOpen = ''{rand:''"

definition ParseFormat :: "string \<Rightarrow> fake_error + string \<times> int" where
  "ParseFormat format =
     (if format = [] then Inl ErrInvalidFakeFormat
      else
        (case Index format randOpen of
           None \<Rightarrow> Inl ErrInvalidFakeFormat
         | Some idx \<Rightarrow>
             if Count format randOpen \<noteq> 1 then Inl ErrInvalidFakeFormat
             else if \<not> HasSuffix format ''}'' then Inl ErrInvalidFakeFormat
             else
               (let inner = take (length format - 1 - (idx + length randOpen)) (drop (idx + length randOpen) format) in
                if inner = [] then Inl ErrInvalidFakeFormat
                else
                  (case Atoi inner of
                     None \<Rightarrow> Inl ErrInvalidFakeFormat
                   | Some n \<Rightarrow>
                       if n \<le> 0 then Inl ErrInvalidFakeFormat
                       else if n < minFakeEntropy then Inl ErrFakeEntropyTooLow
                       else if idx + length randOpen + length inner + 1 \<noteq> length format then Inl ErrInvalidFakeFormat
                       else Inr (take idx format, n)))))"

definition base62 :: string where
  "base62 = ''ABCDEFGHIJKLMNOPQRSTUVWXYZabcdefghijklmnopqrstuvwxyz0123456789''"

text \<open>\<^verbatim>\<open>read n\<close> stands for \<^verbatim>\<open>rand.Read\<close> on a buffer of \<^verbatim>\<open>n\<close> bytes; \<^const>\<open>None\<close> is its error.\<close>

definition GenerateFake :: "(nat \<Rightarrow> string option) \<Rightarrow> string \<Rightarrow> nat \<Rightarrow> fake_error + string" where
  "GenerateFake read format realLen =
     sum_bind (ParseFormat format) (\<lambda>(prefix, randLen).
       if int (length prefix) + randLen \<noteq> int realLen then Inl ErrFakeLengthMismatch
       else
         (case read (nat randLen) of
            None \<Rightarrow> Inl ErrRandom
          | Some randBytes \<Rightarrow> Inr (prefix @ map (\<lambda>b. base62 ! (byte b mod length base62)) randBytes)))"

section \<open>Provider registry\<close>

text \<open>A provider is what its \<^verbatim>\<open>Fetch\<close> returns, \<^const>\<open>None\<close> for an error. A constructor gets the configuration and
  a resolver for secrets of providers constructed before; it fails, returns a nil provider, or a provider.\<close>

type_synonym fetcher = "SecretRef \<Rightarrow> string option"

record ProviderConfig =
  pc_TypeName :: string
  pc_Dependencies :: "SecretRef list"

datatype ctor_result = CtorFailed | CtorNil | CtorOk fetcher

type_synonym constructor = "ProviderConfig \<Rightarrow> fetcher \<Rightarrow> ctor_result"

text \<open>The error of a failing constructor lists the providers that were closed, in that order.\<close>

datatype registry_error =
    NilConfig string
  | NilConstructor string
  | EmptyTypeName string
  | NoConstructor string
  | DuplicateType string
  | UnknownScheme string string
  | ErrCyclicDependency "string list"
  | ConstructFailed string "string list"
  | ConstructedNil string "string list"

record Registry =
  rg_providers :: "string \<rightharpoonup> fetcher"
  rg_order :: "string list"
  rg_schemeToName :: "string \<rightharpoonup> string"
  rg_closed :: bool

fun checkConfigs :: "(string \<rightharpoonup> constructor option) \<Rightarrow> (string \<times> ProviderConfig) list \<Rightarrow> registry_error option" where
  "checkConfigs constructors [] = None"
| "checkConfigs constructors ((name, cfg) # rest) =
     (if pc_TypeName cfg = [] then Some (EmptyTypeName name)
      else if constructors (pc_TypeName cfg) = None then Some (NoConstructor name)
      else checkConfigs constructors rest)"

fun schemeNames :: "(string \<times> ProviderConfig) list \<Rightarrow> (string \<rightharpoonup> string) \<Rightarrow> registry_error + (string \<rightharpoonup> string)" where
  "schemeNames [] acc = Inr acc"
| "schemeNames ((name, cfg) # rest) acc =
     (if acc (pc_TypeName cfg) \<noteq> None then Inl (DuplicateType (pc_TypeName cfg))
      else schemeNames rest (acc(pc_TypeName cfg \<mapsto> name)))"

text \<open>The dependency graph: for every provider the ones that wait for it, and how many it waits for.\<close>

type_synonym depgraph = "(string \<Rightarrow> string list) \<times> (string \<Rightarrow> int)"

fun addDeps :: "(string \<rightharpoonup> string) \<Rightarrow> string \<Rightarrow> SecretRef list \<Rightarrow> depgraph \<Rightarrow> registry_error + depgraph" where
  "addDeps schemes name [] g = Inr g"
| "addDeps schemes name (dep # deps) g =
     (case schemes (sref_Scheme dep) of
        None \<Rightarrow> Inl (UnknownScheme name (sref_Scheme dep))
      | Some depName \<Rightarrow>
          addDeps schemes name deps
            ((fst g)(depName := fst g depName @ [name]), (snd g)(name := snd g name + 1)))"

fun buildGraph :: "(string \<rightharpoonup> string) \<Rightarrow> (string \<times> ProviderConfig) list \<Rightarrow> depgraph \<Rightarrow> registry_error + depgraph" where
  "buildGraph schemes [] g = Inr g"
| "buildGraph schemes ((name, cfg) # rest) g =
     sum_bind (addDeps schemes name (pc_Dependencies cfg) g) (buildGraph schemes rest)"

fun visitNeighbors :: "string list \<Rightarrow> (string \<Rightarrow> int) \<Rightarrow> string list \<Rightarrow> (string \<Rightarrow> int) \<times> string list" where
  "visitNeighbors [] inDegree queue = (inDegree, queue)"
| "visitNeighbors (next # rest) inDegree queue =
     (let inDegree' = inDegree(next := inDegree next - 1) in
      visitNeighbors rest inDegree' (if inDegree' next = 0 then queue @ [next] else queue))"

partial_function (option) kahn :: "(string \<Rightarrow> string list) \<Rightarrow> string list \<Rightarrow> (string \<Rightarrow> int) \<Rightarrow> string list \<Rightarrow>
    (string list \<times> (string \<Rightarrow> int)) option" where
  "kahn graph queue inDegree order =
     (case queue of
        [] \<Rightarrow> Some (order, inDegree)
      | cur # queue' \<Rightarrow>
          (case visitNeighbors (sort (graph cur)) inDegree queue' of
             (inDegree', queue'') \<Rightarrow> kahn graph queue'' inDegree' (order @ [cur])))"

declare kahn.simps [code]

definition resolver :: "(string \<rightharpoonup> string) \<Rightarrow> (string \<rightharpoonup> fetcher) \<Rightarrow> ProviderConfig \<Rightarrow> fetcher" where
  "resolver schemes providers cfg ref =
     (if refKey ref \<notin> set (map refKey (pc_Dependencies cfg)) then None
      else
        (case schemes (sref_Scheme ref) of
           None \<Rightarrow> None
         | Some provName \<Rightarrow> (case providers provName of None \<Rightarrow> None | Some p \<Rightarrow> p ref)))"

fun construct :: "(string \<rightharpoonup> constructor option) \<Rightarrow> (string \<rightharpoonup> ProviderConfig) \<Rightarrow> (string \<rightharpoonup> string) \<Rightarrow>
    string list \<Rightarrow> string list \<Rightarrow> (string \<rightharpoonup> fetcher) \<Rightarrow> registry_error + (string \<rightharpoonup> fetcher)" where
  "construct constructors configs schemes done [] providers = Inr providers"
| "construct constructors configs schemes done (name # rest) providers =
     (case configs name of
        None \<Rightarrow> Inl (NilConfig name)
      | Some cfg \<Rightarrow>
          (case constructors (pc_TypeName cfg) of
             Some (Some ctor) \<Rightarrow>
               (case ctor cfg (resolver schemes providers cfg) of
                  CtorFailed \<Rightarrow> Inl (ConstructFailed name (rev done))
                | CtorNil \<Rightarrow> Inl (ConstructedNil name (rev done))
                | CtorOk p \<Rightarrow> construct constructors configs schemes (done @ [name]) rest (providers(name \<mapsto> p)))
           | _ \<Rightarrow> Inl (NilConstructor (pc_TypeName cfg))))"

text \<open>The two lists are Go maps: their keys are distinct. A nil value is \<^const>\<open>None\<close>. The outer option is the
  termination of the sorting loop.\<close>

definition NewRegistry :: "(string \<times> ProviderConfig option) list \<Rightarrow> (string \<times> constructor option) list \<Rightarrow>
    (registry_error + Registry) option" where
  "NewRegistry configs0 constructors0 =
     (case find (\<lambda>(n, c). c = None) configs0 of
        Some (name, _) \<Rightarrow> Some (Inl (NilConfig name))
      | None \<Rightarrow>
     (case find (\<lambda>(n, c). Option.is_none c) constructors0 of
        Some (typeName, _) \<Rightarrow> Some (Inl (NilConstructor typeName))
      | None \<Rightarrow>
     (let configs = map (\<lambda>(n, c). (n, the c)) configs0;
          constructors = map_of constructors0
      in case checkConfigs constructors configs of
           Some err \<Rightarrow> Some (Inl err)
         | None \<Rightarrow>
     (case schemeNames configs Map.empty of
        Inl err \<Rightarrow> Some (Inl err)
      | Inr schemes \<Rightarrow>
     (case buildGraph schemes configs (\<lambda>_. [], \<lambda>_. 0) of
        Inl err \<Rightarrow> Some (Inl err)
      | Inr (graph, inDegree) \<Rightarrow>
     (case kahn graph (sort (filter (\<lambda>n. inDegree n = 0) (map fst configs))) inDegree [] of
        None \<Rightarrow> None
      | Some (order, inDegree') \<Rightarrow>
          if length order \<noteq> length configs
          then Some (Inl (ErrCyclicDependency (sort (filter (\<lambda>n. inDegree' n > 0) (map fst configs)))))
          else Some (sum_bind (construct constructors (map_of configs) schemes [] order Map.empty)
                 (\<lambda>providers. Inr \<lparr>rg_providers = providers, rg_order = order, rg_schemeToName = schemes,
                                   rg_closed = False\<rparr>))))))))"

definition registry_Provider :: "Registry \<Rightarrow> string \<Rightarrow> fetcher option" where
  "registry_Provider r name = (if rg_closed r then None else rg_providers r name)"

definition registry_Fetch :: "Registry \<Rightarrow> SecretRef \<Rightarrow> string option" where
  "registry_Fetch r ref =
     (if rg_closed r then None
      else
        (case rg_schemeToName r (sref_Scheme ref) of
           None \<Rightarrow> None
         | Some name \<Rightarrow> (case rg_providers r name of None \<Rightarrow> None | Some p \<Rightarrow> p ref)))"

text \<open>The providers closed by the call, in order.\<close>

definition registry_Close :: "Registry \<Rightarrow> Registry \<times> string list" where
  "registry_Close r = (if rg_closed r then (r, []) else (r\<lparr>rg_closed := True\<rparr>, rev (rg_order r)))"

section \<open>Fake credentials have the declared shape\<close>

lemma Index_SomeD: "Index s p = Some i \<Longrightarrow> \<exists>t. s = take i s @ p @ t \<and> i \<le> length s"
proof (induction s arbitrary: i)
  case (Cons c s)
  show ?case
  proof (cases "HasPrefix (c # s) p")
    case True
    then show ?thesis using Cons.prems by (auto simp: HasPrefix_iff)
  next
    case False
    then obtain j where j: "Index s p = Some j" "i = Suc j" using Cons.prems by auto
    from Cons.IH [OF j(1)] j(2) show ?thesis by auto
  qed
qed (auto split: if_splits)

lemma ParseFormat_shape:
  assumes "ParseFormat format = Inr (pre, n)"
  shows "\<exists>digits. format = pre @ randOpen @ digits @ ''}'' \<and> Atoi digits = Some n \<and> minFakeEntropy \<le> n"
proof -
  obtain i where i: "Index format randOpen = Some i"
    using assms by (auto simp: ParseFormat_def split: if_splits option.splits)
  define inner where "inner = take (length format - 1 - (i + length randOpen)) (drop (i + length randOpen) format)"
  have f: "HasSuffix format ''}''" "Atoi inner = Some n" "minFakeEntropy \<le> n"
    "i + length randOpen + length inner + 1 = length format" "pre = take i format"
    using assms i by (auto simp: ParseFormat_def Let_def inner_def split: if_splits option.splits)
  obtain t where t: "format = pre @ randOpen @ t" "i \<le> length format" using Index_SomeD [OF i] f(5) by blast
  then have l: "length pre = i" using f(5) by simp
  have inner: "inner = take (length t - 1) t" unfolding inner_def using t(1) l by simp
  obtain u where u: "format = u @ ''}''" using f(1) by (auto simp: HasSuffix_iff)
  have "t \<noteq> []" using f(4) t(1) l by auto
  then obtain t' c where tc: "t = t' @ [c]" by (cases t rule: rev_cases) auto
  then have "c = CHR ''}''" using t(1) u by (metis append.assoc append1_eq_conv)
  then have "format = pre @ randOpen @ inner @ ''}''" using t(1) tc inner by simp
  then show ?thesis using f(2,3) by blast
qed

lemma randOpen_cross: "HasPrefix (c # p @ randOpen @ s) randOpen \<longleftrightarrow> HasPrefix (c # p) randOpen"
proof -
  have "HasPrefix (c # p @ randOpen @ s) randOpen \<longrightarrow> length (c # p) \<ge> length randOpen"
    by (cases p; cases "tl p"; cases "tl (tl p)"; cases "tl (tl (tl p))"; cases "tl (tl (tl (tl p)))")
      (auto simp: HasPrefix_def randOpen_def)
  moreover have "take (length randOpen) (c # p @ randOpen @ s) = take (length randOpen) (c # p)" if "length (c # p) \<ge> length randOpen"
    using that take_append [of "length randOpen" "c # p" "randOpen @ s"] by (simp del: take_Suc_Cons)
  moreover have "HasPrefix (c # p) randOpen \<longrightarrow> length (c # p) \<ge> length randOpen"
    by (metis HasPrefix_def length_take min.cobounded1)
  ultimately show ?thesis unfolding HasPrefix_def by metis
qed

lemma Index_randOpen: "\<not> Contains p randOpen \<Longrightarrow> Index (p @ randOpen @ s) randOpen = Some (length p)"
proof (induction p)
  case Nil
  then show ?case by (simp add: randOpen_def HasPrefix_def)
next
  case (Cons c p)
  then show ?case using randOpen_cross [of c p s] by simp
qed

lemma Count_none: "\<not> Contains p randOpen \<Longrightarrow> Count p randOpen = 0"
  by (induction p) (auto simp: Count.simps)

lemma Count_randOpen: "\<not> Contains p randOpen \<Longrightarrow> Count (p @ randOpen @ s) randOpen = Suc (Count s randOpen)"
proof (induction p)
  case Nil
  have "HasPrefix (randOpen @ s) randOpen" "randOpen \<noteq> []" by (simp_all add: HasPrefix_def randOpen_def)
  moreover obtain c r where cr: "randOpen @ s = c # r" using \<open>randOpen \<noteq> []\<close> by (cases "randOpen @ s") auto
  ultimately have "Count (c # r) randOpen = Suc (Count (drop (length randOpen) (c # r)) randOpen)"
    by (simp add: Count.simps [of "c # r"])
  then show ?case unfolding cr [symmetric] by simp
next
  case (Cons c p)
  then show ?case using randOpen_cross [of c p s] by (subst Count.simps) simp
qed

lemma digits_no_brace:
  assumes "list_all is_digit d" shows "\<not> Contains (d @ ''}'') randOpen"
proof -
  have "CHR ''{'' \<notin> set (d @ ''}'')" using assms by (auto simp: list_all_iff is_digit_def)
  moreover have "Contains s randOpen \<Longrightarrow> CHR ''{'' \<in> set s" for s
    by (induction s) (auto simp: randOpen_def HasPrefix_iff)
  ultimately show ?thesis by blast
qed

text \<open>a template of a prefix without a placeholder and a count of at least 24 is parsed back into prefix
  and count.\<close>

lemma fake_format_roundtrip:
  assumes "\<not> Contains pre randOpen" "24 \<le> n" "n < 2 ^ 63"
  shows "ParseFormat (pre @ randOpen @ Itoa n @ ''}'') = Inr (pre, n)"
proof -
  let ?d = "Itoa n" let ?f = "pre @ randOpen @ ?d @ ''}''"
  have d: "list_all is_digit ?d" "?d \<noteq> []" using assms(2) Itoa_digits by (auto simp: Itoa_def)
  have i: "Index ?f randOpen = Some (length pre)" using Index_randOpen [OF assms(1)] by simp
  have c: "Count ?f randOpen = 1"
    using Count_randOpen [OF assms(1)] Count_none [OF digits_no_brace [OF d(1)]] by simp
  have s: "HasSuffix ?f ''}''" by (auto simp: HasSuffix_iff)
  have a: "Atoi ?d = Some n" using assms(2,3) by (intro Atoi_Itoa) auto
  have inner: "take (length ?f - 1 - (length pre + length randOpen)) (drop (length pre + length randOpen) ?f) = ?d"
    by simp
  show ?thesis unfolding ParseFormat_def i option.case c Let_def inner a
    using s d(2) assms(2) by (simp add: minFakeEntropy_def)
qed

lemma fake_format_roundtrip_witness: "ParseFormat (''ghp_'' @ randOpen @ Itoa 36 @ ''}'') = Inr (''ghp_'', 36)"
  by (rule fake_format_roundtrip) code_simp+

lemma GenerateFake_shape:
  assumes "GenerateFake read format realLen = Inr fake" and "\<And>n b. read n = Some b \<Longrightarrow> length b = n"
  shows "length fake = realLen \<and>
    (\<exists>pre n rest. ParseFormat format = Inr (pre, n) \<and> fake = pre @ rest \<and> int (length rest) = n \<and> set rest \<subseteq> set base62)"
proof -
  obtain pre n b where f: "ParseFormat format = Inr (pre, n)" "int (length pre) + n = int realLen"
    "read (nat n) = Some b" "fake = pre @ map (\<lambda>b. base62 ! (byte b mod length base62)) b"
    using assms(1) by (auto simp: GenerateFake_def sum_bind_Inr_iff split: if_splits option.splits)
  have n: "0 \<le> n" using ParseFormat_shape [OF f(1)] by (auto simp: minFakeEntropy_def)
  have b: "int (length b) = n" using assms(2) [OF f(3)] n by simp
  have "base62 \<noteq> []" by (simp add: base62_def)
  then have "set (map (\<lambda>b. base62 ! (byte b mod length base62)) b) \<subseteq> set base62" by (auto intro!: nth_mem)
  moreover have "length fake = realLen" using f(2,4) b by simp
  ultimately show ?thesis using f(1,4) b by auto
qed

section \<open>Providers are constructed in dependency order\<close>

lemma visitNeighbors_spec:
  assumes "visitNeighbors xs deg q = (deg', q')" "\<And>n. int (count_list xs n) \<le> deg n"
  shows "deg' = (\<lambda>n. deg n - int (count_list xs n)) \<and>
    (\<exists>ws. q' = q @ ws \<and> distinct ws \<and> set ws = {n \<in> set xs. deg n = int (count_list xs n)})"
  using assms
proof (induction xs arbitrary: deg q)
  case (Cons x xs)
  let ?d = "deg(x := deg x - 1)"
  let ?q = "if ?d x = 0 then q @ [x] else q"
  have step: "visitNeighbors xs ?d ?q = (deg', q')" using Cons.prems(1) by (simp add: Let_def)
  have le: "int (count_list xs n) \<le> ?d n" for n
    using Cons.prems(2) [of n] Cons.prems(2) [of x] by (auto split: if_splits)
  from Cons.IH [OF step le] obtain ws where d: "deg' = (\<lambda>n. ?d n - int (count_list xs n))"
    and ws: "q' = ?q @ ws" "distinct ws" "set ws = {n \<in> set xs. ?d n = int (count_list xs n)}" by blast
  have deg: "deg' = (\<lambda>n. deg n - int (count_list (x # xs) n))" using d by auto
  show ?case
  proof (cases "deg x = 1")
    case True
    then have c0: "count_list xs x = 0" using le [of x] by simp
    then have "x \<notin> set xs" by (simp add: count_list_0_iff)
    then have "distinct (x # ws)" "set (x # ws) = {n \<in> set (x # xs). deg n = int (count_list (x # xs) n)}"
      "q' = q @ x # ws" using ws True c0 by auto
    then show ?thesis using deg by blast
  next
    case False
    have "set ws = {n \<in> set (x # xs). deg n = int (count_list (x # xs) n)}"
      using ws(3) False by (auto simp: count_list_0_iff)
    moreover have "q' = q @ ws" using ws(1) False by simp
    ultimately show ?thesis using deg ws(2) by blast
  qed
qed simp

text \<open>The dependencies of a provider that are not yet in the order.\<close>

definition waiting :: "(string \<Rightarrow> string list) \<Rightarrow> string list \<Rightarrow> string \<Rightarrow> string list" where
  "waiting deps order n = filter (\<lambda>d. d \<notin> set order) (deps n)"

definition topological :: "(string \<Rightarrow> string list) \<Rightarrow> string list \<Rightarrow> bool" where
  "topological deps order \<longleftrightarrow> (\<forall>i < length order. set (deps (order ! i)) \<subseteq> set (take i order))"

definition graph_of :: "string set \<Rightarrow> (string \<Rightarrow> string list) \<Rightarrow> (string \<Rightarrow> string list) \<Rightarrow> bool" where
  "graph_of N deps graph \<longleftrightarrow>
     (\<forall>d n. count_list (graph d) n = (if n \<in> N then count_list (deps n) d else 0))"

text \<open>The invariant of the sorting loop: order and queue are the providers that wait for nothing.\<close>

definition kahn_inv :: "string set \<Rightarrow> (string \<Rightarrow> string list) \<Rightarrow> string list \<Rightarrow> (string \<Rightarrow> int) \<Rightarrow> string list \<Rightarrow> bool" where
  "kahn_inv N deps queue deg order \<longleftrightarrow>
     distinct (order @ queue) \<and> set (order @ queue) = {n \<in> N. deg n = 0} \<and>
     (\<forall>n \<in> N. deg n = int (length (waiting deps order n))) \<and> (\<forall>n. n \<notin> N \<longrightarrow> deg n = 0) \<and> topological deps order"

lemma count_waiting: "length (waiting deps (order @ [c]) n) + (if c \<in> set order then 0 else count_list (deps n) c) = length (waiting deps order n)"
proof -
  have "length (filter (\<lambda>d. d \<notin> set (order @ [c])) xs) + (if c \<in> set order then 0 else count_list xs c)
      = length (filter (\<lambda>d. d \<notin> set order) xs)" for xs
    by (induction xs) auto
  then show ?thesis by (simp add: waiting_def)
qed

lemma topological_snoc:
  "topological deps (order @ [c]) \<longleftrightarrow> topological deps order \<and> set (deps c) \<subseteq> set order"
  by (auto simp: topological_def nth_append less_Suc_eq)

lemma count_sort [simp]: "count_list (sort xs) n = count_list xs n"
  by (metis count_mset mset_sort)

lemma kahn_step:
  assumes inv: "kahn_inv N deps (c # queue) deg order" and g: "graph_of N deps graph"
    and v: "visitNeighbors (sort (graph c)) deg queue = (deg', queue')"
  shows "kahn_inv N deps queue' deg' (order @ [c])"
proof -
  have c: "c \<in> N" "deg c = 0" "c \<notin> set order" "distinct (order @ c # queue)"
    and deg: "\<And>n. n \<in> N \<Longrightarrow> deg n = int (length (waiting deps order n))" "\<And>n. n \<notin> N \<Longrightarrow> deg n = 0"
    and zero: "set (order @ c # queue) = {n \<in> N. deg n = 0}" and top: "topological deps order"
    using inv by (auto simp: kahn_inv_def)
  have cnt: "count_list (graph c) n = (if n \<in> N then count_list (deps n) c else 0)" for n
    using g by (simp add: graph_of_def)
  have w: "length (waiting deps (order @ [c]) n) + count_list (deps n) c = length (waiting deps order n)" for n
    using count_waiting [of deps order c n] c(3) by simp
  have le: "int (count_list (sort (graph c)) n) \<le> deg n" for n
    using w [of n] deg [of n] by (auto simp: cnt)
  from visitNeighbors_spec [OF v le] obtain ws where d': "deg' = (\<lambda>n. deg n - int (count_list (graph c) n))"
    and ws: "queue' = queue @ ws" "distinct ws" "set ws = {n \<in> set (graph c). deg n = int (count_list (graph c) n)}"
    by auto
  have ws': "set ws = {n \<in> N. deg n > 0 \<and> deg' n = 0}"
  proof -
    have "n \<in> set (graph c) \<and> deg n = int (count_list (graph c) n) \<longleftrightarrow> n \<in> N \<and> deg n > 0 \<and> deg' n = 0" for n
      using count_list_0_iff [of "graph c" n] cnt [of n] deg(2) [of n] unfolding d' by (cases "n \<in> N") auto
    then show ?thesis unfolding ws(3) by blast
  qed
  have nonneg: "deg n \<ge> 0" for n using le [of n] by linarith
  have z: "deg n = 0 \<Longrightarrow> deg' n = 0" for n using le [of n] by (simp add: d')
  have "set ((order @ [c]) @ queue') = {n \<in> N. deg n = 0} \<union> set ws" using zero ws(1) by auto
  also have "\<dots> = {n \<in> N. deg' n = 0}" unfolding ws' using z nonneg by (auto simp: order_less_le)
  finally have "set ((order @ [c]) @ queue') = {n \<in> N. deg' n = 0}" .
  moreover have "set (order @ c # queue) \<inter> set ws = {}" unfolding zero ws' by auto
  then have "distinct ((order @ [c]) @ queue')" using c(4) ws(1,2) by auto
  moreover have "deg' n = int (length (waiting deps (order @ [c]) n))" if "n \<in> N" for n
    using w [of n] deg(1) [OF that] that by (simp add: d' cnt)
  moreover have "n \<notin> N \<Longrightarrow> deg' n = 0" for n using z deg(2) by blast
  moreover have "set (deps c) \<subseteq> set order"
    using deg(1) [OF c(1)] c(2) by (auto simp: waiting_def filter_empty_conv)
  ultimately show ?thesis using top by (simp add: kahn_inv_def topological_snoc)
qed

lemma kahn_returns:
  assumes "kahn_inv N deps queue deg order" "graph_of N deps graph" "finite N"
  shows "\<exists>order' deg'. kahn graph queue deg order = Some (order', deg') \<and> kahn_inv N deps [] deg' order'"
  using assms(1)
proof (induction "card N - length order" arbitrary: queue deg order rule: less_induct)
  case less
  show ?case
  proof (cases queue)
    case Nil
    with less.prems show ?thesis by (auto simp: kahn.simps)
  next
    case (Cons c q)
    obtain deg' q' where v: "visitNeighbors (sort (graph c)) deg q = (deg', q')" by fastforce
    from kahn_step [OF less.prems [unfolded Cons] assms(2) v]
    have inv: "kahn_inv N deps q' deg' (order @ [c])" .
    have "distinct (order @ queue)" "set (order @ queue) \<subseteq> N" using less.prems by (auto simp: kahn_inv_def)
    then have "length (order @ queue) \<le> card N" by (metis assms(3) card_mono distinct_card)
    then have "card N - length (order @ [c]) < card N - length order" using Cons by simp
    moreover have "kahn graph queue deg order = kahn graph q' deg' (order @ [c])"
      using Cons v by (simp add: kahn.simps [of graph "c # q"])
    ultimately show ?thesis using less.hyps [OF _ inv] by simp
  qed
qed

definition dep_names :: "(string \<rightharpoonup> string) \<Rightarrow> SecretRef list \<Rightarrow> string list" where
  "dep_names schemes deps = map (\<lambda>d. the (schemes (sref_Scheme d))) deps"

definition deps_of :: "(string \<rightharpoonup> string) \<Rightarrow> (string \<times> ProviderConfig) list \<Rightarrow> string \<Rightarrow> string list" where
  "deps_of schemes configs n =
     (case map_of configs n of None \<Rightarrow> [] | Some cfg \<Rightarrow> dep_names schemes (pc_Dependencies cfg))"

lemma addDeps_spec:
  assumes "addDeps schemes name deps g = Inr g'"
  shows "(\<forall>d \<in> set deps. schemes (sref_Scheme d) \<noteq> None) \<and>
    (\<forall>d n. count_list (fst g' d) n = count_list (fst g d) n + (if n = name then count_list (dep_names schemes deps) d else 0)) \<and>
    (\<forall>n. snd g' n = snd g n + (if n = name then int (length deps) else 0))"
  using assms
proof (induction deps arbitrary: g)
  case (Cons x xs)
  obtain m where m: "schemes (sref_Scheme x) = Some m" using Cons.prems by (auto split: option.splits)
  let ?g = "((fst g)(m := fst g m @ [name]), (snd g)(name := snd g name + 1))"
  have "addDeps schemes name xs ?g = Inr g'" using Cons.prems m by simp
  from Cons.IH [OF this] m show ?case by (auto simp: dep_names_def)
qed (simp add: dep_names_def)

lemma buildGraph_spec:
  assumes "buildGraph schemes configs g = Inr g'" "distinct (map fst configs)"
  shows "(\<forall>(n, c) \<in> set configs. \<forall>d \<in> set (pc_Dependencies c). schemes (sref_Scheme d) \<noteq> None) \<and>
    (\<forall>d n. count_list (fst g' d) n = count_list (fst g d) n + count_list (deps_of schemes configs n) d) \<and>
    (\<forall>n. snd g' n = snd g n + int (length (deps_of schemes configs n)))"
  using assms
proof (induction configs arbitrary: g)
  case (Cons x xs)
  obtain name cfg where x: "x = (name, cfg)" by fastforce
  obtain g1 where g1: "addDeps schemes name (pc_Dependencies cfg) g = Inr g1" "buildGraph schemes xs g1 = Inr g'"
    using Cons.prems(1) x by (auto simp: sum_bind_Inr_iff)
  have new: "deps_of schemes xs name = []" using Cons.prems(2) x
    by (auto simp: deps_of_def split: option.split dest: map_of_SomeD intro: rev_image_eqI)
  have d: "deps_of schemes (x # xs) n = (if n = name then dep_names schemes (pc_Dependencies cfg) else deps_of schemes xs n)" for n
    by (simp add: deps_of_def x)
  from Cons.IH [OF g1(2)] Cons.prems(2) addDeps_spec [OF g1(1)] show ?case
    unfolding d using new by (auto simp: x dep_names_def)
qed (simp add: deps_of_def)

lemma schemeNames_spec:
  assumes "schemeNames configs acc = Inr s"
  shows "s t = Some n \<longleftrightarrow> acc t = Some n \<or> (\<exists>cfg. (n, cfg) \<in> set configs \<and> pc_TypeName cfg = t)"
  using assms
proof (induction configs arbitrary: acc)
  case (Cons x xs)
  obtain name cfg where x: "x = (name, cfg)" by fastforce
  have a: "acc (pc_TypeName cfg) = None" "schemeNames xs (acc(pc_TypeName cfg \<mapsto> name)) = Inr s"
    using Cons.prems x by (auto split: if_splits)
  from Cons.IH [OF a(2)] a(1) show ?case by (auto simp: x)
qed simp

lemma construct_spec:
  assumes "construct ctors configs schemes done order providers = Inr ps" "distinct order"
    "dom providers \<inter> set order = {}"
  shows "providers \<subseteq>\<^sub>m ps \<and> dom ps = dom providers \<union> set order \<and>
    (\<forall>i < length order. \<exists>cfg ctor p. configs (order ! i) = Some cfg \<and> ctors (pc_TypeName cfg) = Some (Some ctor) \<and>
       ctor cfg (resolver schemes (ps |` (dom providers \<union> set (take i order))) cfg) = CtorOk p \<and> ps (order ! i) = Some p)"
  using assms
proof (induction order arbitrary: "done" providers)
  case (Cons n ns)
  obtain cfg ctor p where c: "configs n = Some cfg" "ctors (pc_TypeName cfg) = Some (Some ctor)"
    "ctor cfg (resolver schemes providers cfg) = CtorOk p"
    "construct ctors configs schemes (done @ [n]) ns (providers(n \<mapsto> p)) = Inr ps"
    using Cons.prems(1) by (auto split: option.splits ctor_result.splits)
  have "distinct ns" "dom (providers(n \<mapsto> p)) \<inter> set ns = {}" using Cons.prems(2,3) by auto
  note IH = Cons.IH [OF c(4) this]
  have new: "n \<notin> dom providers" using Cons.prems(3) by auto
  have le: "providers \<subseteq>\<^sub>m ps" using IH new unfolding map_le_def by (metis domI domIff fun_upd_apply)
  then have r: "ps |` dom providers = providers"
    by (auto simp: fun_eq_iff restrict_map_def map_le_def domIff)
  have "\<exists>cfg ctor p. configs ((n # ns) ! i) = Some cfg \<and> ctors (pc_TypeName cfg) = Some (Some ctor) \<and>
       ctor cfg (resolver schemes (ps |` (dom providers \<union> set (take i (n # ns)))) cfg) = CtorOk p \<and> ps ((n # ns) ! i) = Some p"
    if i: "i < length (n # ns)" for i
  proof (cases i)
    case 0
    have "ps n = Some p" using IH unfolding map_le_def by (metis domI fun_upd_same)
    then show ?thesis using c r 0 by auto
  next
    case (Suc j)
    have e: "dom providers \<union> set (take (Suc j) (n # ns)) = dom (providers(n \<mapsto> p)) \<union> set (take j ns)" by auto
    have "j < length ns" using i Suc by simp
    with IH show ?thesis unfolding Suc nth_Cons_Suc e by blast
  qed
  with IH le show ?case by auto
qed (simp add: map_le_def)

text \<open>Which providers another one depends on: it declares a reference whose scheme they handle.\<close>

definition depends :: "(string \<times> ProviderConfig option) list \<Rightarrow> string \<Rightarrow> string \<Rightarrow> bool" where
  "depends configs n m \<longleftrightarrow>
     (\<exists>cfg cfg'. \<exists>ref \<in> set (pc_Dependencies cfg).
        (n, Some cfg) \<in> set configs \<and> (m, Some cfg') \<in> set configs \<and> pc_TypeName cfg' = sref_Scheme ref)"

lemma deps_of_depends:
  assumes c: "configs = map (\<lambda>(n, c). (n, the c)) configs0" "\<forall>(n, c) \<in> set configs0. c \<noteq> None"
    and d: "distinct (map fst configs0)" and s: "schemeNames configs Map.empty = Inr schemes"
    and def: "\<forall>(n, c) \<in> set configs. \<forall>r \<in> set (pc_Dependencies c). schemes (sref_Scheme r) \<noteq> None"
  shows "m \<in> set (deps_of schemes configs n) \<longleftrightarrow> depends configs0 n m"
proof -
  have mem: "(x, y) \<in> set configs \<longleftrightarrow> (x, Some y) \<in> set configs0" for x y
  proof -
    have "(x, y) \<in> set configs \<longleftrightarrow> (\<exists>z. (x, z) \<in> set configs0 \<and> y = the z)"
      by (auto simp: c(1) intro: rev_image_eqI)
    then show ?thesis using c(2) by auto
  qed
  have "distinct (map fst configs)" using d c(1) by (simp add: comp_def case_prod_unfold)
  then have mo: "map_of configs n = Some cfg \<longleftrightarrow> (n, cfg) \<in> set configs" for cfg by simp
  have "m \<in> set (deps_of schemes configs n) \<longleftrightarrow>
      (\<exists>cfg. (n, cfg) \<in> set configs \<and> (\<exists>r \<in> set (pc_Dependencies cfg). m = the (schemes (sref_Scheme r))))"
    unfolding mo [symmetric] by (cases "map_of configs n") (auto simp: deps_of_def dep_names_def)
  also have "\<dots> \<longleftrightarrow> (\<exists>cfg. (n, cfg) \<in> set configs \<and> (\<exists>r \<in> set (pc_Dependencies cfg). schemes (sref_Scheme r) = Some m))"
  proof -
    have "m = the (schemes (sref_Scheme r)) \<longleftrightarrow> schemes (sref_Scheme r) = Some m"
      if "(n, cfg) \<in> set configs" "r \<in> set (pc_Dependencies cfg)" for cfg r
    proof -
      have "schemes (sref_Scheme r) \<noteq> None" using def that by blast
      then show ?thesis by auto
    qed
    then show ?thesis by blast
  qed
  also have "\<dots> \<longleftrightarrow> depends configs0 n m"
    unfolding schemeNames_spec [OF s] mem depends_def by auto
  finally show ?thesis .
qed

lemma kahn_inv_init:
  assumes "distinct names" "\<And>n. deg n = int (length (deps n))" "\<And>n. n \<notin> set names \<Longrightarrow> deps n = []"
  shows "kahn_inv (set names) deps (sort (filter (\<lambda>n. deg n = 0) names)) deg []"
  using assms by (auto simp: kahn_inv_def waiting_def topological_def)

lemma kahn_blocked:
  assumes "kahn_inv N deps [] deg order" "\<And>n. n \<in> N \<Longrightarrow> set (deps n) \<subseteq> N" "n \<in> N" "deg n > 0"
  shows "\<exists>m \<in> N. m \<in> set (deps n) \<and> deg m > 0"
proof -
  have "waiting deps order n \<noteq> []" using assms(1,3,4) by (auto simp: kahn_inv_def)
  then obtain m where m: "m \<in> set (deps n)" "m \<notin> set order" by (auto simp: waiting_def filter_empty_conv)
  then have "m \<in> N" using assms(2,3) by auto
  then have "deg m \<noteq> 0" "deg m \<ge> 0" using m(2) assms(1) by (auto simp: kahn_inv_def)
  then show ?thesis using m \<open>m \<in> N\<close> by (intro bexI [of _ m]) auto
qed

lemma deps_in_names:
  assumes "distinct (map fst cs)" and s: "schemeNames cs Map.empty = Inr schemes"
    and g: "buildGraph schemes cs g0 = Inr g1"
  shows "set (deps_of schemes cs n) \<subseteq> fst ` set cs"
proof
  fix m assume "m \<in> set (deps_of schemes cs n)"
  then obtain cfg r where c: "(n, cfg) \<in> set cs" "r \<in> set (pc_Dependencies cfg)" "m = the (schemes (sref_Scheme r))"
    by (cases "map_of cs n") (auto simp: deps_of_def dep_names_def dest: map_of_SomeD)
  then have "schemes (sref_Scheme r) = Some m" using buildGraph_spec [OF g assms(1)] by fastforce
  then show "m \<in> fst ` set cs" unfolding schemeNames_spec [OF s] by (auto intro: rev_image_eqI)
qed

lemma sorted_configs:
  assumes "distinct (map fst cs)" and g: "buildGraph schemes cs (\<lambda>_. [], \<lambda>_. 0) = Inr (graph, deg)"
  shows "\<exists>order deg'. kahn graph (sort (filter (\<lambda>n. deg n = 0) (map fst cs))) deg [] = Some (order, deg') \<and>
    kahn_inv (fst ` set cs) (deps_of schemes cs) [] deg' order"
proof (rule kahn_returns)
  note bg = buildGraph_spec [OF g assms(1)]
  have out: "deps_of schemes cs n = []" if "n \<notin> fst ` set cs" for n
    using that by (auto simp: deps_of_def split: option.split dest: map_of_SomeD intro: rev_image_eqI)
  show "graph_of (fst ` set cs) (deps_of schemes cs) graph" using bg out by (auto simp: graph_of_def)
  show "kahn_inv (fst ` set cs) (deps_of schemes cs) (sort (filter (\<lambda>n. deg n = 0) (map fst cs))) deg []"
    using kahn_inv_init [OF assms(1), of deg "deps_of schemes cs"] bg out by simp
qed simp

lemma construct_error:
  "construct ctors configs schemes done order providers \<noteq> Inl (ErrCyclicDependency b)"
  by (induction order arbitrary: "done" providers) (auto split: option.split ctor_result.split)

lemma early_errors:
  "checkConfigs ctors cs \<noteq> Some (ErrCyclicDependency b)" "schemeNames cs acc \<noteq> Inl (ErrCyclicDependency b)"
  "addDeps schemes name deps g \<noteq> Inl (ErrCyclicDependency b)" "buildGraph schemes cs g \<noteq> Inl (ErrCyclicDependency b)"
proof -
  show add: "addDeps schemes name deps g \<noteq> Inl (ErrCyclicDependency b)" for name deps g
    by (induction deps arbitrary: g) (auto split: option.split)
  show "checkConfigs ctors cs \<noteq> Some (ErrCyclicDependency b)"
    by (induction cs) (auto split: if_splits)
  show "schemeNames cs acc \<noteq> Inl (ErrCyclicDependency b)"
    by (induction cs arbitrary: acc) (auto split: if_splits)
  show "buildGraph schemes cs g \<noteq> Inl (ErrCyclicDependency b)"
  proof (induction cs arbitrary: g)
    case (Cons x cs)
    then show ?case using add by (cases x, cases g, cases "addDeps schemes (fst x) (pc_Dependencies (snd x)) g") (auto simp: sum_bind_def)
  qed simp
qed

text \<open>A well-built registry: every provider is constructed once, after the ones it depends on, by its
  constructor with a resolver over exactly the providers constructed before.\<close>

definition registry_ok :: "(string \<times> ProviderConfig option) list \<Rightarrow> (string \<times> constructor option) list \<Rightarrow> Registry \<Rightarrow> bool" where
  "registry_ok configs constructors r \<longleftrightarrow>
     distinct (rg_order r) \<and> set (rg_order r) = fst ` set configs \<and> dom (rg_providers r) = fst ` set configs \<and>
     (\<forall>i < length (rg_order r). \<forall>m. depends configs (rg_order r ! i) m \<longrightarrow> m \<in> set (take i (rg_order r))) \<and>
     (\<forall>i < length (rg_order r). \<exists>cfg ctor p.
        (rg_order r ! i, Some cfg) \<in> set configs \<and> map_of constructors (pc_TypeName cfg) = Some (Some ctor) \<and>
        ctor cfg (resolver (rg_schemeToName r) (rg_providers r |` set (take i (rg_order r))) cfg) = CtorOk p \<and>
        rg_providers r (rg_order r ! i) = Some p)"

lemma NewRegistry_late:
  assumes d: "distinct (map fst configs)" and nn: "\<forall>(n, c) \<in> set configs. c \<noteq> None"
    and cs: "cs = map (\<lambda>(n, c). (n, the c)) configs"
    and s: "schemeNames cs Map.empty = Inr schemes"
    and g: "buildGraph schemes cs (\<lambda>_. [], \<lambda>_. 0) = Inr (graph, deg)"
  shows "\<exists>order deg'. kahn graph (sort (filter (\<lambda>n. deg n = 0) (map fst cs))) deg [] = Some (order, deg') \<and>
    (if length order \<noteq> length cs then
       \<exists>b. b = sort (filter (\<lambda>n. deg' n > 0) (map fst cs)) \<and> b \<noteq> [] \<and>
         (\<forall>n \<in> set b. \<exists>m \<in> set b. depends configs n m)
     else \<forall>ps. construct (map_of constructors) (map_of cs) schemes [] order Map.empty = Inr ps \<longrightarrow>
       registry_ok configs constructors
         \<lparr>rg_providers = ps, rg_order = order, rg_schemeToName = schemes, rg_closed = False\<rparr>)"
proof -
  have fstcs: "map fst cs = map fst configs" by (simp add: cs comp_def case_prod_unfold)
  then have N: "fst ` set cs = fst ` set configs" by (metis list.set_map)
  have dcs: "distinct (map fst cs)" using d fstcs by simp
  note bg = buildGraph_spec [OF g dcs]
  have dep: "m \<in> set (deps_of schemes cs n) \<longleftrightarrow> depends configs n m" for n m
    using deps_of_depends [OF cs nn d s] bg by blast
  obtain order deg' where k: "kahn graph (sort (filter (\<lambda>n. deg n = 0) (map fst cs))) deg [] = Some (order, deg')"
    and inv: "kahn_inv (fst ` set cs) (deps_of schemes cs) [] deg' order"
    using sorted_configs [OF dcs g] by blast
  note sub = deps_in_names [OF dcs s g]
  have o: "distinct order" "set order = {n \<in> fst ` set cs. deg' n = 0}" "topological (deps_of schemes cs) order"
    "\<And>n. n \<in> fst ` set cs \<Longrightarrow> deg' n \<ge> 0"
    using inv by (auto simp: kahn_inv_def)
  show ?thesis
  proof (cases "length order = length cs")
    case False
    have len: "card (fst ` set cs) = length cs" using dcs by (metis distinct_card length_map list.set_map)
    then have "set order \<noteq> fst ` set cs" using False o(1) by (metis distinct_card)
    then obtain n where n: "n \<in> fst ` set cs" "deg' n > 0" using o(2,4) by (auto simp: order_less_le)
    let ?b = "sort (filter (\<lambda>n. deg' n > 0) (map fst cs))"
    have "?b \<noteq> []" using n by (metis (mono_tags, lifting) filter_empty_conv list.set_map set_empty set_sort)
    moreover have "\<exists>m \<in> set ?b. depends configs n m" if "n \<in> set ?b" for n
      using that kahn_blocked [OF inv sub, of n] dep by auto
    ultimately show ?thesis using k False by auto
  next
    case True
    have "length order = card (fst ` set cs)" using True dcs by (metis distinct_card length_map list.set_map)
    then have "card (set order) = card (fst ` set cs)" using distinct_card [OF o(1)] by simp
    moreover have "set order \<subseteq> fst ` set cs" using o(2) by auto
    ultimately have all: "set order = fst ` set cs" by (intro card_subset_eq) auto
    have "registry_ok configs constructors \<lparr>rg_providers = ps, rg_order = order, rg_schemeToName = schemes, rg_closed = False\<rparr>"
      if c: "construct (map_of constructors) (map_of cs) schemes [] order Map.empty = Inr ps" for ps
    proof -
      note sp = construct_spec [OF c o(1)]
      have mem: "(n, Some cfg) \<in> set configs" if mo: "map_of cs n = Some cfg" for n cfg
      proof -
        obtain c where c: "(n, c) \<in> set configs" "cfg = the c" using map_of_SomeD [OF mo] by (auto simp: cs)
        moreover have "c \<noteq> None" using c(1) nn by blast
        ultimately show ?thesis by auto
      qed
      have "\<forall>i < length order. \<forall>m. depends configs (order ! i) m \<longrightarrow> m \<in> set (take i order)"
        using o(3) dep by (auto simp: topological_def)
      moreover have "\<exists>cfg ctor p. (order ! i, Some cfg) \<in> set configs \<and>
          map_of constructors (pc_TypeName cfg) = Some (Some ctor) \<and>
          ctor cfg (resolver schemes (ps |` set (take i order)) cfg) = CtorOk p \<and> ps (order ! i) = Some p"
        if i: "i < length order" for i
      proof -
        from sp i obtain cfg ctor p where "map_of cs (order ! i) = Some cfg"
          "map_of constructors (pc_TypeName cfg) = Some (Some ctor)"
          "ctor cfg (resolver schemes (ps |` set (take i order)) cfg) = CtorOk p" "ps (order ! i) = Some p" by auto
        then show ?thesis using mem by blast
      qed
      moreover have "dom ps = set order" using sp by simp
      ultimately show ?thesis using all N o(1) by (simp add: registry_ok_def)
    qed
    then show ?thesis using k True by auto
  qed
qed

text \<open>C39: the construction of the provider registry always returns. A registry it returns has every configured
  provider once, in an order in which each comes after all its dependencies and was given a resolver over
  the providers before it; the cyclic-dependency error names providers each of which depends on another
  one of them.\<close>

theorem NewRegistry_order:
  assumes "distinct (map fst configs)"
  shows "\<exists>result. NewRegistry configs constructors = Some result \<and>
    (case result of
       Inr r \<Rightarrow> registry_ok configs constructors r
     | Inl (ErrCyclicDependency blocked) \<Rightarrow>
         blocked \<noteq> [] \<and> (\<forall>n \<in> set blocked. \<exists>m \<in> set blocked. depends configs n m)
     | Inl _ \<Rightarrow> True)"
proof -
  define cs where cs: "cs = map (\<lambda>(n, c). (n, the c)) configs"
  note new = NewRegistry_def [unfolded Let_def, of configs constructors, folded cs]
  show ?thesis
  proof (cases "find (\<lambda>(n, c). c = None) configs")
    case nn0: None
    then have nn: "\<forall>(n, c) \<in> set configs. c \<noteq> None" using find_None_iff [of _ configs] by fastforce
    show ?thesis
    proof (cases "find (\<lambda>(n, c). Option.is_none c) constructors")
      case nc: None
      show ?thesis
      proof (cases "checkConfigs (map_of constructors) cs")
        case ck: None
        show ?thesis
        proof (cases "schemeNames cs Map.empty")
          case (Inl err)
          then show ?thesis using early_errors(2) [of cs Map.empty]
            by (auto simp: new nn0 nc ck split: registry_error.split)
        next
          case sn: (Inr schemes)
          show ?thesis
          proof (cases "buildGraph schemes cs (\<lambda>_. [], \<lambda>_. 0)")
            case (Inl err)
            then show ?thesis using early_errors(4) [of schemes cs "(\<lambda>_. [], \<lambda>_. 0)"]
              by (auto simp: new nn0 nc ck sn split: registry_error.split)
          next
            case (Inr gd)
            obtain graph deg where g: "buildGraph schemes cs (\<lambda>_. [], \<lambda>_. 0) = Inr (graph, deg)"
              using Inr by (cases gd) simp
            from NewRegistry_late [OF assms nn cs sn g, of constructors] obtain order deg' where
              k: "kahn graph (sort (filter (\<lambda>n. deg n = 0) (map fst cs))) deg [] = Some (order, deg')"
              and l: "if length order \<noteq> length cs then
                 \<exists>b. b = sort (filter (\<lambda>n. deg' n > 0) (map fst cs)) \<and> b \<noteq> [] \<and> (\<forall>n \<in> set b. \<exists>m \<in> set b. depends configs n m)
               else \<forall>ps. construct (map_of constructors) (map_of cs) schemes [] order Map.empty = Inr ps \<longrightarrow>
                 registry_ok configs constructors
                   \<lparr>rg_providers = ps, rg_order = order, rg_schemeToName = schemes, rg_closed = False\<rparr>" by blast
            note new' = new [unfolded nn0 nc ck sn g k option.case sum.case prod.case]
            show ?thesis
            proof (cases "length order = length cs")
              case True
              show ?thesis
              proof (cases "construct (map_of constructors) (map_of cs) schemes [] order Map.empty")
                case (Inl err)
                then show ?thesis using True construct_error [of "map_of constructors" "map_of cs" schemes "[]" order Map.empty]
                  by (auto simp: new' sum_bind_def split: registry_error.split)
              next
                case (Inr ps)
                then show ?thesis using True l by (simp add: new' sum_bind_def)
              qed
            qed (use l in \<open>auto simp: new'\<close>)
          qed
        qed
      qed (use early_errors(1) [of "map_of constructors" cs] in \<open>auto simp: new nn0 nc split: registry_error.split\<close>)
    qed (auto simp: new nn0)
  qed (auto simp: new)
qed

definition example_configs :: "(string \<times> ProviderConfig option) list" where
  "example_configs =
     [(''v'', Some \<lparr>pc_TypeName = ''vault'',
         pc_Dependencies = [\<lparr>sref_Scheme = ''keyring'', sref_Host = ''agentsh'', sref_Path = ''token'', sref_Field = []\<rparr>]\<rparr>),
      (''kr'', Some \<lparr>pc_TypeName = ''keyring'', pc_Dependencies = []\<rparr>)]"

definition example_constructors :: "(string \<times> constructor option) list" where
  "example_constructors =
     [(''keyring'', Some (\<lambda>cfg res. CtorOk (\<lambda>ref. Some ''tok''))),
      (''vault'', Some (\<lambda>cfg res. case res (hd (pc_Dependencies cfg)) of None \<Rightarrow> CtorFailed | Some t \<Rightarrow> CtorOk (\<lambda>ref. Some t)))]"

theorem NewRegistry_order_witness:
  "\<exists>r. NewRegistry example_configs example_constructors = Some (Inr r) \<and> rg_order r = [''kr'', ''v''] \<and>
     registry_ok example_configs example_constructors r"
proof -
  have "distinct (map fst example_configs)" by code_simp
  from NewRegistry_order [OF this, of example_constructors] obtain result where
    r: "NewRegistry example_configs example_constructors = Some result"
    and ok: "case result of Inr r \<Rightarrow> registry_ok example_configs example_constructors r
      | Inl (ErrCyclicDependency blocked) \<Rightarrow> blocked \<noteq> [] \<and> (\<forall>n \<in> set blocked. \<exists>m \<in> set blocked. depends example_configs n m)
      | Inl _ \<Rightarrow> True" by blast
  have "map_option (map_sum id rg_order) (NewRegistry example_configs example_constructors) = Some (Inr [''kr'', ''v''])"
    by code_simp
  then show ?thesis using r ok by (cases result) auto
qed

end
