(* ===== verification/PolicyValidate.thy ===== *)
theory PolicyValidate
  imports NetworkCheck Secrets
begin

text \<open>
  \<^verbatim>\<open>Policy.Validate\<close> of \<^verbatim>\<open>internal/policy/model.go\<close> and the validation of service credentials against the
  declared secret providers in \<^verbatim>\<open>http_service.go\<close>, and what a validated policy guarantees to the engine. The
  errors carry the data of the Go messages, not their text. \<^verbatim>\<open>parse\<close> stands for \<^verbatim>\<open>url.Parse\<close>.
\<close>

section \<open>Redirect rules\<close>

definition visibilities :: "string list" where
  "visibilities = [[], ''silent'', ''audit_only'', ''warn'']"

definition failureModes :: "string list" where
  "failureModes = [[], ''fail_closed'', ''fail_open'', ''retry_original'']"

datatype redirect_error =
    NameMissing | MatchMissing | MatchInvalid | ResolveToMissing | ResolveToInvalid | TargetsInvalid
  | TLSModeInvalid | SNIMissing | VisibilityInvalid | OnFailureInvalid

definition validateDnsRedirect :: "golib \<Rightarrow> DnsRedirectRule \<Rightarrow> redirect_error option" where
  "validateDnsRedirect lib r =
     (if dr_Name r = [] then Some NameMissing
      else if dr_Match r = [] then Some MatchMissing
      else if regexp_Compile lib (dr_Match r) = None then Some MatchInvalid
      else if dr_ResolveTo r = [] then Some ResolveToMissing
      else if ParseIP lib (dr_ResolveTo r) = None then Some ResolveToInvalid
      else if dr_Visibility r \<notin> set visibilities then Some VisibilityInvalid
      else if dr_OnFailure r \<notin> set failureModes then Some OnFailureInvalid
      else None)"

definition validateConnectRedirect :: "golib \<Rightarrow> ConnectRedirectRule \<Rightarrow> redirect_error option" where
  "validateConnectRedirect lib r =
     (let targets = (if xr_RedirectTo r \<noteq> [] then 1 else 0) + (if xr_RedirectToUnix r \<noteq> [] then 1 else (0 :: nat)) in
      if xr_Name r = [] then Some NameMissing
      else if xr_Match r = [] then Some MatchMissing
      else if regexp_Compile lib (xr_Match r) = None then Some MatchInvalid
      else if targets \<noteq> 1 then Some TargetsInvalid
      else if (case xr_TLS r of None \<Rightarrow> False | Some t \<Rightarrow> tls_Mode t \<notin> {[], ''passthrough'', ''rewrite_sni''})
        then Some TLSModeInvalid
      else if (case xr_TLS r of None \<Rightarrow> False | Some t \<Rightarrow> tls_Mode t = ''rewrite_sni'' \<and> tls_SNI t = []) then Some SNIMissing
      else if xr_Visibility r \<notin> set visibilities then Some VisibilityInvalid
      else if xr_OnFailure r \<notin> set failureModes then Some OnFailureInvalid
      else None)"

text \<open>The first error in the order of the policy file, with the position of the rule.\<close>

fun firstError :: "('a \<Rightarrow> 'b option) \<Rightarrow> nat \<Rightarrow> 'a list \<Rightarrow> (nat \<times> 'b) option" where
  "firstError f i [] = None"
| "firstError f i (x # xs) = (case f x of Some err \<Rightarrow> Some (i, err) | None \<Rightarrow> firstError f (i + 1) xs)"

section \<open>Credentials of HTTP services\<close>

definition knownProviderTypes :: "string list" where
  "knownProviderTypes = [''keyring'', ''vault'', ''aws-sm'', ''gcp-sm'', ''azure-kv'', ''op'']"

datatype credential_error =
    Structural http_error
  | ProviderUndecodable string
  | ProviderTypeRequired string
  | ProviderTypeUnknown string string
  | ProviderTypeDuplicate string string string
  | NoSecretNoRules string
  | InjectRequiresSecret string
  | InvalidSecretRef string ref_error
  | NoMatchingProvider string string
  | NoProvidersDeclared string string
  | InvalidFakeFormat string fake_error
  | TemplateWithoutSecret string
  | InjectHeaderName string
  | InjectHeaderRequired string

fun providerSchemes :: "(string \<times> string option) list \<Rightarrow> (string \<rightharpoonup> string) \<Rightarrow> credential_error + (string \<rightharpoonup> string)" where
  "providerSchemes [] acc = Inr acc"
| "providerSchemes ((name, node) # rest) acc =
     (case node of
        None \<Rightarrow> Inl (ProviderUndecodable name)
      | Some type \<Rightarrow>
          if type = [] then Inl (ProviderTypeRequired name)
          else if type \<notin> set knownProviderTypes then Inl (ProviderTypeUnknown name type)
          else
            (case acc type of
               Some prev \<Rightarrow> Inl (ProviderTypeDuplicate name type prev)
             | None \<Rightarrow> providerSchemes rest (acc(type \<mapsto> name))))"

definition validateSecret :: "(string \<Rightarrow> URL option) \<Rightarrow> bool \<Rightarrow> (string \<rightharpoonup> string) \<Rightarrow> string \<Rightarrow> HTTPServiceSecret \<Rightarrow> credential_error option" where
  "validateSecret parse declared schemes svc secret =
     (case ParseRef parse (hs_Ref secret) of
        Inl err \<Rightarrow> Some (InvalidSecretRef svc err)
      | Inr ref \<Rightarrow>
          if declared \<and> schemes (sref_Scheme ref) = None then Some (NoMatchingProvider svc (sref_Scheme ref))
          else if \<not> declared then Some (NoProvidersDeclared svc (sref_Scheme ref))
          else (case ParseFormat (hs_Format secret) of Inl err \<Rightarrow> Some (InvalidFakeFormat svc err) | Inr _ \<Rightarrow> None))"

definition validateCredentials :: "(string \<Rightarrow> URL option) \<Rightarrow> bool \<Rightarrow> (string \<rightharpoonup> string) \<Rightarrow> HTTPService \<Rightarrow> credential_error option" where
  "validateCredentials parse declared schemes s =
     (if h_Secret s = None \<and> h_Rules s = [] then Some (NoSecretNoRules (h_Name s))
      else if h_Inject s \<noteq> None \<and> h_Secret s = None then Some (InjectRequiresSecret (h_Name s))
      else
        (case (case h_Secret s of None \<Rightarrow> None | Some secret \<Rightarrow> validateSecret parse declared schemes (h_Name s) secret) of
           Some err \<Rightarrow> Some err
         | None \<Rightarrow>
             (case h_Inject s of
                None \<Rightarrow> None
              | Some None \<Rightarrow> Some (InjectHeaderRequired (h_Name s))
              | Some (Some ih) \<Rightarrow>
                  if \<not> Contains (hi_Template ih) ''{{secret}}'' then Some (TemplateWithoutSecret (h_Name s))
                  else if TrimSpace (hi_Name ih) = [] then Some (InjectHeaderName (h_Name s))
                  else None)))"

fun validateCredentialsLoop :: "(string \<Rightarrow> URL option) \<Rightarrow> bool \<Rightarrow> (string \<rightharpoonup> string) \<Rightarrow> HTTPService list \<Rightarrow> credential_error option" where
  "validateCredentialsLoop parse declared schemes [] = None"
| "validateCredentialsLoop parse declared schemes (s # svcs) =
     (case validateCredentials parse declared schemes s of
        Some err \<Rightarrow> Some err
      | None \<Rightarrow> validateCredentialsLoop parse declared schemes svcs)"

definition ValidateHTTPServicesWithProviders :: "golib \<Rightarrow> (string \<Rightarrow> URL option) \<Rightarrow> HTTPService list \<Rightarrow>
    (string \<times> string option) list \<Rightarrow> credential_error option" where
  "ValidateHTTPServicesWithProviders lib parse svcs providers =
     (case ValidateHTTPServices lib svcs of
        Some err \<Rightarrow> Some (Structural err)
      | None \<Rightarrow>
          (case providerSchemes providers Map.empty of
             Inl err \<Rightarrow> Some err
           | Inr schemes \<Rightarrow> validateCredentialsLoop parse (providers \<noteq> []) schemes svcs))"

section \<open>Policies\<close>

datatype policy_error =
    VersionInvalid
  | PolicyNameRequired
  | MetadataRuleName nat
  | MetadataSource nat
  | DnsRedirectInvalid nat redirect_error
  | PackageOptionsUnsupported nat
  | ConnectRedirectInvalid nat redirect_error
  | ServicesReplaced
  | HTTPServicesInvalid credential_error

definition validateMetadata :: "RuleMetadata \<Rightarrow> (nat \<Rightarrow> policy_error) option" where
  "validateMetadata m =
     (if rm_RuleName m = [] then Some MetadataRuleName else if rm_Source m = [] then Some MetadataSource else None)"

definition validatePackageRule :: "PackageRule \<Rightarrow> (nat \<Rightarrow> policy_error) option" where
  "validatePackageRule r = (if length (pm_Options (pr_Match r)) > 0 then Some PackageOptionsUnsupported else None)"

definition Validate :: "golib \<Rightarrow> (string \<Rightarrow> URL option) \<Rightarrow> Policy \<Rightarrow> policy_error option" where
  "Validate lib parse p =
     (if p_Version p \<le> 0 then Some VersionInvalid
      else if p_Name p = [] then Some PolicyNameRequired
      else
        (case firstError validateMetadata 0 (p_Metadata p) of
           Some (i, err) \<Rightarrow> Some (err i)
         | None \<Rightarrow>
        (case firstError (validateDnsRedirect lib) 0 (p_DnsRedirectRules p) of
           Some (i, err) \<Rightarrow> Some (DnsRedirectInvalid i err)
         | None \<Rightarrow>
        (case firstError validatePackageRule 0 (p_PackageRules p) of
           Some (i, err) \<Rightarrow> Some (err i)
         | None \<Rightarrow>
        (case firstError (validateConnectRedirect lib) 0 (p_ConnectRedirectRules p) of
           Some (i, err) \<Rightarrow> Some (ConnectRedirectInvalid i err)
         | None \<Rightarrow>
             if p_Services p then Some ServicesReplaced
             else map_option HTTPServicesInvalid
                    (ValidateHTTPServicesWithProviders lib parse (p_HTTPServices p) (p_Providers p)))))))"

section \<open>What validation guarantees\<close>

lemma firstError_None: "firstError f i xs = None \<longleftrightarrow> (\<forall>x \<in> set xs. f x = None)"
  by (induction xs arbitrary: i) (auto split: option.split)

lemma ValidateD:
  assumes "Validate lib parse p = None"
  shows "\<forall>r \<in> set (p_DnsRedirectRules p). validateDnsRedirect lib r = None"
    "\<forall>r \<in> set (p_ConnectRedirectRules p). validateConnectRedirect lib r = None"
    "ValidateHTTPServicesWithProviders lib parse (p_HTTPServices p) (p_Providers p) = None"
    "0 < p_Version p" "p_Name p \<noteq> []"
  using assms by (auto simp: Validate_def firstError_None split: if_splits option.splits prod.splits)

text \<open>Well-formed results of redirects: a valid address or exactly one target, a server name when it is
  rewritten, and known modes.\<close>

definition dns_result_ok :: "golib \<Rightarrow> DnsRedirectResult \<Rightarrow> bool" where
  "dns_result_ok lib res \<longleftrightarrow>
     (dres_Matched res \<longrightarrow> ParseIP lib (dres_ResolveTo res) \<noteq> None \<and>
        dres_Visibility res \<in> {''silent'', ''audit_only'', ''warn''} \<and>
        dres_OnFailure res \<in> {''fail_closed'', ''fail_open'', ''retry_original''})"

definition connect_result_ok :: "ConnectRedirectResult \<Rightarrow> bool" where
  "connect_result_ok res \<longleftrightarrow>
     (cres_Matched res \<longrightarrow> (cres_RedirectTo res = []) \<noteq> (cres_RedirectToUnix res = []) \<and>
        cres_TLSMode res \<in> {''passthrough'', ''rewrite_sni''} \<and>
        (cres_TLSMode res = ''rewrite_sni'' \<longrightarrow> cres_SNI res \<noteq> []) \<and>
        cres_Visibility res \<in> {''silent'', ''audit_only'', ''warn''} \<and>
        cres_OnFailure res \<in> {''fail_closed'', ''fail_open'', ''retry_original''})"

lemma dnsRules_valid:
  assumes "\<forall>r \<in> set rs. validateDnsRedirect lib r = None"
  shows "\<exists>res. dnsRules (map (\<lambda>r. \<lparr>cdr_rule = r, cdr_pattern = regexp_Compile lib (dr_Match r)\<rparr>) rs) h = Some res \<and> dns_result_ok lib res"
  using assms
proof (induction rs)
  case (Cons r rs)
  have v: "validateDnsRedirect lib r = None" using Cons.prems by simp
  obtain re where "regexp_Compile lib (dr_Match r) = Some re"
    using v by (auto simp: validateDnsRedirect_def split: if_splits)
  then show ?case using Cons v
    by (auto simp: validateDnsRedirect_def visibilities_def failureModes_def orDefault_def dns_result_ok_def split: if_splits)
qed (simp add: dns_result_ok_def)

lemma connectRules_valid:
  assumes "\<forall>r \<in> set rs. validateConnectRedirect lib r = None"
  shows "\<exists>res. connectRules (map (\<lambda>r. \<lparr>cxr_rule = r, cxr_pattern = regexp_Compile lib (xr_Match r)\<rparr>) rs) h = Some res \<and> connect_result_ok res"
  using assms
proof (induction rs)
  case (Cons r rs)
  have v: "validateConnectRedirect lib r = None" using Cons.prems by simp
  have f: "regexp_Compile lib (xr_Match r) \<noteq> None" "(xr_RedirectTo r = []) \<noteq> (xr_RedirectToUnix r = [])"
    "\<And>t. xr_TLS r = Some t \<Longrightarrow> tls_Mode t \<in> {[], ''passthrough'', ''rewrite_sni''} \<and> (tls_Mode t = ''rewrite_sni'' \<longrightarrow> tls_SNI t \<noteq> [])"
    "xr_Visibility r \<in> set visibilities" "xr_OnFailure r \<in> set failureModes"
    using v by (auto simp: validateConnectRedirect_def Let_def split: if_splits)
  then obtain re where re: "regexp_Compile lib (xr_Match r) = Some re" by blast
  show ?case
  proof (cases "re h")
    case True
    show ?thesis using re True f(2,4,5) f(3) [of "the (xr_TLS r)"]
      by (cases "xr_TLS r") (auto simp: visibilities_def failureModes_def orDefault_def connect_result_ok_def Let_def)
  qed (use Cons re in auto)
qed (simp add: connect_result_ok_def)

lemma validateCredentialsLoop_None:
  "validateCredentialsLoop parse declared schemes svcs = None \<longleftrightarrow> (\<forall>s \<in> set svcs. validateCredentials parse declared schemes s = None)"
  by (induction svcs) (auto split: option.split)

lemma providerSchemes_spec:
  "providerSchemes ps acc = Inr m \<Longrightarrow> m t = Some n \<Longrightarrow> acc t = Some n \<or> (n, Some t) \<in> set ps"
proof (induction ps arbitrary: acc)
  case (Cons x ps)
  obtain name type where x: "x = (name, Some type)" "providerSchemes ps (acc(type \<mapsto> name)) = Inr m"
    using Cons.prems(1) by (cases x) (auto split: option.splits if_splits)
  from Cons.IH [OF x(2) Cons.prems(2)] x(1) show ?case by (auto split: if_splits)
qed simp

lemma credentials_valid:
  assumes "ValidateHTTPServicesWithProviders lib parse svcs providers = None" "s \<in> set svcs" "h_Secret s = Some secret"
  shows "\<exists>ref pre n. ParseRef parse (hs_Ref secret) = Inr ref \<and> sref_Scheme ref \<in> Option.these (snd ` set providers)
    \<and> ParseFormat (hs_Format secret) = Inr (pre, n)"
proof -
  obtain schemes where sch: "providerSchemes providers Map.empty = Inr schemes"
    "\<forall>s \<in> set svcs. validateCredentials parse (providers \<noteq> []) schemes s = None"
    using assms(1) by (auto simp: ValidateHTTPServicesWithProviders_def validateCredentialsLoop_None split: option.splits sum.splits)
  then have "validateSecret parse (providers \<noteq> []) schemes (h_Name s) secret = None"
    using assms(2,3) by (auto simp: validateCredentials_def split: if_splits option.splits)
  then obtain ref where ref: "ParseRef parse (hs_Ref secret) = Inr ref" "schemes (sref_Scheme ref) \<noteq> None"
    "\<exists>x. ParseFormat (hs_Format secret) = Inr x"
    by (auto simp: validateSecret_def split: sum.splits if_splits)
  then obtain n where "(n, Some (sref_Scheme ref)) \<in> set providers" using providerSchemes_spec [OF sch(1)] by fastforce
  then have "sref_Scheme ref \<in> Option.these (snd ` set providers)" by (force simp: in_these_eq)
  with ref show ?thesis by auto
qed

text \<open>C35: under a validated policy the evaluation of redirects never panics and every match is well formed, and
  every service secret has a valid reference to a declared provider and a valid fake format.\<close>

theorem validated_policy_guarantees:
  assumes "Validate lib parse p = None" "NewEngine lib p ea er = Inr e"
  shows "(\<exists>res. EvaluateDnsRedirect e host = Some res \<and> dns_result_ok lib res)
    \<and> (\<exists>res. EvaluateConnectRedirect e hostPort = Some res \<and> connect_result_ok res)
    \<and> (\<forall>s \<in> set (p_HTTPServices p). \<forall>secret. h_Secret s = Some secret \<longrightarrow>
         (\<exists>ref pre n. ParseRef parse (hs_Ref secret) = Inr ref \<and> sref_Scheme ref \<in> Option.these (snd ` set (p_Providers p))
            \<and> ParseFormat (hs_Format secret) = Inr (pre, n)))"
  using dnsRules_valid [OF ValidateD(1) [OF assms(1)]] connectRules_valid [OF ValidateD(2) [OF assms(1)]]
    credentials_valid [OF ValidateD(3) [OF assms(1)]]
  unfolding EvaluateDnsRedirect_def EvaluateConnectRedirect_def NewEngineD(13,14) [OF assms(2)] by blast

section \<open>Witnesses\<close>

definition redirect_policy :: Policy where
  "redirect_policy = Policy0\<lparr>
     p_DnsRedirectRules := [\<lparr>dr_Name = ''d'', dr_Match = ''api.example'', dr_ResolveTo = ''10.0.0.1'', dr_Visibility = [], dr_OnFailure = []\<rparr>],
     p_ConnectRedirectRules := [\<lparr>xr_Name = ''c'', xr_Match = ''api.example:443'', xr_RedirectTo = ''proxy:8443'', xr_RedirectToUnix = [],
       xr_TLS = Some \<lparr>tls_Mode = ''rewrite_sni'', tls_SNI = ''proxy''\<rparr>, xr_Visibility = ''warn'', xr_Message = [], xr_OnFailure = []\<rparr>]\<rparr>"

theorem validated_policy_guarantees_witness:
  "\<exists>e res. NewEngine network_lib redirect_policy True True = Inr e \<and>
     EvaluateConnectRedirect e ''API.example.:443'' = Some res \<and> connect_result_ok res"
proof -
  have v: "Validate network_lib (\<lambda>s. None) redirect_policy = None" by code_simp
  have "\<not> isl (NewEngine network_lib redirect_policy True True)" by code_simp
  then obtain e where e: "NewEngine network_lib redirect_policy True True = Inr e"
    by (cases "NewEngine network_lib redirect_policy True True") auto
  from validated_policy_guarantees [OF v e, of _ "''API.example.:443''"] e show ?thesis by blast
qed

end
