(* ===== verification/CredSub.thy ===== *)
theory CredSub
  imports Secrets
begin

text \<open>
  \<^verbatim>\<open>internal/proxy/credsub/table.go\<close>: the table of fake and real credentials of a session and the substitution
  of one for the other in bodies; \<^verbatim>\<open>internal/proxy/hooks.go\<close> and \<^verbatim>\<open>credshook.go\<close>: the hooks of the proxy that
  inspect, substitute and inject credentials; \<^verbatim>\<open>internal/session/secrets.go\<close>: the table built at session start.
  Every table operation holds the table's lock for its whole body, so it is one step on the list of entries.
\<close>

section \<open>The table\<close>

text \<open>The time an entry was added is only kept for diagnostics and left out.\<close>

record Entry =
  te_ServiceName :: string
  te_Fake :: string
  te_Real :: string

type_synonym Table = "Entry list"

datatype table_error = ErrEmptyValue | ErrLengthMismatch | ErrFakeCollision | ErrServiceExists

fun addConflict :: "Table \<Rightarrow> string \<Rightarrow> string \<Rightarrow> string \<Rightarrow> table_error option" where
  "addConflict [] serviceName fake real = None"
| "addConflict (e # es) serviceName fake real =
     (if te_ServiceName e = serviceName then Some ErrServiceExists
      else if te_Fake e = fake then Some ErrFakeCollision
      else if te_Real e = fake then Some ErrFakeCollision
      else if te_Fake e = real then Some ErrFakeCollision
      else if te_Real e = real then Some ErrFakeCollision
      else addConflict es serviceName fake real)"

definition table_Add :: "Table \<Rightarrow> string \<Rightarrow> string \<Rightarrow> string \<Rightarrow> table_error + Table" where
  "table_Add t serviceName fake real =
     (if length fake = 0 \<or> length real = 0 then Inl ErrEmptyValue
      else if length fake \<noteq> length real then Inl ErrLengthMismatch
      else if fake = real then Inl ErrFakeCollision
      else
        (case addConflict t serviceName fake real of
           Some err \<Rightarrow> Inl err
         | None \<Rightarrow> Inr (t @ [\<lparr>te_ServiceName = serviceName, te_Fake = fake, te_Real = real\<rparr>])))"

definition FakeForService :: "Table \<Rightarrow> string \<Rightarrow> string option" where
  "FakeForService t serviceName = map_option te_Fake (find (\<lambda>e. te_ServiceName e = serviceName) t)"

definition RealForService :: "Table \<Rightarrow> string \<Rightarrow> string option" where
  "RealForService t serviceName = map_option te_Real (find (\<lambda>e. te_ServiceName e = serviceName) t)"

definition table_Contains :: "Table \<Rightarrow> string \<Rightarrow> Entry option" where
  "table_Contains t fake = (if length fake = 0 then None else find (\<lambda>e. te_Fake e = fake) t)"

definition ContainsFake :: "Table \<Rightarrow> string \<Rightarrow> string option" where
  "ContainsFake t data =
     (if length data = 0 then None else map_option te_ServiceName (find (\<lambda>e. Contains data (te_Fake e)) t))"

text \<open>The loop over the entries for the longest match at position \<^verbatim>\<open>i\<close>. \<^verbatim>\<open>key\<close> and \<^verbatim>\<open>val\<close> are the fake and the real
  field for \<^verbatim>\<open>ReplaceFakeToReal\<close> and the other way round for \<^verbatim>\<open>ReplaceRealToFake\<close>.\<close>

fun bestMatch :: "(Entry \<Rightarrow> string) \<Rightarrow> (Entry \<Rightarrow> string) \<Rightarrow> Entry list \<Rightarrow> string \<Rightarrow> nat \<Rightarrow> nat \<Rightarrow> string \<Rightarrow> nat \<times> string" where
  "bestMatch key val [] body i bestLen best = (bestLen, best)"
| "bestMatch key val (e # es) body i bestLen best =
     (let n = length (key e) in
      if n \<le> bestLen then bestMatch key val es body i bestLen best
      else if i + n > length body then bestMatch key val es body i bestLen best
      else if take n (drop i body) = key e then bestMatch key val es body i n (val e)
      else bestMatch key val es body i bestLen best)"

text \<open>\<^verbatim>\<open>out\<close> is \<^const>\<open>None\<close> as long as nothing was replaced.\<close>

function replaceLoop :: "(Entry \<Rightarrow> string) \<Rightarrow> (Entry \<Rightarrow> string) \<Rightarrow> Table \<Rightarrow> string \<Rightarrow> nat \<Rightarrow> string option \<Rightarrow> string option" where
  "replaceLoop key val es body i out =
     (if i < length body then
        (case bestMatch key val es body i 0 [] of
           (bestLen, best) \<Rightarrow>
             if bestLen > 0 then
               replaceLoop key val es body (i + bestLen)
                 (Some ((case out of None \<Rightarrow> take i body | Some o1 \<Rightarrow> o1) @ best))
             else replaceLoop key val es body (i + 1) (map_option (\<lambda>o1. o1 @ [body ! i]) out))
      else out)"
  by pat_completeness auto

termination
  by (relation "measure (\<lambda>(key, val, es, body, i, out). length body - i)") auto

declare replaceLoop.simps [simp del]

definition replaceAll :: "(Entry \<Rightarrow> string) \<Rightarrow> (Entry \<Rightarrow> string) \<Rightarrow> Table \<Rightarrow> string \<Rightarrow> string" where
  "replaceAll key val t body =
     (if length body = 0 then body
      else if length t = 0 then body
      else (case replaceLoop key val t body 0 None of None \<Rightarrow> body | Some out \<Rightarrow> out))"

definition ReplaceFakeToReal :: "Table \<Rightarrow> string \<Rightarrow> string" where
  "ReplaceFakeToReal t body = replaceAll te_Fake te_Real t body"

definition ReplaceRealToFake :: "Table \<Rightarrow> string \<Rightarrow> string" where
  "ReplaceRealToFake t body = replaceAll te_Real te_Fake t body"

text \<open>\<^verbatim>\<open>Zero\<close> also overwrites the buffers the entries own, which no caller shares.\<close>

definition table_Zero :: "Table \<Rightarrow> Table" where
  "table_Zero t = []"

section \<open>Session start\<close>

record ServiceConfig =
  sc_Name :: string
  sc_SecretRef :: SecretRef
  sc_FakeFormat :: string

datatype bootstrap_error =
    FetchError string
  | GenerateError string fake_error
  | RegenerateError string fake_error
  | AddError string table_error

text \<open>\<^verbatim>\<open>read k\<close> is the source of random bytes of the \<^verbatim>\<open>k\<close>-th service and \<^verbatim>\<open>retry k\<close> the one of its second attempt.\<close>

fun bootstrapLoop :: "fetcher \<Rightarrow> (nat \<Rightarrow> nat \<Rightarrow> string option) \<Rightarrow> (nat \<Rightarrow> nat \<Rightarrow> string option) \<Rightarrow> nat \<Rightarrow>
    ServiceConfig list \<Rightarrow> Table \<Rightarrow> bootstrap_error + Table" where
  "bootstrapLoop fetch read retry k [] table = Inr table"
| "bootstrapLoop fetch read retry k (svc # svcs) table =
     (case fetch (sc_SecretRef svc) of
        None \<Rightarrow> Inl (FetchError (sc_Name svc))
      | Some v \<Rightarrow>
          (case GenerateFake (read k) (sc_FakeFormat svc) (length v) of
             Inl err \<Rightarrow> Inl (GenerateError (sc_Name svc) err)
           | Inr fake \<Rightarrow>
               (case table_Add table (sc_Name svc) fake v of
                  Inr table' \<Rightarrow> bootstrapLoop fetch read retry (k + 1) svcs table'
                | Inl _ \<Rightarrow>
                    (case GenerateFake (retry k) (sc_FakeFormat svc) (length v) of
                       Inl err \<Rightarrow> Inl (RegenerateError (sc_Name svc) err)
                     | Inr fake2 \<Rightarrow>
                         (case table_Add table (sc_Name svc) fake2 v of
                            Inl err \<Rightarrow> Inl (AddError (sc_Name svc) err)
                          | Inr table' \<Rightarrow> bootstrapLoop fetch read retry (k + 1) svcs table')))))"

definition BootstrapCredentials :: "fetcher \<Rightarrow> (nat \<Rightarrow> nat \<Rightarrow> string option) \<Rightarrow> (nat \<Rightarrow> nat \<Rightarrow> string option) \<Rightarrow>
    ServiceConfig list \<Rightarrow> bootstrap_error + Table" where
  "BootstrapCredentials fetch read retry services = bootstrapLoop fetch read retry 0 services []"

text \<open>\<^verbatim>\<open>BuildServiceEnvVars\<close>: environment variables with the fakes; names are folded to upper case on Windows only.
  The results \<^verbatim>\<open>nil\<close> and an empty map are the same to callers.\<close>

record ServiceEnvVar =
  sev_ServiceName :: string
  sev_VarName :: string

datatype env_var_error = InvalidVarName string string | DuplicateVarName string string string

definition envVarKey :: "bool \<Rightarrow> string \<Rightarrow> string" where
  "envVarKey windows name = (if windows then ToUpper name else name)"

fun checkEnvVars :: "bool \<Rightarrow> ServiceEnvVar list \<Rightarrow> (string \<rightharpoonup> string) \<Rightarrow> env_var_error option" where
  "checkEnvVars windows [] owner = None"
| "checkEnvVars windows (ev # evs) owner =
     (if sev_VarName ev = [] \<or> CHR ''='' \<in> set (sev_VarName ev) \<or> CHR 0x00 \<in> set (sev_VarName ev)
      then Some (InvalidVarName (sev_VarName ev) (sev_ServiceName ev))
      else
        (case owner (envVarKey windows (sev_VarName ev)) of
           Some prev \<Rightarrow> Some (DuplicateVarName (sev_VarName ev) prev (sev_ServiceName ev))
         | None \<Rightarrow> checkEnvVars windows evs (owner(envVarKey windows (sev_VarName ev) \<mapsto> sev_ServiceName ev))))"

definition BuildServiceEnvVars :: "bool \<Rightarrow> ServiceEnvVar list \<Rightarrow> Table option \<Rightarrow> env_var_error + (string \<rightharpoonup> string)" where
  "BuildServiceEnvVars windows envVars table =
     (if envVars = [] then Inr Map.empty
      else
        (case checkEnvVars windows envVars Map.empty of
           Some err \<Rightarrow> Inl err
         | None \<Rightarrow>
             (case table of
                None \<Rightarrow> Inr Map.empty
              | Some t \<Rightarrow>
                  Inr (foldl (\<lambda>result ev. case FakeForService t (sev_ServiceName ev) of
                                None \<Rightarrow> result
                              | Some fake \<Rightarrow> result(sev_VarName ev \<mapsto> fake)) Map.empty envVars))))"

section \<open>Requests and hooks\<close>

text \<open>A body is read to its end or reading it fails. The header is a Go map from canonical names to values, in
  an arbitrary order.\<close>

datatype body_stream = Readable string | Broken

record Request =
  rq_Host :: string
  rq_Body :: "body_stream option"
  rq_ContentLength :: int
  rq_Header :: "(string \<times> string list) list"
  rq_RawQuery :: string
  rq_Path :: string
  rq_RawPath :: string

record Response =
  rs_Body :: "body_stream option"
  rs_ContentLength :: int

record RequestContext =
  rc_RequestID :: string
  rc_SessionID :: string
  rc_ServiceName :: string

datatype hook_error = HookAbortError int string

datatype leak_event =
    secret_leak_blocked string string
  | secret_cross_service_use string string string

text \<open>One of the four scans of the leak guard; the event is the one it logs.\<close>

definition leakIn :: "Table \<Rightarrow> RequestContext \<Rightarrow> string \<Rightarrow> string \<Rightarrow> leak_event option" where
  "leakIn t ctx host data =
     (case ContainsFake t data of
        None \<Rightarrow> None
      | Some serviceName \<Rightarrow>
          if serviceName \<noteq> rc_ServiceName ctx then
            (if rc_ServiceName ctx = [] then Some (secret_leak_blocked serviceName host)
             else Some (secret_cross_service_use serviceName (rc_ServiceName ctx) host))
          else None)"

fun firstLeak :: "Table \<Rightarrow> RequestContext \<Rightarrow> string \<Rightarrow> string list \<Rightarrow> leak_event option" where
  "firstLeak t ctx host [] = None"
| "firstLeak t ctx host (d # ds) = (case leakIn t ctx host d of Some ev \<Rightarrow> Some ev | None \<Rightarrow> firstLeak t ctx host ds)"

definition LeakGuard_PreHook :: "Table \<Rightarrow> RequestContext \<Rightarrow> Request \<Rightarrow> leak_event option" where
  "LeakGuard_PreHook t ctx r =
     (case (case rq_Body r of Some (Readable body) \<Rightarrow> leakIn t ctx (rq_Host r) body | _ \<Rightarrow> None) of
        Some ev \<Rightarrow> Some ev
      | None \<Rightarrow>
     (case (if rq_RawQuery r \<noteq> [] then leakIn t ctx (rq_Host r) (rq_RawQuery r) else None) of
        Some ev \<Rightarrow> Some ev
      | None \<Rightarrow>
     (case firstLeak t ctx (rq_Host r) (concat (map snd (rq_Header r))) of
        Some ev \<Rightarrow> Some ev
      | None \<Rightarrow> if rq_Path r \<noteq> [] then leakIn t ctx (rq_Host r) (rq_Path r) else None)))"

text \<open>When the body cannot be read the hook returns before any other substitution.\<close>

definition CredsSub_PreHook :: "Table \<Rightarrow> Request \<Rightarrow> Request" where
  "CredsSub_PreHook t r =
     (let rest = (\<lambda>r. r\<lparr>rq_Header := map (\<lambda>(k, vals). (k, map (ReplaceFakeToReal t) vals)) (rq_Header r),
                       rq_RawQuery := (if rq_RawQuery r \<noteq> [] then ReplaceFakeToReal t (rq_RawQuery r) else rq_RawQuery r),
                       rq_Path := (if rq_Path r \<noteq> [] then ReplaceFakeToReal t (rq_Path r) else rq_Path r),
                       rq_RawPath := (if rq_RawPath r \<noteq> [] then ReplaceFakeToReal t (rq_RawPath r) else rq_RawPath r)\<rparr>)
      in case rq_Body r of
           None \<Rightarrow> rest r
         | Some Broken \<Rightarrow> r
         | Some (Readable body) \<Rightarrow>
             (let replaced = ReplaceFakeToReal t body in
              rest (r\<lparr>rq_Body := Some (Readable replaced), rq_ContentLength := int (length replaced)\<rparr>)))"

definition CredsSub_PostHook :: "Table \<Rightarrow> (string \<rightharpoonup> bool) option \<Rightarrow> RequestContext \<Rightarrow> Response \<Rightarrow> Response" where
  "CredsSub_PostHook t scrubServices ctx resp =
     (case rs_Body resp of
        None \<Rightarrow> resp
      | Some b \<Rightarrow>
          if (case scrubServices of None \<Rightarrow> False | Some m \<Rightarrow> m (rc_ServiceName ctx) \<noteq> Some True) then resp
          else
            (case b of
               Broken \<Rightarrow> resp
             | Readable body \<Rightarrow>
                 (let replaced = ReplaceRealToFake t body in
                  resp\<lparr>rs_Body := Some (Readable replaced), rs_ContentLength := int (length replaced)\<rparr>)))"

text \<open>\<^verbatim>\<open>textproto.CanonicalMIMEHeaderKey\<close>: names with other than token bytes are left as they are.\<close>

definition token_byte :: "char \<Rightarrow> bool" where
  "token_byte c \<longleftrightarrow> is_letter c \<or> is_digit c \<or>
     c \<in> set [CHR ''!'', CHR ''#'', CHR ''$'', CHR ''%'', CHR ''&'', CHR 0x27, CHR ''*'', CHR ''+'', CHR ''-'', CHR ''.'',
              CHR ''^'', CHR ''_'', CHR ''`'', CHR ''|'', CHR ''~'']"

fun canonicalBytes :: "bool \<Rightarrow> string \<Rightarrow> string" where
  "canonicalBytes upper [] = []"
| "canonicalBytes upper (c # s) =
     (if upper then ToUpper [c] else ToLower [c]) @ canonicalBytes (c = CHR ''-'') s"

definition CanonicalMIMEHeaderKey :: "string \<Rightarrow> string" where
  "CanonicalMIMEHeaderKey s = (if list_all token_byte s then canonicalBytes True s else s)"

definition header_Set :: "(string \<times> string list) list \<Rightarrow> string \<Rightarrow> string \<Rightarrow> (string \<times> string list) list" where
  "header_Set h key v = filter (\<lambda>(k, _). k \<noteq> CanonicalMIMEHeaderKey key) h @ [(CanonicalMIMEHeaderKey key, [v])]"

definition replaceOnce :: "string \<Rightarrow> string \<Rightarrow> string \<Rightarrow> string" where
  "replaceOnce s old new =
     (case Index s old of None \<Rightarrow> s | Some i \<Rightarrow> take i s @ new @ drop (i + length old) s)"

definition HeaderInjection_PreHook :: "Table \<Rightarrow> string \<Rightarrow> string \<Rightarrow> string \<Rightarrow> Request \<Rightarrow> Request" where
  "HeaderInjection_PreHook t serviceName headerName template r =
     (case RealForService t serviceName of
        None \<Rightarrow> r
      | Some real \<Rightarrow> r\<lparr>rq_Header := header_Set (rq_Header r) headerName (replaceOnce template ''{{secret}}'' real)\<rparr>)"

section \<open>The hook registry\<close>

text \<open>The hooks share one table, an argument here. A nil hook is a panic of the caller and no value of the
  type.\<close>

datatype Hook =
    LeakGuardHook
  | CredsSubHook "(string \<rightharpoonup> bool) option"
  | HeaderInjectionHook string string string

fun PreHook :: "Table \<Rightarrow> Hook \<Rightarrow> RequestContext \<Rightarrow> Request \<Rightarrow> hook_error + Request" where
  "PreHook t LeakGuardHook ctx r =
     (case LeakGuard_PreHook t ctx r of
        None \<Rightarrow> Inr r
      | Some _ \<Rightarrow> Inl (HookAbortError 403 ''credential leak blocked''))"
| "PreHook t (CredsSubHook scrub) ctx r = Inr (CredsSub_PreHook t r)"
| "PreHook t (HeaderInjectionHook serviceName headerName template) ctx r =
     Inr (HeaderInjection_PreHook t serviceName headerName template r)"

fun PostHook :: "Table \<Rightarrow> Hook \<Rightarrow> RequestContext \<Rightarrow> Response \<Rightarrow> hook_error option \<times> Response" where
  "PostHook t LeakGuardHook ctx resp = (None, resp)"
| "PostHook t (CredsSubHook scrub) ctx resp = (None, CredsSub_PostHook t scrub ctx resp)"
| "PostHook t (HeaderInjectionHook serviceName headerName template) ctx resp = (None, resp)"

type_synonym hook_registry = "string \<Rightarrow> Hook list"

definition hooks_Register :: "hook_registry \<Rightarrow> string \<Rightarrow> Hook \<Rightarrow> hook_registry" where
  "hooks_Register reg serviceName h = reg(serviceName := reg serviceName @ [h])"

definition snapshot :: "hook_registry \<Rightarrow> string \<Rightarrow> Hook list \<times> Hook list" where
  "snapshot reg serviceName = (reg [], if serviceName \<noteq> [] then reg serviceName else [])"

fun preLoop :: "Table \<Rightarrow> Hook list \<Rightarrow> RequestContext \<Rightarrow> Request \<Rightarrow> hook_error + Request" where
  "preLoop t [] ctx r = Inr r"
| "preLoop t (h # hs) ctx r = sum_bind (PreHook t h ctx r) (preLoop t hs ctx)"

definition ApplyPreHooks :: "Table \<Rightarrow> hook_registry \<Rightarrow> string \<Rightarrow> RequestContext \<Rightarrow> Request \<Rightarrow> hook_error + Request" where
  "ApplyPreHooks t reg serviceName ctx r =
     (let (globalHooks, scopedHooks) = snapshot reg serviceName
      in sum_bind (preLoop t globalHooks ctx r) (preLoop t scopedHooks ctx))"

fun postLoop :: "Table \<Rightarrow> Hook list \<Rightarrow> RequestContext \<Rightarrow> hook_error option \<times> Response \<Rightarrow> hook_error option \<times> Response" where
  "postLoop t [] ctx (firstErr, resp) = (firstErr, resp)"
| "postLoop t (h # hs) ctx (firstErr, resp) =
     (let (err, resp') = PostHook t h ctx resp
      in postLoop t hs ctx (if firstErr = None then err else firstErr, resp'))"

definition ApplyPostHooks :: "Table \<Rightarrow> hook_registry \<Rightarrow> string \<Rightarrow> RequestContext \<Rightarrow> Response \<Rightarrow> hook_error option \<times> Response" where
  "ApplyPostHooks t reg serviceName ctx resp =
     (let (globalHooks, scopedHooks) = snapshot reg serviceName
      in postLoop t scopedHooks ctx (postLoop t globalHooks ctx (None, resp)))"

definition injectedNames :: "Hook list \<Rightarrow> string list" where
  "injectedNames hs = concat (map (\<lambda>h. case h of HeaderInjectionHook _ name _ \<Rightarrow> [name] | _ \<Rightarrow> []) hs)"

definition InjectedHeaderNamesForService :: "hook_registry \<Rightarrow> string \<Rightarrow> string list" where
  "InjectedHeaderNamesForService reg serviceName =
     injectedNames (reg []) @ (if serviceName \<noteq> [] then injectedNames (reg serviceName) else [])"

text \<open>The hooks \<^verbatim>\<open>StartLLMProxy\<close> registers: the leak guard, then the substitution, both for every request, and the
  header injections of the services.\<close>

record InjectHeaderConfig =
  ih_ServiceName :: string
  ih_HeaderName :: string
  ih_Template :: string

definition session_hooks :: "(string \<rightharpoonup> bool) option \<Rightarrow> InjectHeaderConfig list \<Rightarrow> hook_registry" where
  "session_hooks scrub injects =
     foldl (\<lambda>reg ih. hooks_Register reg (ih_ServiceName ih)
                       (HeaderInjectionHook (ih_ServiceName ih) (ih_HeaderName ih) (ih_Template ih)))
       (hooks_Register (hooks_Register (\<lambda>_. []) [] LeakGuardHook) [] (CredsSubHook scrub)) injects"

section \<open>Tables are well formed\<close>

text \<open>One entry per service, no fake or real credential twice, and equal non-zero lengths of each pair.\<close>

definition table_ok :: "Table \<Rightarrow> bool" where
  "table_ok t \<longleftrightarrow>
     distinct (map te_ServiceName t) \<and> distinct (map te_Fake t @ map te_Real t) \<and>
     (\<forall>e \<in> set t. te_Fake e \<noteq> [] \<and> length (te_Fake e) = length (te_Real e))"

lemma addConflict_None:
  "addConflict t s f r = None \<longleftrightarrow>
   s \<notin> te_ServiceName ` set t \<and> f \<notin> te_Fake ` set t \<union> te_Real ` set t \<and> r \<notin> te_Fake ` set t \<union> te_Real ` set t"
  by (induction t) (auto simp: image_iff)

lemma table_Add_ok:
  assumes "table_Add t s f r = Inr t'"
  shows "t' = t @ [\<lparr>te_ServiceName = s, te_Fake = f, te_Real = r\<rparr>]" "table_ok t \<Longrightarrow> table_ok t'"
proof -
  have c: "f \<noteq> []" "length f = length r" "f \<noteq> r" "addConflict t s f r = None"
    "t' = t @ [\<lparr>te_ServiceName = s, te_Fake = f, te_Real = r\<rparr>]"
    using assms by (auto simp: table_Add_def split: if_splits option.splits)
  show "t' = t @ [\<lparr>te_ServiceName = s, te_Fake = f, te_Real = r\<rparr>]" by (rule c(5))
  show "table_ok t'" if "table_ok t"
    using that c unfolding addConflict_None table_ok_def by auto
qed

lemma table_Add_fresh:
  assumes "f \<noteq> []" "length f = length r" "f \<noteq> r" "s \<notin> te_ServiceName ` set t"
    "{f, r} \<inter> (te_Fake ` set t \<union> te_Real ` set t) = {}"
  shows "table_Add t s f r = Inr (t @ [\<lparr>te_ServiceName = s, te_Fake = f, te_Real = r\<rparr>])"
proof -
  have "addConflict t s f r = None" unfolding addConflict_None using assms(4,5) by auto
  moreover have "r \<noteq> []" using assms(1,2) by auto
  ultimately show ?thesis using assms(1-3) by (simp add: table_Add_def)
qed

section \<open>The scan and its reference definition\<close>

text \<open>The entries that match at the front of a text, a longest of them, and the substitution that replaces it and
  goes on behind it.\<close>

definition candidates :: "(Entry \<Rightarrow> string) \<Rightarrow> Entry list \<Rightarrow> string \<Rightarrow> Entry list" where
  "candidates key es s = filter (\<lambda>e. key e \<noteq> [] \<and> prefix (key e) s) es"

definition longest :: "(Entry \<Rightarrow> string) \<Rightarrow> Entry list \<Rightarrow> string \<Rightarrow> Entry option" where
  "longest key es s =
     find (\<lambda>e. \<forall>e' \<in> set (candidates key es s). length (key e') \<le> length (key e)) (candidates key es s)"

lemma longest_SomeD:
  assumes "longest key es s = Some e"
  shows "e \<in> set es" "key e \<noteq> []" "prefix (key e) s"
    "\<And>e'. e' \<in> set es \<Longrightarrow> prefix (key e') s \<Longrightarrow> length (key e') \<le> length (key e)"
proof -
  have e: "e \<in> set (candidates key es s)" "\<forall>e' \<in> set (candidates key es s). length (key e') \<le> length (key e)"
    using assms by (auto simp: longest_def find_Some_iff)
  then show "e \<in> set es" "key e \<noteq> []" "prefix (key e) s" by (auto simp: candidates_def)
  show "length (key e') \<le> length (key e)" if "e' \<in> set es" "prefix (key e') s" for e'
    using that e(2) by (cases "key e' = []") (auto simp: candidates_def)
qed

function substitute :: "(Entry \<Rightarrow> string) \<Rightarrow> (Entry \<Rightarrow> string) \<Rightarrow> Table \<Rightarrow> string \<Rightarrow> string" where
  "substitute key val es [] = []"
| "substitute key val es (c # s) =
     (case longest key es (c # s) of
        None \<Rightarrow> c # substitute key val es s
      | Some e \<Rightarrow> val e @ substitute key val es (drop (length (key e)) (c # s)))"
  by pat_completeness auto

termination
  by (relation "measure (\<lambda>(key, val, es, s). length s)") (auto dest: longest_SomeD(2))

lemma longest_None: "longest key es s = None \<longleftrightarrow> (\<forall>e \<in> set es. key e \<noteq> [] \<longrightarrow> \<not> prefix (key e) s)"
proof
  assume n: "longest key es s = None"
  show "\<forall>e \<in> set es. key e \<noteq> [] \<longrightarrow> \<not> prefix (key e) s"
  proof (rule ccontr)
    assume "\<not> ?thesis"
    then have ne: "candidates key es s \<noteq> []" by (auto simp: candidates_def filter_empty_conv)
    let ?L = "(\<lambda>e. length (key e)) ` set (candidates key es s)"
    have "Max ?L \<in> ?L" using ne by (intro Max_in) auto
    then obtain e where e: "e \<in> set (candidates key es s)" "Max ?L = length (key e)" by auto
    have "\<forall>e' \<in> set (candidates key es s). length (key e') \<le> length (key e)"
      unfolding e(2) [symmetric] by auto
    with n e(1) show False unfolding longest_def find_None_iff by blast
  qed
qed (auto simp: longest_def candidates_def find_None_iff)

text \<open>The loop over positions with a lazily allocated output computes the reference.\<close>

lemma bestMatch_from:
  assumes "bestMatch key val es body i b0 r0 = (n, r)"
  shows "b0 \<le> n" "\<And>e. e \<in> set es \<Longrightarrow> prefix (key e) (drop i body) \<Longrightarrow> length (key e) \<le> n"
    "(n, r) = (b0, r0) \<or> (\<exists>e \<in> set es. prefix (key e) (drop i body) \<and> n = length (key e) \<and> r = val e \<and> b0 < n)"
proof -
  have p: "prefix x (drop i body) \<longleftrightarrow> i + length x \<le> length body \<and> take (length x) (drop i body) = x \<or> x = []" for x
  proof -
    have "prefix x (drop i body) \<longleftrightarrow> take (length x) (drop i body) = x"
      using HasPrefix_iff [of "drop i body" x] by (simp add: prefix_def HasPrefix_def)
    moreover have "take (length x) (drop i body) = x \<Longrightarrow> length x \<le> length body - i"
      by (metis length_drop length_take min.cobounded1)
    moreover have "x \<noteq> [] \<Longrightarrow> length x \<le> length body - i \<Longrightarrow> i + length x \<le> length body" by (cases x) auto
    ultimately show ?thesis by (cases "x = []") auto
  qed
  have "b0 \<le> n \<and> (\<forall>e \<in> set es. prefix (key e) (drop i body) \<longrightarrow> length (key e) \<le> n) \<and>
    ((n, r) = (b0, r0) \<or> (\<exists>e \<in> set es. prefix (key e) (drop i body) \<and> n = length (key e) \<and> r = val e \<and> b0 < n))"
    using assms
  proof (induction es arbitrary: b0 r0)
    case (Cons e es)
    show ?case
    proof (cases "length (key e) > b0 \<and> i + length (key e) \<le> length body \<and> take (length (key e)) (drop i body) = key e")
      case True
      then have "bestMatch key val es body i (length (key e)) (val e) = (n, r)" using Cons.prems by (simp add: Let_def)
      from Cons.IH [OF this] True show ?thesis by (auto simp: p)
    next
      case False
      then have "bestMatch key val es body i b0 r0 = (n, r)" using Cons.prems by (auto simp: Let_def split: if_splits)
      from Cons.IH [OF this] False show ?thesis unfolding p by auto
    qed
  qed simp
  then show "b0 \<le> n" "\<And>e. e \<in> set es \<Longrightarrow> prefix (key e) (drop i body) \<Longrightarrow> length (key e) \<le> n"
    "(n, r) = (b0, r0) \<or> (\<exists>e \<in> set es. prefix (key e) (drop i body) \<and> n = length (key e) \<and> r = val e \<and> b0 < n)"
    by auto
qed

lemma prefix_same_length: "prefix x s \<Longrightarrow> prefix y s \<Longrightarrow> length x = length y \<Longrightarrow> x = y"
  by (metis append_eq_append_conv prefix_def)

lemma bestMatch_longest:
  assumes d: "distinct (map key es)"
  shows "bestMatch key val es body i 0 [] =
    (case longest key es (drop i body) of None \<Rightarrow> (0, []) | Some e \<Rightarrow> (length (key e), val e))"
proof -
  obtain n r where b: "bestMatch key val es body i 0 [] = (n, r)" by fastforce
  note f = bestMatch_from [OF b]
  show ?thesis
  proof (cases "longest key es (drop i body)")
    case None
    then have "\<forall>e \<in> set es. key e \<noteq> [] \<longrightarrow> \<not> prefix (key e) (drop i body)" by (simp add: longest_None)
    with f(3) have "(n, r) = (0, [])" by fastforce
    with b None show ?thesis by simp
  next
    case (Some e)
    note l = longest_SomeD [OF Some]
    have "n \<noteq> 0" using f(2) [OF l(1,3)] l(2) by (cases "key e") auto
    then obtain e' where e': "e' \<in> set es" "prefix (key e') (drop i body)" "n = length (key e')" "r = val e'"
      using f(3) by auto
    have "length (key e) = length (key e')" using f(2) [OF l(1,3)] l(4) [OF e'(1,2)] e'(3) by simp
    then have "key e = key e'" using prefix_same_length [OF l(3) e'(2)] by simp
    then have "e = e'" using d l(1) e'(1) by (auto simp: distinct_map inj_on_def)
    with e' b Some show ?thesis by simp
  qed
qed

lemma replaceLoop_substitute:
  assumes d: "distinct (map key es)"
  shows "(case replaceLoop key val es body i out of None \<Rightarrow> body | Some x \<Rightarrow> x) =
    (case out of None \<Rightarrow> take i body | Some x \<Rightarrow> x) @ substitute key val es (drop i body)"
proof (induction "length body - i" arbitrary: i out rule: less_induct)
  case less
  show ?case
  proof (cases "i < length body")
    case False
    then show ?thesis by (subst replaceLoop.simps) (auto split: option.split)
  next
    case True
    then obtain c s where cs: "drop i body = c # s" "c = body ! i" "s = drop (i + 1) body"
      by (metis Cons_nth_drop_Suc Suc_eq_plus1)
    note bm = bestMatch_longest [OF d, of val body i]
    show ?thesis
    proof (cases "longest key es (drop i body)")
      case None
      have t: "take (i + 1) body = take i body @ [body ! i]" using True by (simp add: take_Suc_conv_app_nth)
      let ?o = "map_option (\<lambda>o1. o1 @ [body ! i]) out"
      have "replaceLoop key val es body i out = replaceLoop key val es body (i + 1) ?o"
        using True None bm by (subst replaceLoop.simps) simp
      moreover have "substitute key val es (drop i body) = body ! i # substitute key val es (drop (i + 1) body)"
        using None cs(2,3) unfolding cs(1) by simp
      moreover have "(case ?o of None \<Rightarrow> take (i + 1) body | Some x \<Rightarrow> x) = (case out of None \<Rightarrow> take i body | Some x \<Rightarrow> x) @ [body ! i]"
        using t by (cases out) simp_all
      moreover have "length body - (i + 1) < length body - i" using True by simp
      ultimately show ?thesis using less [of "i + 1" ?o] by simp
    next
      case (Some e)
      let ?o = "Some ((case out of None \<Rightarrow> take i body | Some o1 \<Rightarrow> o1) @ val e)"
      have n: "length (key e) > 0" using longest_SomeD(2) [OF Some] by simp
      have dr: "drop (length (key e)) (c # s) = drop (i + length (key e)) body"
        by (metis cs(1) drop_drop add.commute)
      have "replaceLoop key val es body i out = replaceLoop key val es body (i + length (key e)) ?o"
        using True n Some bm by (subst replaceLoop.simps) simp
      moreover have "substitute key val es (drop i body) = val e @ substitute key val es (drop (i + length (key e)) body)"
        using Some dr unfolding cs(1) by simp
      moreover have "length body - (i + length (key e)) < length body - i" using True n by linarith
      ultimately show ?thesis using less [of "i + length (key e)" ?o] by simp
    qed
  qed
qed

lemma substitute_Nil_table [simp]: "substitute key val [] s = s"
  by (induction s) (auto simp: longest_def candidates_def)

lemma replaceAll_substitute:
  "distinct (map key t) \<Longrightarrow> replaceAll key val t body = substitute key val t body"
  using replaceLoop_substitute [of key t body val 0 None] by (auto simp: replaceAll_def)

section \<open>What substitution does\<close>

lemma longest_set_cong:
  assumes "set es = set es'" "distinct (map key es)" "distinct (map key es')"
  shows "longest key es s = longest key es' s"
proof (cases "longest key es s")
  case None
  then have "longest key es' s = None" using assms(1) by (simp add: longest_None)
  with None show ?thesis by simp
next
  case (Some e)
  note l = longest_SomeD [OF Some]
  have "longest key es' s \<noteq> None" using l(1-3) assms(1) by (auto simp: longest_None)
  then obtain e' where e': "longest key es' s = Some e'" by blast
  note l' = longest_SomeD [OF e']
  have "length (key e) = length (key e')" using l(4) [of e'] l'(4) [of e] l(1,3) l'(1,3) assms(1) by force
  then have "key e = key e'" using prefix_same_length [OF l(3) l'(3)] by simp
  then have "e = e'" using assms(1,2) l(1) l'(1) by (auto simp: distinct_map inj_on_def)
  with Some e' show ?thesis by simp
qed

lemma scan_induct [case_names Nil Lit Sub]:
  assumes "P []" and lit: "\<And>c s. longest key t (c # s) = None \<Longrightarrow> P s \<Longrightarrow> P (c # s)"
    and sub: "\<And>e s. longest key t (key e @ s) = Some e \<Longrightarrow> P s \<Longrightarrow> P (key e @ s)"
  shows "P s"
proof (induction "length s" arbitrary: s rule: less_induct)
  case less
  show ?case
  proof (cases s)
    case Nil
    with assms(1) show ?thesis by simp
  next
    case (Cons c s')
    show ?thesis
    proof (cases "longest key t s")
      case None
      then show ?thesis using lit [of c s'] less [of s'] Cons by simp
    next
      case (Some e)
      note l = longest_SomeD [OF Some]
      obtain u where u: "s = key e @ u" using l(3) by (auto simp: prefix_def)
      then have "length u < length s" using l(2) by simp
      from sub [of e u] less [OF this] Some u show ?thesis by simp
    qed
  qed
qed

lemma substitute_Sub:
  assumes "longest key t (key e @ s) = Some e"
  shows "substitute key val t (key e @ s) = val e @ substitute key val t s"
proof -
  obtain c u where cu: "key e @ s = c # u" using longest_SomeD(2) [OF assms] by (cases "key e @ s") auto
  have "substitute key val t (c # u) = val e @ substitute key val t (drop (length (key e)) (c # u))"
    using assms unfolding cu by simp
  then show ?thesis unfolding cu [symmetric] by simp
qed

lemma substitute_set_cong:
  assumes "set es = set es'" "distinct (map key es)" "distinct (map key es')"
  shows "substitute key val es s = substitute key val es' s"
proof (induction s rule: scan_induct [where key = key and t = es])
  case (Lit c s)
  then show ?case using longest_set_cong [OF assms, of "c # s"] by simp
next
  case (Sub e s)
  then have "longest key es' (key e @ s) = Some e" using longest_set_cong [OF assms, of "key e @ s"] by simp
  then show ?case using Sub substitute_Sub by metis
qed simp

lemma substitute_length:
  assumes "\<And>e. e \<in> set t \<Longrightarrow> length (key e) = length (val e)"
  shows "length (substitute key val t s) = length s"
proof (induction s rule: scan_induct [where key = key and t = t])
  case (Sub e s)
  then show ?case using assms [OF longest_SomeD(1) [OF Sub(1)]] by (simp add: substitute_Sub)
qed simp_all

text \<open>\<^verbatim>\<open>overlaps_into u v\<close>: an occurrence of \<^verbatim>\<open>u\<close> can share bytes with an occurrence of \<^verbatim>\<open>v\<close> that does not start
  before it.\<close>

definition comparable :: "string \<Rightarrow> string \<Rightarrow> bool" where
  "comparable u v \<longleftrightarrow> prefix u v \<or> prefix v u"

definition overlaps_into :: "string \<Rightarrow> string \<Rightarrow> bool" where
  "overlaps_into u v \<longleftrightarrow> list_ex (\<lambda>k. comparable (drop k u) v) [0..<length u]"

lemma overlaps_intoI: "suffix w u \<Longrightarrow> w \<noteq> [] \<Longrightarrow> comparable w v \<Longrightarrow> overlaps_into u v"
  unfolding overlaps_into_def suffix_def list_ex_iff by (auto intro!: bexI [of _ "length u - length w"])

lemma prefix_append_comparable: "prefix w (u @ v) \<Longrightarrow> comparable w u"
  by (auto simp: comparable_def prefix_append)

lemma suffix_word_untouched:
  assumes sep: "\<And>e. e \<in> set t \<Longrightarrow> \<not> overlaps_into r (val e)"
    and "suffix w r" "prefix w (substitute key val t s)"
  shows "prefix w s"
  using assms(2,3)
proof (induction s arbitrary: w rule: scan_induct [where key = key and t = t])
  case (Lit c s)
  show ?case
  proof (cases w)
    case (Cons d w')
    then have "d = c" "prefix w' (substitute key val t s)" using Lit by auto
    moreover have "suffix w' r" using Lit.prems(1) unfolding Cons by (rule suffix_ConsD)
    ultimately show ?thesis using Lit.IH Cons by simp
  qed simp
next
  case (Sub e s)
  have e: "e \<in> set t" using Sub(1) by (rule longest_SomeD(1))
  have "prefix w (val e @ substitute key val t s)" using Sub by (simp add: substitute_Sub)
  then have "comparable w (val e)" by (rule prefix_append_comparable)
  then have "w = []" using overlaps_intoI [OF Sub.prems(1)] sep [OF e] by blast
  then show ?case by simp
qed simp

lemma scrubbed:
  assumes r: "r \<in> set (map key t)" "r \<noteq> []"
    and sep: "\<And>e. e \<in> set t \<Longrightarrow> \<not> overlaps_into r (val e) \<and> \<not> overlaps_into (val e) r"
  shows "\<not> sublist r (substitute key val t s)"
proof (induction s rule: scan_induct [where key = key and t = t])
  case Nil
  then show ?case using r(2) by simp
next
  case (Lit c s)
  have "\<not> prefix r (c # substitute key val t s)"
  proof
    assume "prefix r (c # substitute key val t s)"
    then have "prefix r (substitute key val t (c # s))" using Lit(1) by simp
    then have "prefix r (c # s)" using suffix_word_untouched [of t r val r key "c # s"] sep by simp
    then show False using Lit(1) r by (auto simp: longest_None)
  qed
  with Lit show ?case by (simp add: sublist_Cons_right)
next
  case (Sub e s)
  have e: "e \<in> set t" using Sub(1) by (rule longest_SomeD(1))
  show ?case
  proof
    assume "sublist r (substitute key val t (key e @ s))"
    then have "sublist r (val e @ substitute key val t s)" using Sub(1) by (simp add: substitute_Sub)
    then consider "sublist r (val e)" | "sublist r (substitute key val t s)"
      | a b where "r = a @ b" "suffix a (val e)" "prefix b (substitute key val t s)"
      by (auto simp: sublist_append)
    then show False
    proof cases
      case 1
      then obtain w where "suffix w (val e)" "prefix r w" by (metis sublist_altdef')
      then have "overlaps_into (val e) r" using r(2) by (intro overlaps_intoI [of w]) (auto simp: comparable_def)
      then show False using sep [OF e] by simp
    next
      case (3 a b)
      show False
      proof (cases "a = []")
        case True
        then show False using 3 Sub(2) prefix_imp_sublist by auto
      next
        case False
        then have "overlaps_into (val e) r" using 3 by (intro overlaps_intoI [of a]) (auto simp: comparable_def)
        then show False using sep [OF e] by simp
      qed
    qed (use Sub(2) in blast)
  qed
qed

lemma longest_unique:
  assumes "e \<in> set t" "key e \<noteq> []" "prefix (key e) s" "\<And>e'. e' \<in> set t \<Longrightarrow> prefix (key e') s \<Longrightarrow> e' = e"
  shows "longest key t s = Some e"
proof -
  have "longest key t s \<noteq> None" using assms(1-3) by (auto simp: longest_None)
  then obtain e' where e': "longest key t s = Some e'" by blast
  then show ?thesis using longest_SomeD(1,3) [OF e'] assms(4) by blast
qed

lemma substitute_back:
  assumes ne: "\<And>e. e \<in> set t \<Longrightarrow> val e \<noteq> []"
    and distinct: "\<And>e e'. e \<in> set t \<Longrightarrow> e' \<in> set t \<Longrightarrow> comparable (val e) (val e') \<Longrightarrow> e = e'"
    and border: "\<And>e e'. e \<in> set t \<Longrightarrow> e' \<in> set t \<Longrightarrow> \<not> overlaps_into (tl (val e)) (val e')"
    and "\<And>e. e \<in> set t \<Longrightarrow> \<not> sublist (val e) s"
  shows "substitute val key t (substitute key val t s) = s"
  using assms(4)
proof (induction s rule: scan_induct [where key = key and t = t])
  case (Lit c s)
  let ?o = "substitute key val t s"
  have "\<not> prefix (val e) (c # ?o)" if e: "e \<in> set t" for e
  proof
    assume p: "prefix (val e) (c # ?o)"
    then obtain r where r: "val e = c # r" "prefix r ?o" using ne [OF e] by (cases "val e") auto
    have "prefix r s"
      using suffix_word_untouched [of t r val r key s] border [OF e] r by simp
    then have "sublist (val e) (c # s)" using r(1) by (simp add: sublist_Cons_right)
    then show False using Lit.prems e by blast
  qed
  then have "longest val t (c # ?o) = None" by (simp add: longest_None)
  moreover have "\<not> sublist (val e) s" if "e \<in> set t" for e using Lit.prems [OF that] by (simp add: sublist_Cons_right)
  ultimately show ?case using Lit.IH Lit.hyps by simp
next
  case (Sub e s)
  have e: "e \<in> set t" using Sub.hyps by (rule longest_SomeD(1))
  have "longest val t (val e @ substitute key val t s) = Some e"
    using e ne [OF e] distinct [OF _ e] prefix_append_comparable by (intro longest_unique) auto
  moreover have "\<not> sublist (val e') s" if "e' \<in> set t" for e'
    using Sub.prems [OF that] by (auto simp: sublist_append)
  ultimately show ?case using Sub.IH by (simp add: substitute_Sub Sub.hyps)
qed simp

lemma Contains_sublist: "Contains s p \<longleftrightarrow> sublist p s"
proof (induction s)
  case (Cons c s)
  have "HasPrefix (c # s) p \<longleftrightarrow> prefix p (c # s)" by (simp add: HasPrefix_iff prefix_def)
  with Cons show ?case by (simp add: sublist_Cons_right)
qed simp

lemma table_ok_distinct: "table_ok t \<Longrightarrow> distinct (map te_Fake t)" "table_ok t \<Longrightarrow> distinct (map te_Real t)"
  by (auto simp: table_ok_def)

lemma Replace_substitute:
  assumes "table_ok t"
  shows "ReplaceFakeToReal t body = substitute te_Fake te_Real t body"
    "ReplaceRealToFake t body = substitute te_Real te_Fake t body"
  using table_ok_distinct [OF assms] by (simp_all add: ReplaceFakeToReal_def ReplaceRealToFake_def replaceAll_substitute)

lemma table_ok_real: "table_ok t \<Longrightarrow> e \<in> set t \<Longrightarrow> te_Real e \<noteq> []"
  by (auto simp: table_ok_def)

text \<open>No real credential is a prefix of another one, and none can begin inside another one; no real credential
  can share bytes with a fake.\<close>

definition separated_reals :: "Table \<Rightarrow> bool" where
  "separated_reals t \<longleftrightarrow>
     (\<forall>e \<in> set t. \<forall>e' \<in> set t. (comparable (te_Real e) (te_Real e') \<longrightarrow> e = e') \<and> \<not> overlaps_into (tl (te_Real e)) (te_Real e'))"

definition separated_fakes :: "Table \<Rightarrow> bool" where
  "separated_fakes t \<longleftrightarrow>
     (\<forall>e \<in> set t. \<forall>e' \<in> set t. \<not> overlaps_into (te_Real e) (te_Fake e') \<and> \<not> overlaps_into (te_Fake e') (te_Real e))"


text \<open>C36: after scrubbing a response no real credential of the table occurs in it, at any position, when fakes and
  reals of the table cannot share bytes.\<close>

theorem scrub_hides_reals:
  assumes "table_ok t" "separated_fakes t" "e \<in> set t"
  shows "\<not> Contains (ReplaceRealToFake t body) (te_Real e)"
  using scrubbed [of "te_Real e" te_Real t te_Fake body] assms table_ok_real [OF assms(1,3)]
  by (simp add: Replace_substitute Contains_sublist separated_fakes_def)

text \<open>both substitutions keep the length of the body and do not depend on the order in which the entries were
  added.\<close>

lemma replace_well_defined:
  assumes "table_ok t" "mset t' = mset t"
  shows "ReplaceFakeToReal t' body = ReplaceFakeToReal t body \<and> ReplaceRealToFake t' body = ReplaceRealToFake t body
    \<and> length (ReplaceFakeToReal t body) = length body \<and> length (ReplaceRealToFake t body) = length body"
proof -
  have s: "set t' = set t" using assms(2) by (metis set_mset_mset)
  have m: "mset (map f t') = mset (map f t)" for f :: "Entry \<Rightarrow> string" using assms(2) by simp
  have d: "distinct (map te_Fake t')" "distinct (map te_Real t')"
    using table_ok_distinct [OF assms(1)] m by (metis mset_eq_imp_distinct_iff)+
  have l: "length (te_Fake e) = length (te_Real e)" if "e \<in> set t" for e using assms(1) that by (simp add: table_ok_def)
  have "ReplaceFakeToReal t' body = ReplaceFakeToReal t body"
    using substitute_set_cong [OF s d(1) table_ok_distinct(1) [OF assms(1)]]
    by (simp add: Replace_substitute [OF assms(1)]) (simp add: ReplaceFakeToReal_def replaceAll_substitute d)
  moreover have "ReplaceRealToFake t' body = ReplaceRealToFake t body"
    using substitute_set_cong [OF s d(2) table_ok_distinct(2) [OF assms(1)]]
    by (simp add: Replace_substitute [OF assms(1)]) (simp add: ReplaceRealToFake_def replaceAll_substitute d)
  moreover have "length (ReplaceFakeToReal t body) = length body" "length (ReplaceRealToFake t body) = length body"
    using l by (simp_all add: Replace_substitute [OF assms(1)] substitute_length)
  ultimately show ?thesis by blast
qed

section \<open>The table of a session\<close>

text \<open>An entry holds the fetched secret of its service and a fake of the service's format.\<close>

definition entry_for :: "fetcher \<Rightarrow> Entry \<Rightarrow> ServiceConfig \<Rightarrow> bool" where
  "entry_for fetch e svc \<longleftrightarrow>
     te_ServiceName e = sc_Name svc \<and> fetch (sc_SecretRef svc) = Some (te_Real e) \<and>
     (\<exists>pre n rest. ParseFormat (sc_FakeFormat svc) = Inr (pre, n) \<and> te_Fake e = pre @ rest \<and> int (length rest) = n \<and>
        minFakeEntropy \<le> n \<and> set rest \<subseteq> set base62)"

lemma bootstrapLoop_ok:
  assumes len: "\<And>k n b. read k n = Some b \<Longrightarrow> length b = n" "\<And>k n b. retry k n = Some b \<Longrightarrow> length b = n"
    and "bootstrapLoop fetch read retry k svcs t = Inr t'" "table_ok t"
  shows "table_ok t' \<and> (\<exists>new. t' = t @ new \<and> list_all2 (entry_for fetch) new svcs)"
  using assms(3,4)
proof (induction svcs arbitrary: k t)
  case (Cons svc svcs)
  obtain v where v: "fetch (sc_SecretRef svc) = Some v" using Cons.prems(1) by (auto split: option.splits)
  obtain rd fake t1 where g: "GenerateFake rd (sc_FakeFormat svc) (length v) = Inr fake"
    "table_Add t (sc_Name svc) fake v = Inr t1" "bootstrapLoop fetch read retry (k + 1) svcs t1 = Inr t'"
    "rd = read k \<or> rd = retry k"
    using Cons.prems(1) v by (auto split: sum.splits)
  have "\<And>n b. rd n = Some b \<Longrightarrow> length b = n" using g(4) len by auto
  note shape = GenerateFake_shape [OF g(1) this]
  note add = table_Add_ok [OF g(2)]
  from Cons.IH [OF g(3) add(2) [OF Cons.prems(2)]] obtain new where
    n: "table_ok t'" "t' = t1 @ new" "list_all2 (entry_for fetch) new svcs" by blast
  let ?e = "\<lparr>te_ServiceName = sc_Name svc, te_Fake = fake, te_Real = v\<rparr>"
  from shape obtain pre n rest where "ParseFormat (sc_FakeFormat svc) = Inr (pre, n)" "fake = pre @ rest"
    "int (length rest) = n" "set rest \<subseteq> set base62" by blast
  then have "entry_for fetch ?e svc" using v ParseFormat_shape [of "sc_FakeFormat svc" pre n] by (auto simp: entry_for_def)
  then have "t' = t @ (?e # new) \<and> list_all2 (entry_for fetch) (?e # new) (svc # svcs)" using n add(1) by simp
  then show ?case using n(1) by blast
qed simp

lemma BootstrapCredentials_entries:
  assumes "\<And>k n b. read k n = Some b \<Longrightarrow> length b = n" "\<And>k n b. retry k n = Some b \<Longrightarrow> length b = n"
    and "BootstrapCredentials fetch read retry services = Inr t"
  shows "table_ok t \<and> list_all2 (entry_for fetch) t services"
  using bootstrapLoop_ok [OF assms(1,2) assms(3) [unfolded BootstrapCredentials_def]] by (simp add: table_ok_def)

text \<open>a table built at session start is well formed and has, in order, one entry per service with the fetched
  secret and a fake of the declared prefix and at least 24 random base-62 bytes.\<close>

lemma BootstrapCredentials_table:
  assumes "\<And>k n b. read k n = Some b \<Longrightarrow> length b = n" "\<And>k n b. retry k n = Some b \<Longrightarrow> length b = n"
    and "BootstrapCredentials fetch read retry services = Inr t"
  shows "table_ok t \<and> list_all2 (entry_for fetch) t services"
  using assms by (rule BootstrapCredentials_entries)

section \<open>The leak guard\<close>

lemma ContainsFake_None: "ContainsFake t d = None \<longleftrightarrow> d = [] \<or> (\<forall>e \<in> set t. \<not> Contains d (te_Fake e))"
  by (auto simp: ContainsFake_def find_None_iff)

lemma ContainsFake_SomeD:
  "ContainsFake t d = Some s \<Longrightarrow> \<exists>e \<in> set t. te_ServiceName e = s \<and> Contains d (te_Fake e)"
  by (auto simp: ContainsFake_def find_Some_iff split: if_splits)

definition fake_free :: "Table \<Rightarrow> string \<Rightarrow> bool" where
  "fake_free t d \<longleftrightarrow> (\<forall>e \<in> set t. \<not> Contains d (te_Fake e))"

lemma leakIn_None_unmatched:
  assumes "\<forall>e \<in> set t. te_ServiceName e \<noteq> [] \<and> te_Fake e \<noteq> []" "rc_ServiceName ctx = []" "leakIn t ctx host d = None"
  shows "fake_free t d"
proof (cases "ContainsFake t d")
  case None
  then show ?thesis using assms(1) by (auto simp: ContainsFake_None fake_free_def)
next
  case (Some s)
  then have "s \<noteq> []" using ContainsFake_SomeD [OF Some] assms(1) by blast
  then show ?thesis using assms(2,3) Some by (simp add: leakIn_def)
qed

lemma firstLeak_None: "firstLeak t ctx host ds = None \<longleftrightarrow> (\<forall>d \<in> set ds. leakIn t ctx host d = None)"
  by (induction ds) (auto split: option.split)

lemma substitute_fake_free: "fake_free t d \<Longrightarrow> table_ok t \<Longrightarrow> ReplaceFakeToReal t d = d"
proof -
  assume f: "fake_free t d" and t: "table_ok t"
  have "substitute te_Fake te_Real t d = d"
    using f
  proof (induction d rule: scan_induct [where key = te_Fake and t = t])
    case (Lit c s)
    then show ?case by (simp add: fake_free_def)
  next
    case (Sub e s)
    then show ?case using longest_SomeD(1) [OF Sub.hyps] by (auto simp: fake_free_def Contains_sublist)
  qed simp
  then show ?thesis by (simp add: Replace_substitute [OF t])
qed

lemma session_hooks_global:
  assumes "\<forall>ih \<in> set injects. ih_ServiceName ih \<noteq> []"
  shows "session_hooks scrub injects [] = [LeakGuardHook, CredsSubHook scrub]"
proof -
  have "foldl (\<lambda>reg ih. hooks_Register reg (ih_ServiceName ih)
      (HeaderInjectionHook (ih_ServiceName ih) (ih_HeaderName ih) (ih_Template ih))) reg injects [] = reg []" for reg
    using assms by (induction injects arbitrary: reg) (auto simp: hooks_Register_def)
  then show ?thesis by (simp add: session_hooks_def hooks_Register_def)
qed

text \<open>What the leak guard scans.\<close>

definition request_texts :: "Request \<Rightarrow> string list" where
  "request_texts r =
     (case rq_Body r of Some (Readable b) \<Rightarrow> [b] | _ \<Rightarrow> []) @ [rq_RawQuery r] @ concat (map snd (rq_Header r)) @ [rq_Path r]"

lemma fake_free_Nil: "\<forall>e \<in> set t. te_Fake e \<noteq> [] \<Longrightarrow> fake_free t []"
  by (simp add: fake_free_def)

lemma LeakGuard_passes:
  assumes t: "\<forall>e \<in> set t. te_ServiceName e \<noteq> [] \<and> te_Fake e \<noteq> []" and ctx: "rc_ServiceName ctx = []"
    and g: "LeakGuard_PreHook t ctx r = None"
  shows "\<forall>d \<in> set (request_texts r). fake_free t d"
proof -
  note un = leakIn_None_unmatched [OF t ctx]
  have nil: "fake_free t []" using t by (intro fake_free_Nil) blast
  have b: "fake_free t x" if "rq_Body r = Some (Readable x)" for x
    using g that un by (auto simp: LeakGuard_PreHook_def split: option.splits)
  have q: "fake_free t (rq_RawQuery r)"
    using g un nil by (cases "rq_RawQuery r = []") (auto simp: LeakGuard_PreHook_def split: option.splits)
  have "firstLeak t ctx (rq_Host r) (concat (map snd (rq_Header r))) = None"
    using g by (auto simp: LeakGuard_PreHook_def split: option.splits)
  then have h: "\<forall>d \<in> set (concat (map snd (rq_Header r))). fake_free t d" using un unfolding firstLeak_None by blast
  have p: "fake_free t (rq_Path r)"
    using g un nil by (cases "rq_Path r = []") (auto simp: LeakGuard_PreHook_def split: option.splits)
  show ?thesis using b q h p by (auto simp: request_texts_def split: option.splits body_stream.splits)
qed

lemma CredsSub_fake_free:
  assumes "table_ok t" "\<forall>d \<in> set (request_texts r). fake_free t d" "fake_free t (rq_RawPath r)"
  shows "CredsSub_PreHook t r =
    (case rq_Body r of Some (Readable b) \<Rightarrow> r\<lparr>rq_ContentLength := int (length b)\<rparr> | _ \<Rightarrow> r)"
proof -
  have id: "ReplaceFakeToReal t d = d" if "d \<in> set (request_texts r)" for d
    using assms(1,2) that by (simp add: substitute_fake_free)
  have "map (ReplaceFakeToReal t) vals = vals" if "(k, vals) \<in> set (rq_Header r)" for k vals
    using that by (intro map_idI id) (force simp: request_texts_def)
  then have h: "map (\<lambda>(k, vals). (k, map (ReplaceFakeToReal t) vals)) (rq_Header r) = rq_Header r"
    by (intro map_idI) auto
  have o: "ReplaceFakeToReal t (rq_RawQuery r) = rq_RawQuery r" "ReplaceFakeToReal t (rq_Path r) = rq_Path r"
    "ReplaceFakeToReal t (rq_RawPath r) = rq_RawPath r"
    using substitute_fake_free [OF assms(3,1)] by (simp_all add: id request_texts_def)
  show ?thesis
  proof (cases "rq_Body r")
    case None
    then show ?thesis using h o by (simp add: CredsSub_PreHook_def)
  next
    case (Some b)
    then show ?thesis using h o id by (cases b) (simp_all add: CredsSub_PreHook_def Let_def request_texts_def)
  qed
qed

text \<open>A request that is not routed to a declared service passes the hooks of a session only when no fake
  credential occurs in its body, query, header values and path, and then it is forwarded as it is, up to the
  recomputed content length. The raw path, which the guard does not scan, is assumed free of fakes.\<close>

lemma leak_guard_unmatched:
  assumes "table_ok t" "\<forall>e \<in> set t. te_ServiceName e \<noteq> []" "\<forall>ih \<in> set injects. ih_ServiceName ih \<noteq> []"
    and "rc_ServiceName ctx = []" "fake_free t (rq_RawPath r)"
    and "ApplyPreHooks t (session_hooks scrub injects) [] ctx r = Inr r'"
  shows "(\<forall>d \<in> set (request_texts r). fake_free t d) \<and>
    r' = (case rq_Body r of Some (Readable b) \<Rightarrow> r\<lparr>rq_ContentLength := int (length b)\<rparr> | _ \<Rightarrow> r)"
proof -
  have f: "LeakGuard_PreHook t ctx r = None" and r': "r' = CredsSub_PreHook t r"
    using assms(6) by (auto simp: ApplyPreHooks_def snapshot_def session_hooks_global [OF assms(3)] sum_bind_def
        split: option.splits sum.splits)
  have "\<forall>e \<in> set t. te_ServiceName e \<noteq> [] \<and> te_Fake e \<noteq> []" using assms(1,2) by (auto simp: table_ok_def)
  from LeakGuard_passes [OF this assms(4) f] show ?thesis using r' CredsSub_fake_free [OF assms(1) _ assms(5)] by simp
qed

section \<open>Witnesses\<close>

definition example_table :: Table where
  "example_table =
     [\<lparr>te_ServiceName = ''github'', te_Fake = ''ghp_FAKE'', te_Real = ''ghp_1a2b''\<rparr>,
      \<lparr>te_ServiceName = ''stripe'', te_Fake = ''sk_FAKE7'', te_Real = ''sk_9z8y7''\<rparr>]"

definition example_request :: "string \<Rightarrow> Request" where
  "example_request body =
     \<lparr>rq_Host = ''h'', rq_Body = Some (Readable body), rq_ContentLength = int (length body), rq_Header = [],
      rq_RawQuery = [], rq_Path = ''/'', rq_RawPath = []\<rparr>"

definition example_ctx :: "string \<Rightarrow> RequestContext" where
  "example_ctx svc = \<lparr>rc_RequestID = ''r'', rc_SessionID = ''s'', rc_ServiceName = svc\<rparr>"

lemma example_table_ok: "table_ok example_table"
  by code_simp



definition disjoint_table :: Table where
  "disjoint_table = [\<lparr>te_ServiceName = ''github'', te_Fake = ''FAKE'', te_Real = ''1a2b''\<rparr>]"

theorem scrub_hides_reals_witness:
  "\<not> Contains (ReplaceRealToFake disjoint_table ''{1a2b}'') (te_Real (disjoint_table ! 0))"
  by (rule scrub_hides_reals) code_simp+

lemma replace_well_defined_witness:
  "ReplaceFakeToReal (rev example_table) ''sk_FAKE7'' = ReplaceFakeToReal example_table ''sk_FAKE7''"
  using replace_well_defined [OF example_table_ok, of "rev example_table" "''sk_FAKE7''"] by simp

definition example_services :: "ServiceConfig list" where
  "example_services =
     [\<lparr>sc_Name = ''github'', sc_SecretRef = \<lparr>sref_Scheme = ''vault'', sref_Host = ''kv'', sref_Path = ''gh'', sref_Field = []\<rparr>,
       sc_FakeFormat = ''g_{rand:24}''\<rparr>]"

lemma BootstrapCredentials_table_witness:
  "\<exists>t. BootstrapCredentials (\<lambda>r. Some (replicate 26 (CHR ''x''))) (\<lambda>k n. Some (replicate n (CHR ''B''))) (\<lambda>k n. None)
         example_services = Inr t \<and> table_ok t"
proof -
  let ?b = "BootstrapCredentials (\<lambda>r. Some (replicate 26 (CHR ''x''))) (\<lambda>k n. Some (replicate n (CHR ''B''))) (\<lambda>k n. None)
         example_services"
  have "\<not> isl ?b" by code_simp
  then obtain t where t: "?b = Inr t" by (cases ?b) auto
  from BootstrapCredentials_table [OF _ _ t] t show ?thesis by auto
qed

end
