(* ===== verification/SessionStart.thy ===== *)
theory SessionStart
  imports PolicyValidate CredSub
begin

text \<open>
  \<^verbatim>\<open>internal/session/secretsconfig.go\<close> and the credential part of \<^verbatim>\<open>StartLLMProxy\<close> in \<^verbatim>\<open>llmproxy.go\<close>: from the HTTP
  services of a policy to the credential table and the hooks of a session.
\<close>

record ResolvedServices =
  rsv_ServiceConfigs :: "ServiceConfig list"
  rsv_InjectHeaders :: "InjectHeaderConfig list"
  rsv_ScrubServices :: "string \<rightharpoonup> bool"

fun resolveLoop :: "(string \<Rightarrow> URL option) \<Rightarrow> HTTPService list \<Rightarrow> ResolvedServices \<Rightarrow> (string \<times> ref_error) + ResolvedServices" where
  "resolveLoop parse [] result = Inr result"
| "resolveLoop parse (svc # svcs) result =
     (case h_Secret svc of
        None \<Rightarrow> resolveLoop parse svcs result
      | Some secret \<Rightarrow>
          (case ParseRef parse (hs_Ref secret) of
             Inl err \<Rightarrow> Inl (h_Name svc, err)
           | Inr ref \<Rightarrow>
               resolveLoop parse svcs
                 \<lparr>rsv_ServiceConfigs = rsv_ServiceConfigs result @
                    [\<lparr>sc_Name = h_Name svc, sc_SecretRef = ref, sc_FakeFormat = hs_Format secret\<rparr>],
                  rsv_InjectHeaders = rsv_InjectHeaders result @
                    (case h_Inject svc of
                       Some (Some ih) \<Rightarrow> [\<lparr>ih_ServiceName = h_Name svc, ih_HeaderName = hi_Name ih, ih_Template = hi_Template ih\<rparr>]
                     | _ \<Rightarrow> []),
                  rsv_ScrubServices = (rsv_ScrubServices result)
                    (h_Name svc \<mapsto> (case h_ScrubResponse svc of Some b \<Rightarrow> b | None \<Rightarrow> True))\<rparr>))"

definition ResolveServiceConfigs :: "(string \<Rightarrow> URL option) \<Rightarrow> HTTPService list \<Rightarrow> (string \<times> ref_error) + ResolvedServices option" where
  "ResolveServiceConfigs parse svcs =
     (if length svcs = 0 then Inr None
      else if \<not> list_ex (\<lambda>s. h_Secret s \<noteq> None) svcs then Inr None
      else sum_bind (resolveLoop parse svcs
                       \<lparr>rsv_ServiceConfigs = [], rsv_InjectHeaders = [], rsv_ScrubServices = Map.empty\<rparr>)
             (\<lambda>r. Inr (Some r)))"

section \<open>Validated policies start\<close>

lemma validateLoop_names: "validateLoop lib i svcs st = Inr st' \<Longrightarrow> s \<in> set svcs \<Longrightarrow> h_Name s \<noteq> []"
proof (induction svcs arbitrary: i st)
  case (Cons x svcs)
  obtain st1 where st1: "validateService lib i x st = Inr st1" "validateLoop lib (i + 1) svcs st1 = Inr st'"
    using Cons.prems(1) by (auto simp: sum_bind_Inr_iff)
  have "h_Name x \<noteq> []" using st1(1) by (auto simp: validateService_def split: if_splits)
  then show ?case using Cons.IH [OF st1(2)] Cons.prems(2) by auto
qed simp

lemma validated_names:
  assumes "Validate lib parse p = None" "s \<in> set (p_HTTPServices p)"
  shows "h_Name s \<noteq> []"
proof -
  have "ValidateHTTPServices lib (p_HTTPServices p) = None"
    using ValidateD(3) [OF assms(1)] by (auto simp: ValidateHTTPServicesWithProviders_def split: option.splits)
  then obtain st where "validateLoop lib 0 (p_HTTPServices p) \<lparr>vs_names = {}, vs_hosts = Map.empty, vs_envs = Map.empty\<rparr> = Inr st"
    by (auto simp: ValidateHTTPServices_def split: sum.splits)
  then show ?thesis using assms(2) by (rule validateLoop_names)
qed

lemma resolveLoop_names:
  assumes "resolveLoop parse svcs acc = Inr rs"
  shows "sc_Name ` set (rsv_ServiceConfigs rs) \<subseteq> sc_Name ` set (rsv_ServiceConfigs acc) \<union> h_Name ` set svcs"
    "ih_ServiceName ` set (rsv_InjectHeaders rs) \<subseteq> ih_ServiceName ` set (rsv_InjectHeaders acc) \<union> h_Name ` set svcs"
proof -
  have "sc_Name ` set (rsv_ServiceConfigs rs) \<subseteq> sc_Name ` set (rsv_ServiceConfigs acc) \<union> h_Name ` set svcs \<and>
    ih_ServiceName ` set (rsv_InjectHeaders rs) \<subseteq> ih_ServiceName ` set (rsv_InjectHeaders acc) \<union> h_Name ` set svcs"
    using assms
  proof (induction svcs arbitrary: acc)
    case (Cons s svcs)
    show ?case
    proof (cases "h_Secret s")
      case None
      then have "resolveLoop parse svcs acc = Inr rs" using Cons.prems by simp
      from Cons.IH [OF this] show ?thesis by auto
    next
      case (Some secret)
      obtain acc' ih where a: "resolveLoop parse svcs acc' = Inr rs"
        "rsv_InjectHeaders acc' = rsv_InjectHeaders acc @ ih" "\<forall>x \<in> set ih. ih_ServiceName x = h_Name s"
        "sc_Name ` set (rsv_ServiceConfigs acc') = insert (h_Name s) (sc_Name ` set (rsv_ServiceConfigs acc))"
        using Cons.prems Some by (auto split: sum.splits option.splits)
      have "ih_ServiceName ` set (rsv_InjectHeaders acc') \<subseteq> ih_ServiceName ` set (rsv_InjectHeaders acc) \<union> {h_Name s}"
        using a(2,3) by auto
      moreover have "sc_Name ` set (rsv_ServiceConfigs acc') \<subseteq> sc_Name ` set (rsv_ServiceConfigs acc) \<union> {h_Name s}"
        using a(4) by simp
      moreover have sub: "A \<subseteq> B \<union> C \<Longrightarrow> B \<subseteq> D \<union> {x} \<Longrightarrow> A \<subseteq> D \<union> insert x C" for A B C D :: "string set" and x by blast
      ultimately show ?thesis using Cons.IH [OF a(1)] unfolding list.set image_insert by (intro conjI; elim conjE) (erule (1) sub)+
    qed
  qed simp
  then show "sc_Name ` set (rsv_ServiceConfigs rs) \<subseteq> sc_Name ` set (rsv_ServiceConfigs acc) \<union> h_Name ` set svcs"
    "ih_ServiceName ` set (rsv_InjectHeaders rs) \<subseteq> ih_ServiceName ` set (rsv_InjectHeaders acc) \<union> h_Name ` set svcs" by blast+
qed

lemma resolveLoop_total:
  assumes "\<forall>s \<in> set svcs. \<forall>secret. h_Secret s = Some secret \<longrightarrow> (\<exists>ref. ParseRef parse (hs_Ref secret) = Inr ref)"
  shows "\<exists>rs. resolveLoop parse svcs acc = Inr rs"
  using assms
proof (induction svcs arbitrary: acc)
  case (Cons s svcs)
  show ?case
  proof (cases "h_Secret s")
    case (Some secret)
    then obtain ref where "ParseRef parse (hs_Ref secret) = Inr ref" using Cons.prems by auto
    then show ?thesis using Cons Some by simp
  qed (use Cons in simp)
qed simp

text \<open>C38: a validated policy always resolves to the credential configuration of a session. Once the credential table
  is built, a request that is not routed to a declared service passes the session's hooks only when no fake
  credential occurs in its body, query, header values and path, and then it is forwarded as it is, up to the
  recomputed content length. The raw path, which the guard does not scan, is assumed free of fakes.\<close>

theorem session_leak_guard:
  assumes "Validate lib parse p = None"
  shows "\<exists>resolved. ResolveServiceConfigs parse (p_HTTPServices p) = Inr resolved \<and>
    (\<forall>rs fetch read retry t ctx r r'. resolved = Some rs \<longrightarrow>
       (\<forall>k n b. read k n = Some b \<or> retry k n = Some b \<longrightarrow> length b = n) \<longrightarrow>
       BootstrapCredentials fetch read retry (rsv_ServiceConfigs rs) = Inr t \<longrightarrow>
       rc_ServiceName ctx = [] \<longrightarrow> fake_free t (rq_RawPath r) \<longrightarrow>
       ApplyPreHooks t (session_hooks (Some (rsv_ScrubServices rs)) (rsv_InjectHeaders rs)) [] ctx r = Inr r' \<longrightarrow>
       (\<forall>d \<in> set (request_texts r). fake_free t d) \<and>
       r' = (case rq_Body r of Some (Readable b) \<Rightarrow> r\<lparr>rq_ContentLength := int (length b)\<rparr> | _ \<Rightarrow> r))"
proof -
  let ?svcs = "p_HTTPServices p"
  let ?acc = "\<lparr>rsv_ServiceConfigs = [], rsv_InjectHeaders = [], rsv_ScrubServices = Map.empty\<rparr>"
  have "\<forall>s \<in> set ?svcs. \<forall>secret. h_Secret s = Some secret \<longrightarrow> (\<exists>ref. ParseRef parse (hs_Ref secret) = Inr ref)"
    using credentials_valid [OF ValidateD(3) [OF assms]] by blast
  then obtain rs0 where rs0: "resolveLoop parse ?svcs ?acc = Inr rs0" using resolveLoop_total [of ?svcs parse ?acc] by blast
  define resolved where "resolved = (if ?svcs = [] \<or> \<not> list_ex (\<lambda>s. h_Secret s \<noteq> None) ?svcs then None else Some rs0)"
  have res: "ResolveServiceConfigs parse ?svcs = Inr resolved"
    by (simp add: ResolveServiceConfigs_def resolved_def rs0 sum_bind_def)
  have names: "[] \<notin> sc_Name ` set (rsv_ServiceConfigs rs0)" "\<forall>ih \<in> set (rsv_InjectHeaders rs0). ih_ServiceName ih \<noteq> []"
  proof -
    have nn: "[] \<notin> h_Name ` set ?svcs" using validated_names [OF assms] by (metis image_iff)
    then show "[] \<notin> sc_Name ` set (rsv_ServiceConfigs rs0)" using resolveLoop_names(1) [OF rs0] by auto
    have "ih_ServiceName ih \<in> h_Name ` set ?svcs" if "ih \<in> set (rsv_InjectHeaders rs0)" for ih
      using that resolveLoop_names(2) [OF rs0] by auto
    with nn show "\<forall>ih \<in> set (rsv_InjectHeaders rs0). ih_ServiceName ih \<noteq> []" by metis
  qed
  show ?thesis
  proof (intro exI [of _ resolved] conjI allI impI res)
    fix rs fetch read retry t ctx r r'
    assume rs: "resolved = Some rs" and len: "\<forall>k n b. read k n = Some b \<or> retry k n = Some b \<longrightarrow> length b = n"
      and b: "BootstrapCredentials fetch read retry (rsv_ServiceConfigs rs) = Inr t"
      and h: "rc_ServiceName ctx = []" "fake_free t (rq_RawPath r)"
        "ApplyPreHooks t (session_hooks (Some (rsv_ScrubServices rs)) (rsv_InjectHeaders rs)) [] ctx r = Inr r'"
    have e: "rs = rs0" using rs by (simp add: resolved_def split: if_splits)
    have t: "table_ok t" "list_all2 (entry_for fetch) t (rsv_ServiceConfigs rs)"
      using BootstrapCredentials_entries [OF _ _ b] len by blast+
    have "te_ServiceName x \<in> sc_Name ` set (rsv_ServiceConfigs rs)" if x: "x \<in> set t" for x
    proof -
      obtain i where i: "i < length t" "x = t ! i" using x by (auto simp: in_set_conv_nth)
      then have "te_ServiceName x = sc_Name (rsv_ServiceConfigs rs ! i)" "i < length (rsv_ServiceConfigs rs)"
        using t(2) by (auto simp: list_all2_conv_all_nth entry_for_def)
      then show ?thesis by simp
    qed
    then have n: "\<forall>e \<in> set t. te_ServiceName e \<noteq> []" using names(1) unfolding e by metis
    note g = leak_guard_unmatched [OF t(1) n names(2) [folded e] h]
    show "\<forall>d \<in> set (request_texts r). fake_free t d" using g by blast
    show "r' = (case rq_Body r of Some (Readable b) \<Rightarrow> r\<lparr>rq_ContentLength := int (length b)\<rparr> | _ \<Rightarrow> r)" using g by blast
  qed
qed

section \<open>Witnesses\<close>

definition secret_policy :: Policy where
  "secret_policy = Policy0\<lparr>
     p_HTTPServices := [example_service\<lparr>h_Secret := Some \<lparr>hs_Ref = ''vault://kv/gh'', hs_Format = ''g_{rand:24}''\<rparr>\<rparr>],
     p_Providers := [(''v'', Some ''vault'')]\<rparr>"

definition vault_url :: "string \<Rightarrow> URL option" where
  "vault_url s =
     Some \<lparr>url_Scheme = ''vault'', url_User = False, url_Host = ''kv'', url_Path = ''/gh'', url_RawPath = [],
           url_ForceQuery = False, url_RawQuery = [], url_Fragment = []\<rparr>"

definition secret_resolved :: ResolvedServices where
  "secret_resolved = (case ResolveServiceConfigs vault_url (p_HTTPServices secret_policy) of Inr (Some rs) \<Rightarrow> rs | _ \<Rightarrow> undefined)"

abbreviation secret_bootstrap :: "ServiceConfig list \<Rightarrow> bootstrap_error + Table" where
  "secret_bootstrap \<equiv> BootstrapCredentials (\<lambda>r. Some (replicate 26 (CHR ''x''))) (\<lambda>k n. Some (replicate n (CHR ''B''))) (\<lambda>k n. None)"

definition secret_table :: Table where
  "secret_table = (case secret_bootstrap (rsv_ServiceConfigs secret_resolved) of Inr t \<Rightarrow> t | Inl _ \<Rightarrow> [])"

theorem session_leak_guard_witness:
  "length secret_table = 1 \<and> list_all (fake_free secret_table) (request_texts (example_request ''hello''))"
proof -
  have v: "Validate literal_lib vault_url secret_policy = None" by code_simp
  from session_leak_guard [OF v] obtain resolved where
    r: "ResolveServiceConfigs vault_url (p_HTTPServices secret_policy) = Inr resolved"
    and g: "\<forall>rs fetch read retry t ctx r r'. resolved = Some rs \<longrightarrow>
       (\<forall>k n b. read k n = Some b \<or> retry k n = Some b \<longrightarrow> length b = n) \<longrightarrow>
       BootstrapCredentials fetch read retry (rsv_ServiceConfigs rs) = Inr t \<longrightarrow>
       rc_ServiceName ctx = [] \<longrightarrow> fake_free t (rq_RawPath r) \<longrightarrow>
       ApplyPreHooks t (session_hooks (Some (rsv_ScrubServices rs)) (rsv_InjectHeaders rs)) [] ctx r = Inr r' \<longrightarrow>
       (\<forall>d \<in> set (request_texts r). fake_free t d) \<and>
       r' = (case rq_Body r of Some (Readable b) \<Rightarrow> r\<lparr>rq_ContentLength := int (length b)\<rparr> | _ \<Rightarrow> r)" by blast
  have "\<not> isl (ResolveServiceConfigs vault_url (p_HTTPServices secret_policy)) \<and>
      \<not> Option.is_none (projr (ResolveServiceConfigs vault_url (p_HTTPServices secret_policy)))" by code_simp
  then have res: "resolved = Some secret_resolved" using r by (cases resolved) (auto simp: secret_resolved_def)
  have "\<not> isl (secret_bootstrap (rsv_ServiceConfigs secret_resolved))" by code_simp
  then have b: "secret_bootstrap (rsv_ServiceConfigs secret_resolved) = Inr secret_table"
    by (cases "secret_bootstrap (rsv_ServiceConfigs secret_resolved)") (auto simp: secret_table_def)
  have h: "ApplyPreHooks secret_table (session_hooks (Some (rsv_ScrubServices secret_resolved)) (rsv_InjectHeaders secret_resolved))
      [] (example_ctx []) (example_request ''hello'') = Inr (example_request ''hello'')" by code_simp
  have f: "fake_free secret_table (rq_RawPath (example_request ''hello''))" by code_simp
  have "length secret_table = 1" by code_simp
  then show ?thesis using g [rule_format, OF res _ b _ f h] by (simp add: example_ctx_def list_all_iff)
qed

end
