(* ===== verification/DbEffects.thy ===== *)
theory DbEffects
  imports AgentshPrelude
begin

text \<open>
  The taxonomy of database effects of \<^verbatim>\<open>internal/db/effects\<close>: operation groups and their risk tiers, subtypes,
  the aliases an operator writes in a rule, resolution tags, object references and classified statements,
  with the canonical order of a statement's effects. Go's enumerations are \<^verbatim>\<open>uint8\<close> constants; a group, an
  object kind and a resolution are datatypes with one more constructor for the zero value where the code
  uses it, and a subtype is its number (the position in \<^verbatim>\<open>subtypeTable\<close>).
\<close>

section \<open>Risk tiers and groups\<close>

datatype RiskTier = Safe | Low | Medium | High | Critical

fun tierRank :: "RiskTier \<Rightarrow> nat" where
  "tierRank Safe = 0"
| "tierRank Low = 1"
| "tierRank Medium = 2"
| "tierRank High = 3"
| "tierRank Critical = 4"

definition RiskTier_Compare :: "RiskTier \<Rightarrow> RiskTier \<Rightarrow> int" where
  "RiskTier_Compare t other = int (tierRank t) - int (tierRank other)"

datatype Group =
    GroupNone | GroupRead | GroupWrite | GroupModify | GroupDelete | GroupBulkLoad | GroupBulkExport
  | GroupSchemaCreate | GroupSchemaAlter | GroupSchemaDestroy | GroupPrivilege | GroupTransaction
  | GroupSession | GroupMaintenance | GroupLock | GroupNotify | GroupProcedural | GroupUnsafeIO
  | GroupUnknown

definition groupTable :: "(Group \<times> string \<times> RiskTier) list" where
  "groupTable =
     [(GroupRead, ''read'', Low), (GroupWrite, ''write'', Medium), (GroupModify, ''modify'', Medium),
      (GroupDelete, ''delete'', High), (GroupBulkLoad, ''bulk_load'', High),
      (GroupBulkExport, ''bulk_export'', Critical), (GroupSchemaCreate, ''schema_create'', High),
      (GroupSchemaAlter, ''schema_alter'', High), (GroupSchemaDestroy, ''schema_destroy'', Critical),
      (GroupPrivilege, ''privilege'', Critical), (GroupTransaction, ''transaction'', Low),
      (GroupSession, ''session'', Low), (GroupMaintenance, ''maintenance'', Medium),
      (GroupLock, ''lock'', Medium), (GroupNotify, ''notify'', Low), (GroupProcedural, ''procedural'', High),
      (GroupUnsafeIO, ''unsafe_io'', Critical), (GroupUnknown, ''unknown'', Critical)]"

definition Group_String :: "Group \<Rightarrow> string" where
  "Group_String g = (case map_of groupTable g of Some (name, _) \<Rightarrow> name | None \<Rightarrow> ''unknown'')"

definition Group_RiskTier :: "Group \<Rightarrow> RiskTier" where
  "Group_RiskTier g = (case map_of groupTable g of Some (_, tier) \<Rightarrow> tier | None \<Rightarrow> Critical)"

fun Group_ID :: "Group \<Rightarrow> nat" where
  "Group_ID GroupNone = 0"
| "Group_ID GroupRead = 1"
| "Group_ID GroupWrite = 2"
| "Group_ID GroupModify = 3"
| "Group_ID GroupDelete = 4"
| "Group_ID GroupBulkLoad = 5"
| "Group_ID GroupBulkExport = 6"
| "Group_ID GroupSchemaCreate = 7"
| "Group_ID GroupSchemaAlter = 8"
| "Group_ID GroupSchemaDestroy = 9"
| "Group_ID GroupPrivilege = 10"
| "Group_ID GroupTransaction = 11"
| "Group_ID GroupSession = 12"
| "Group_ID GroupMaintenance = 13"
| "Group_ID GroupLock = 14"
| "Group_ID GroupNotify = 15"
| "Group_ID GroupProcedural = 16"
| "Group_ID GroupUnsafeIO = 17"
| "Group_ID GroupUnknown = 18"

text \<open>\<^verbatim>\<open>ParseGroup\<close> ranges over a Go map, whose names are distinct, so its order does not matter.\<close>

definition ParseGroup :: "string \<Rightarrow> Group option" where
  "ParseGroup name = map_option fst (List.find (\<lambda>(g, n, _). n = name) groupTable)"

section \<open>Operation aliases\<close>

definition aliasTable :: "(string \<times> Group list) list" where
  "aliasTable =
     [(''READ'', [GroupRead]), (''INSERT'', [GroupWrite]), (''UPDATE'', [GroupModify]),
      (''DELETE'', [GroupDelete]), (''REMOVE'', [GroupDelete]), (''CREATE'', [GroupSchemaCreate]),
      (''DROP'', [GroupSchemaDestroy]), (''ALTER'', [GroupSchemaAlter]), (''TRUNCATE'', [GroupSchemaDestroy]),
      (''EXPORT'', [GroupBulkExport, GroupUnsafeIO]), (''LOAD'', [GroupBulkLoad]),
      (''MUTATE'', [GroupWrite, GroupModify, GroupDelete]),
      (''SCHEMA'', [GroupSchemaCreate, GroupSchemaAlter, GroupSchemaDestroy]),
      (''MAINTENANCE'', [GroupMaintenance]), (''LOCK_TABLES'', [GroupLock]), (''LISTEN_NOTIFY'', [GroupNotify]),
      (''DANGEROUS'', [GroupSchemaDestroy, GroupPrivilege, GroupUnsafeIO, GroupProcedural, GroupBulkExport, GroupLock])]"

definition ExpandAlias :: "string \<Rightarrow> Group list option" where
  "ExpandAlias token =
     (if token = ''*'' then Some (filter (\<lambda>g. g \<noteq> GroupUnknown) (map fst groupTable))
      else case map_of aliasTable token of
        Some groups \<Rightarrow> Some groups
      | None \<Rightarrow> (case ParseGroup token of Some g \<Rightarrow> Some [g] | None \<Rightarrow> None))"

section \<open>Subtypes\<close>

type_synonym Subtype = nat

text \<open>The row of subtype \<open>n\<close> is at position \<open>n\<close>, the value of its \<^verbatim>\<open>iota\<close> constant.\<close>

definition subtypeTable :: "(string \<times> Group) list" where
  "subtypeTable =
    [([], GroupNone), (''set'', GroupSession), (''set_search_path'', GroupSession),
     (''set_role'', GroupSession), (''set_session_authorization'', GroupSession),
     (''set_local'', GroupSession), (''reset'', GroupSession), (''reset_all'', GroupSession),
     (''discard'', GroupSession), (''discard_all'', GroupSession), (''discard_temp'', GroupSession),
     (''discard_plans'', GroupSession), (''discard_sequences'', GroupSession),
     (''cancel_request'', GroupSession), (''create_table'', GroupSchemaCreate),
     (''create_index'', GroupSchemaCreate), (''create_view'', GroupSchemaCreate),
     (''create_schema'', GroupSchemaCreate), (''create_function'', GroupSchemaCreate),
     (''create_materialized_view'', GroupSchemaCreate), (''create_extension'', GroupSchemaCreate),
     (''create_database'', GroupSchemaCreate), (''create_publication'', GroupSchemaCreate),
     (''alter_publication'', GroupSchemaAlter), (''drop_table'', GroupSchemaDestroy),
     (''drop_database'', GroupSchemaDestroy), (''drop_schema'', GroupSchemaDestroy),
     (''drop_index'', GroupSchemaDestroy), (''drop_view'', GroupSchemaDestroy),
     (''drop_function'', GroupSchemaDestroy), (''drop_publication'', GroupSchemaDestroy),
     (''truncate'', GroupSchemaDestroy), (''grant'', GroupPrivilege), (''revoke'', GroupPrivilege),
     (''alter_role'', GroupPrivilege), (''create_role'', GroupPrivilege), (''drop_role'', GroupPrivilege),
     (''alter_system'', GroupPrivilege), (''security_label'', GroupPrivilege),
     (''copy_from_stdin'', GroupBulkLoad), (''copy_from_s3'', GroupBulkLoad),
     (''copy_to_stdout'', GroupBulkExport), (''unload_to_s3'', GroupBulkExport),
     (''function_call_protocol'', GroupProcedural), (''escalated_function_call'', GroupProcedural),
     (''call'', GroupProcedural), (''do'', GroupProcedural), (''anonymous_block'', GroupProcedural),
     (''do_or_anon'', GroupProcedural), (''create_subscription'', GroupUnsafeIO),
     (''alter_subscription'', GroupUnsafeIO), (''drop_subscription'', GroupUnsafeIO),
     (''create_server'', GroupUnsafeIO), (''alter_server'', GroupUnsafeIO), (''drop_server'', GroupUnsafeIO),
     (''create_user_mapping'', GroupUnsafeIO), (''alter_user_mapping'', GroupUnsafeIO),
     (''drop_user_mapping'', GroupUnsafeIO), (''create_tablespace'', GroupUnsafeIO),
     (''alter_tablespace'', GroupUnsafeIO), (''drop_tablespace'', GroupUnsafeIO),
     (''copy_to_path'', GroupUnsafeIO), (''copy_from_path'', GroupUnsafeIO),
     (''copy_to_program'', GroupUnsafeIO), (''copy_from_program'', GroupUnsafeIO),
     (''large_object_io'', GroupUnsafeIO), (''server_file_read'', GroupUnsafeIO),
     (''dblink_call'', GroupUnsafeIO), (''fdw_access'', GroupUnsafeIO)]"

abbreviation (input) SubtypeNone :: Subtype where "SubtypeNone \<equiv> 0"
abbreviation (input) SubtypeSetSearchPath :: Subtype where "SubtypeSetSearchPath \<equiv> 2"
abbreviation (input) SubtypeSetRole :: Subtype where "SubtypeSetRole \<equiv> 3"
abbreviation (input) SubtypeSetSessionAuthorization :: Subtype where "SubtypeSetSessionAuthorization \<equiv> 4"
abbreviation (input) SubtypeSetLocal :: Subtype where "SubtypeSetLocal \<equiv> 5"
abbreviation (input) SubtypeReset :: Subtype where "SubtypeReset \<equiv> 6"
abbreviation (input) SubtypeResetAll :: Subtype where "SubtypeResetAll \<equiv> 7"
abbreviation (input) SubtypeDiscardAll :: Subtype where "SubtypeDiscardAll \<equiv> 9"
abbreviation (input) SubtypeDiscardTemp :: Subtype where "SubtypeDiscardTemp \<equiv> 10"
abbreviation (input) SubtypeDiscardPlans :: Subtype where "SubtypeDiscardPlans \<equiv> 11"
abbreviation (input) SubtypeDiscardSequences :: Subtype where "SubtypeDiscardSequences \<equiv> 12"
abbreviation (input) SubtypeCreateTable :: Subtype where "SubtypeCreateTable \<equiv> 14"
abbreviation (input) SubtypeCreateIndex :: Subtype where "SubtypeCreateIndex \<equiv> 15"
abbreviation (input) SubtypeCreateView :: Subtype where "SubtypeCreateView \<equiv> 16"
abbreviation (input) SubtypeCreateSchema :: Subtype where "SubtypeCreateSchema \<equiv> 17"
abbreviation (input) SubtypeCreateFunction :: Subtype where "SubtypeCreateFunction \<equiv> 18"
abbreviation (input) SubtypeCreateMaterializedView :: Subtype where "SubtypeCreateMaterializedView \<equiv> 19"
abbreviation (input) SubtypeCreateExtension :: Subtype where "SubtypeCreateExtension \<equiv> 20"
abbreviation (input) SubtypeDropTable :: Subtype where "SubtypeDropTable \<equiv> 24"
abbreviation (input) SubtypeDropSchema :: Subtype where "SubtypeDropSchema \<equiv> 26"
abbreviation (input) SubtypeDropIndex :: Subtype where "SubtypeDropIndex \<equiv> 27"
abbreviation (input) SubtypeDropView :: Subtype where "SubtypeDropView \<equiv> 28"
abbreviation (input) SubtypeDropFunction :: Subtype where "SubtypeDropFunction \<equiv> 29"
abbreviation (input) SubtypeFunctionCallProtocol :: Subtype where "SubtypeFunctionCallProtocol \<equiv> 43"

definition Subtype_String :: "Subtype \<Rightarrow> string" where
  "Subtype_String s = (if s < length subtypeTable then fst (subtypeTable ! s) else [])"

definition Subtype_Group :: "Subtype \<Rightarrow> Group" where
  "Subtype_Group s = (if s < length subtypeTable then snd (subtypeTable ! s) else GroupNone)"

definition ParseSubtype :: "string \<Rightarrow> Subtype option" where
  "ParseSubtype name =
     (if name = [] then None
      else map_option fst (List.find (\<lambda>(s, n, _). n = name) (enumerate 0 subtypeTable)))"

section \<open>Resolution tags\<close>

datatype Resolution =
    ResolutionQualified | ResolutionUnqualified | ResolutionAmbiguousAfterSearchPath
  | ResolutionMaybeTempShadowed | ResolutionUnresolved | ResolutionCatalogResolved
  | ResolutionCatalogUnresolved | ResolutionCatalogUnavailable

definition resolutionNames :: "(Resolution \<times> string) list" where
  "resolutionNames =
     [(ResolutionQualified, ''qualified_syntactic''), (ResolutionUnqualified, ''unqualified_syntactic''),
      (ResolutionAmbiguousAfterSearchPath, ''ambiguous_after_search_path''),
      (ResolutionMaybeTempShadowed, ''maybe_temp_shadowed''), (ResolutionUnresolved, ''unresolved''),
      (ResolutionCatalogResolved, ''catalog_resolved''), (ResolutionCatalogUnresolved, ''catalog_unresolved''),
      (ResolutionCatalogUnavailable, ''catalog_unavailable'')]"

fun resolutionRank :: "Resolution \<Rightarrow> nat" where
  "resolutionRank ResolutionCatalogResolved = 0"
| "resolutionRank ResolutionQualified = 1"
| "resolutionRank ResolutionUnqualified = 2"
| "resolutionRank ResolutionAmbiguousAfterSearchPath = 3"
| "resolutionRank ResolutionMaybeTempShadowed = 4"
| "resolutionRank ResolutionUnresolved = 5"
| "resolutionRank ResolutionCatalogUnresolved = 6"
| "resolutionRank ResolutionCatalogUnavailable = 7"

definition Resolution_String :: "Resolution \<Rightarrow> string" where
  "Resolution_String r = (case map_of resolutionNames r of Some n \<Rightarrow> n | None \<Rightarrow> [])"

definition Fold :: "Resolution list \<Rightarrow> Resolution" where
  "Fold rs =
     (case rs of [] \<Rightarrow> ResolutionQualified
      | r # rs \<Rightarrow> foldl (\<lambda>worst r. if resolutionRank r > resolutionRank worst then r else worst) r rs)"

definition ParseResolution :: "string \<Rightarrow> Resolution option" where
  "ParseResolution name = map_option fst (List.find (\<lambda>(r, n). n = name) resolutionNames)"

section \<open>Objects, effects and statements\<close>

datatype ObjectKind =
    ObjectNone | ObjectTable | ObjectView | ObjectFunction | ObjectSchema | ObjectIndex | ObjectSequence
  | ObjectExternalEndpoint | ObjectFilesystemPath | ObjectProgram | ObjectSubscription | ObjectPublication
  | ObjectServer | ObjectUserMapping | ObjectTablespace | ObjectGUC | ObjectRole

record ObjectRef =
  o_Kind :: ObjectKind
  o_Schema :: string
  o_Name :: string
  o_Host :: string
  o_Port :: int
  o_Path :: string
  o_Argv0 :: string

definition zero_ObjectRef :: ObjectRef where
  "zero_ObjectRef = \<lparr>o_Kind = ObjectNone, o_Schema = [], o_Name = [], o_Host = [], o_Port = 0, o_Path = [], o_Argv0 = []\<rparr>"

definition ResolvedObjectSourceCatalog :: string where "ResolvedObjectSourceCatalog = ''catalog''"
definition ResolvedObjectRelation :: string where "ResolvedObjectRelation = ''relation''"
definition ResolvedObjectFunction :: string where "ResolvedObjectFunction = ''function''"

record ResolvedObjectRef =
  ro_Source :: string
  ro_Kind :: string
  ro_OID :: nat
  ro_Schema :: string
  ro_Name :: string
  ro_RelationKind :: string
  ro_FunctionIdentityArgs :: string
  ro_FunctionVolatility :: string
  ro_UnresolvedReason :: string

definition CanonicalName :: "ResolvedObjectRef \<Rightarrow> string" where
  "CanonicalName r = (if ro_Schema r = [] then ro_Name r else ro_Schema r @ ''.'' @ ro_Name r)"

record Effect =
  e_Group :: Group
  e_Subtype :: Subtype
  e_Objects :: "ObjectRef list"
  e_ResolvedObjects :: "ResolvedObjectRef list"
  e_Resolution :: Resolution
  e_HasWhere :: bool
  e_FunctionOID :: "int option"

datatype BulkOpKind = BulkOpNone | BulkOpIn | BulkOpOut

datatype ParserBackend = ParserBackendUnknown | ParserBackendLibPgQuery | ParserBackendPureGo

record ClassifiedStatement =
  cst_Effects :: "Effect list"
  cst_RawVerb :: string
  cst_ParserBackend :: ParserBackend
  cst_Error :: string
  cst_SourceStart :: int
  cst_SourceEnd :: int
  cst_PreparedName :: string
  cst_BulkOp :: BulkOpKind

definition Primary :: "ClassifiedStatement \<Rightarrow> Effect option" where
  "Primary s = (case cst_Effects s of [] \<Rightarrow> None | e # _ \<Rightarrow> Some e)"

definition FoldResolution :: "ClassifiedStatement \<Rightarrow> Resolution" where
  "FoldResolution s = Fold (map e_Resolution (cst_Effects s))"

section \<open>The canonical order of effects\<close>

fun canonicalGroupRank :: "Group \<Rightarrow> nat" where
  "canonicalGroupRank GroupUnknown = 0"
| "canonicalGroupRank GroupUnsafeIO = 1"
| "canonicalGroupRank GroupSchemaDestroy = 2"
| "canonicalGroupRank GroupBulkExport = 3"
| "canonicalGroupRank GroupPrivilege = 4"
| "canonicalGroupRank GroupDelete = 0"
| "canonicalGroupRank GroupSchemaCreate = 1"
| "canonicalGroupRank GroupSchemaAlter = 2"
| "canonicalGroupRank GroupBulkLoad = 3"
| "canonicalGroupRank GroupProcedural = 4"
| "canonicalGroupRank GroupModify = 0"
| "canonicalGroupRank GroupWrite = 1"
| "canonicalGroupRank GroupMaintenance = 2"
| "canonicalGroupRank GroupLock = 3"
| "canonicalGroupRank GroupRead = 0"
| "canonicalGroupRank GroupTransaction = 1"
| "canonicalGroupRank GroupSession = 2"
| "canonicalGroupRank GroupNotify = 3"
| "canonicalGroupRank GroupNone = 0"

definition effectLess :: "Effect \<Rightarrow> Effect \<Rightarrow> bool" where
  "effectLess a b =
     (let ti = tierRank (Group_RiskTier (e_Group a)); tj = tierRank (Group_RiskTier (e_Group b)) in
      if ti \<noteq> tj then ti > tj
      else canonicalGroupRank (e_Group a) < canonicalGroupRank (e_Group b))"

text \<open>\<^verbatim>\<open>sort.SliceStable\<close>: an element is put before the later ones it is not greater than.\<close>

fun insertStable :: "('a \<Rightarrow> 'a \<Rightarrow> bool) \<Rightarrow> 'a \<Rightarrow> 'a list \<Rightarrow> 'a list" where
  "insertStable lt x [] = [x]"
| "insertStable lt x (y # ys) = (if lt y x then y # insertStable lt x ys else x # y # ys)"

definition SliceStable :: "('a \<Rightarrow> 'a \<Rightarrow> bool) \<Rightarrow> 'a list \<Rightarrow> 'a list" where
  "SliceStable lt xs = foldr (insertStable lt) xs []"

definition Order :: "Effect list \<Rightarrow> Effect list" where
  "Order es = SliceStable effectLess es"

section \<open>Lemmas\<close>

text \<open>The parsers of names invert the printers.\<close>

lemma ParseGroup_String: "ParseGroup n = Some g \<Longrightarrow> Group_String g = n"
  by (auto simp: ParseGroup_def groupTable_def Group_String_def split: if_splits)

lemma Group_String_Parse: "g \<noteq> GroupNone \<Longrightarrow> ParseGroup (Group_String g) = Some g"
  by (cases g) (simp_all add: ParseGroup_def groupTable_def Group_String_def)

lemma ParseResolution_String: "ParseResolution n = Some r \<longleftrightarrow> n = Resolution_String r"
  by (cases r) (auto simp: ParseResolution_def resolutionNames_def Resolution_String_def)

lemma find_enumerate_Some:
  "List.find (\<lambda>(s, n, _). n = name) (enumerate k xs) = Some (s, n, g) \<Longrightarrow>
     k \<le> s \<and> s < k + length xs \<and> xs ! (s - k) = (n, g) \<and> n = name"
proof (induction xs arbitrary: k)
  case (Cons x xs)
  show ?case
  proof (cases "fst x = name")
    case True
    with Cons.prems show ?thesis by (cases x) auto
  next
    case False
    with Cons.prems have "List.find (\<lambda>(s, n, _). n = name) (enumerate (Suc k) xs) = Some (s, n, g)"
      by (cases x) auto
    from Cons.IH [OF this] show ?thesis by (auto simp: nth_Cons' )
  qed
qed simp

lemma ParseSubtype_String: "ParseSubtype n = Some s \<Longrightarrow> Subtype_String s = n"
  by (auto simp: ParseSubtype_def Subtype_String_def split: if_splits dest: find_enumerate_Some)

text \<open>No alias but the name itself reaches the unknown group: the wildcard leaves it out.\<close>

lemma aliasTable_groups: "map_of aliasTable token = Some gs \<Longrightarrow> GroupUnknown \<notin> set gs \<and> GroupNone \<notin> set gs"
proof -
  have "list_all (\<lambda>(_, gs). GroupUnknown \<notin> set gs \<and> GroupNone \<notin> set gs) aliasTable"
    by (simp add: aliasTable_def)
  then show "map_of aliasTable token = Some gs \<Longrightarrow> ?thesis"
    by (auto simp: list_all_iff dest: map_of_SomeD)
qed

lemma ExpandAlias_cases:
  assumes "ExpandAlias token = Some gs"
  obtains "gs = filter (\<lambda>g. g \<noteq> GroupUnknown) (map fst groupTable)"
  | "map_of aliasTable token = Some gs"
  | g where "ParseGroup token = Some g" "gs = [g]"
proof (cases "token = ''*''")
  case True
  with assms that(1) show ?thesis by (simp add: ExpandAlias_def)
next
  case False
  show ?thesis
  proof (cases "map_of aliasTable token")
    case None
    with assms False that(3) show ?thesis by (cases "ParseGroup token") (simp_all add: ExpandAlias_def)
  next
    case (Some x)
    with assms False that(2) show ?thesis by (simp add: ExpandAlias_def)
  qed
qed

lemma ParseGroup_not_none: "ParseGroup n \<noteq> Some GroupNone"
proof
  assume "ParseGroup n = Some GroupNone"
  then have "GroupNone \<in> fst ` set groupTable"
    by (force simp: ParseGroup_def find_Some_iff in_set_conv_nth)
  then show False by (simp add: groupTable_def)
qed

lemma ExpandAlias_unknown:
  assumes "ExpandAlias token = Some gs" and "GroupUnknown \<in> set gs"
  shows "token = ''unknown''"
  using assms(1)
proof (cases rule: ExpandAlias_cases)
  case (3 g)
  with assms(2) have "ParseGroup token = Some GroupUnknown" by simp
  from ParseGroup_String [OF this] show ?thesis by (simp add: Group_String_def groupTable_def)
qed (use assms(2) aliasTable_groups in auto)

lemma ExpandAlias_GroupNone:
  assumes "ExpandAlias token = Some gs"
  shows "GroupNone \<notin> set gs"
  using assms
proof (cases rule: ExpandAlias_cases)
  case 1
  then show ?thesis by (simp add: groupTable_def)
qed (use aliasTable_groups ParseGroup_not_none in auto)

lemma foldl_worst:
  fixes rank :: "'a \<Rightarrow> nat"
  defines "pick \<equiv> \<lambda>worst r. if rank r > rank worst then r else worst"
  shows "foldl pick r rs \<in> insert r (set rs) \<and> (\<forall>x \<in> insert r (set rs). rank x \<le> rank (foldl pick r rs))"
proof (induction rs arbitrary: r)
  case (Cons x rs)
  from Cons.IH [of "pick r x"] show ?case by (force simp: pick_def split: if_splits)
qed simp

lemma Fold_worst: "r \<in> set rs \<Longrightarrow> Fold rs \<in> set rs \<and> resolutionRank r \<le> resolutionRank (Fold rs)"
  using foldl_worst [of resolutionRank "hd rs" "tl rs"] by (cases rs) (auto simp: Fold_def)

text \<open>The canonical order is a stable sort by tier, highest first, then by rank within the tier.\<close>

definition effect_key :: "Effect \<Rightarrow> nat" where
  "effect_key e = (4 - tierRank (Group_RiskTier (e_Group e))) * 5 + canonicalGroupRank (e_Group e)"

lemma tierRank_le: "tierRank t \<le> 4"
  by (cases t) simp_all

lemma canonicalGroupRank_le: "canonicalGroupRank g < 5"
  by (cases g) simp_all

lemma lex_key:
  fixes a b p q :: nat
  assumes "a \<le> 4" "b \<le> 4" "p < 5" "q < 5"
  shows "(if a \<noteq> b then a > b else p < q) \<longleftrightarrow> (4 - a) * 5 + p < (4 - b) * 5 + q"
  using assms by (auto split: if_splits)

lemma effectLess_key: "effectLess a b \<longleftrightarrow> effect_key a < effect_key b"
  unfolding effectLess_def effect_key_def Let_def
  by (rule lex_key) (simp_all add: tierRank_le canonicalGroupRank_le)

lemma insertStable_key:
  fixes f :: "'a \<Rightarrow> nat"
  assumes "\<And>a b. lt a b \<longleftrightarrow> f a < f b"
  shows "insertStable lt x ys = insort_key f x ys"
  by (induction ys) (auto simp: assms)

lemma Order_sort_key: "Order es = sort_key effect_key es"
  unfolding Order_def SliceStable_def sort_key_def
  by (rule foldr_cong) (simp_all add: insertStable_key [of effectLess effect_key, OF effectLess_key] fun_eq_iff)

end
