(* ===== verification/DbPolicy.thy ===== *)
theory DbPolicy
  imports DbEffects PolicyTypes
begin

text \<open>
  The database policy of \<^verbatim>\<open>internal/db/policy\<close>: rules as the policy file has them (\<^verbatim>\<open>types.go\<close>), their compiled
  form and its matchers (\<^verbatim>\<open>compile.go\<close>), the evaluation of a classified statement (\<^verbatim>\<open>evaluate.go\<close>) and of a
  connection (\<^verbatim>\<open>evaluate_conn.go\<close>). A glob is the predicate it matches. A message template is a function from
  the rendering context to the text or to an error. A Go pointer that may be nil is an \<^typ>\<open>'a option\<close>; where
  the code dereferences one, the result of the model is \<open>None\<close>, a panic.
\<close>

section \<open>Rules of the policy file\<close>

type_synonym ServiceID = string
type_synonym Duration = int

datatype DecisionVerb = VerbAllow | VerbAudit | VerbRedirect | VerbApprove | VerbDeny
datatype RuleKind = RuleKindStatement | RuleKindConnection | RuleKindCancel
datatype ConnectionMatchKind = MatchConnect | MatchCancel | MatchReplication

record RedirectDecision =
  rd_SourceRelation :: string
  rd_TargetRelation :: string

record DBService =
  db_Name :: string
  db_Family :: string
  db_Dialect :: string
  db_Upstream :: string
  db_TLSMode :: string
  db_AllowFunctionCallProtocol :: bool
  db_AllowGSSEncryption :: bool
  db_TrustedNetwork :: bool

record StatementRule =
  stm_Name :: string
  stm_DBService :: string
  stm_DBFamily :: string
  stm_DBDialect :: string
  stm_Schemas :: "string list"
  stm_Objects :: "string list"
  stm_Relations :: "string list"
  stm_Functions :: "string list"
  stm_Operations :: "string list"
  stm_Subtypes :: "string list"
  stm_MatchObjectResolution :: string
  stm_RequireWhere :: bool
  stm_Decision :: string
  stm_Message :: string
  stm_Timeout :: Duration
  stm_Redirect :: "string option"
  stm_AcknowledgeAuditOnDangerous :: bool
  stm_DenyModeInTx :: string

definition zero_StatementRule :: StatementRule where
  "zero_StatementRule =
     \<lparr>stm_Name = [], stm_DBService = [], stm_DBFamily = [], stm_DBDialect = [], stm_Schemas = [], stm_Objects = [],
      stm_Relations = [], stm_Functions = [], stm_Operations = [], stm_Subtypes = [], stm_MatchObjectResolution = [],
      stm_RequireWhere = False, stm_Decision = [], stm_Message = [], stm_Timeout = 0, stm_Redirect = None,
      stm_AcknowledgeAuditOnDangerous = False, stm_DenyModeInTx = []\<rparr>"

record ConnectionRule =
  cnr_Name :: string
  cnr_DBService :: string
  cnr_MatchKind :: string
  cnr_DBUser :: "string list"
  cnr_Database :: string
  cnr_ApplicationName :: string
  cnr_ClientIdentity :: string
  cnr_Decision :: string
  cnr_Message :: string
  cnr_Timeout :: Duration

record ConnectionInfo =
  ci_Service :: ServiceID
  ci_MatchKind :: ConnectionMatchKind
  ci_DBUser :: string
  ci_Database :: string
  ci_ApplicationName :: string
  ci_ClientIdentity :: string

record ApprovalRequest =
  ar_Timeout :: Duration
  ar_ContributingApproveRules :: "string list"

record DbDecision =
  dd_Verb :: DecisionVerb
  dd_RuleKind :: RuleKind
  dd_RuleName :: string
  dd_MatchingEffectIndex :: int
  dd_MatchingEffectGroup :: Group
  dd_Reason :: string
  dd_ContributingAuditRules :: "string list"
  dd_Approval :: "ApprovalRequest option"
  dd_Redirect :: "RedirectDecision option"

section \<open>Compiled rules\<close>

definition defaultApproveTimeout :: Duration where
  "defaultApproveTimeout = 60 * 1000000000"

datatype resolutionMatcher = resAny | resEq Resolution

fun resolutionMatcher_matches :: "resolutionMatcher \<Rightarrow> Resolution \<Rightarrow> bool" where
  "resolutionMatcher_matches resAny r = True"
| "resolutionMatcher_matches (resEq r') r = (r' = r)"

record serviceFilter =
  sf_service :: ServiceID
  sf_family :: string
  sf_dialect :: string

definition serviceFilter_matches :: "serviceFilter \<Rightarrow> ServiceID \<Rightarrow> DBService option \<Rightarrow> bool" where
  "serviceFilter_matches f sid svc =
     (if sf_service f \<noteq> [] \<and> sf_service f \<noteq> sid then False
      else if sf_family f \<noteq> [] \<and> (case svc of None \<Rightarrow> True | Some s \<Rightarrow> db_Family s \<noteq> sf_family f) then False
      else if sf_dialect f \<noteq> [] \<and> (case svc of None \<Rightarrow> True | Some s \<Rightarrow> db_Dialect s \<noteq> sf_dialect f) then False
      else True)"

record messageContext =
  mc_Operation :: string
  mc_Subtype :: string
  mc_Schema :: string
  mc_Object :: string
  mc_Verb :: string

type_synonym template = "messageContext \<Rightarrow> string + string"

record compiledStatementRule =
  csr_src :: StatementRule
  csr_verb :: DecisionVerb
  csr_groups :: "Group list"
  csr_subtypes :: "Subtype list"
  csr_requireWhere :: bool
  csr_resolution :: resolutionMatcher
  csr_schemas :: "pattern list"
  csr_objects :: "pattern list"
  csr_relations :: "pattern list"
  csr_functions :: "pattern list"
  csr_timeout :: Duration
  csr_msgTemplate :: "template option"
  csr_redirect :: "RedirectDecision option"
  csr_serviceFilter :: serviceFilter

record compiledConnectionRule =
  ccr_src :: ConnectionRule
  ccr_verb :: DecisionVerb
  ccr_matchKind :: ConnectionMatchKind
  ccr_dbUsers :: "string list"
  ccr_database :: string
  ccr_applicationName :: "pattern option"
  ccr_clientIdentity :: "pattern option"
  ccr_timeout :: Duration
  ccr_msgTemplate :: "template option"
  ccr_serviceFilter :: serviceFilter

record RuleSet =
  rset_services :: "(ServiceID \<times> DBService) list"
  rset_statement :: "compiledStatementRule list"
  rset_connection :: "compiledConnectionRule list"

definition hasObjectSelectors :: "compiledStatementRule \<Rightarrow> bool" where
  "hasObjectSelectors c \<longleftrightarrow> csr_objects c \<noteq> [] \<or> csr_relations c \<noteq> [] \<or> csr_functions c \<noteq> []"

definition coversAllObjects :: "compiledStatementRule \<Rightarrow> bool" where
  "coversAllObjects c \<longleftrightarrow> \<not> hasObjectSelectors c"

definition objectMatchField :: "ObjectRef \<Rightarrow> string" where
  "objectMatchField ob =
     (case o_Kind ob of
        ObjectExternalEndpoint \<Rightarrow> o_Host ob
      | ObjectFilesystemPath \<Rightarrow> o_Path ob
      | ObjectProgram \<Rightarrow> o_Argv0 ob
      | _ \<Rightarrow> o_Name ob)"

definition objectMatches :: "compiledStatementRule \<Rightarrow> ObjectRef \<Rightarrow> bool" where
  "objectMatches c ob = (if coversAllObjects c then True else list_ex (\<lambda>g. g (objectMatchField ob)) (csr_objects c))"

text \<open>\<open>resolved\<close> is the pair \<^verbatim>\<open>(resolved, hasResolved)\<close> of the code.\<close>

definition schemaMatchesObjectSlot :: "compiledStatementRule \<Rightarrow> ObjectRef \<Rightarrow> ResolvedObjectRef option \<Rightarrow> bool" where
  "schemaMatchesObjectSlot c ob resolved =
     (if csr_schemas c = [] then True
      else list_ex (\<lambda>g. o_Schema ob \<noteq> [] \<and> g (o_Schema ob)
             \<or> (case resolved of None \<Rightarrow> False | Some r \<Rightarrow> ro_Schema r \<noteq> [] \<and> g (ro_Schema r))) (csr_schemas c))"

definition schemaMatchesResolvedObject :: "compiledStatementRule \<Rightarrow> ResolvedObjectRef \<Rightarrow> bool" where
  "schemaMatchesResolvedObject c r =
     (if csr_schemas c = [] then True
      else if ro_Schema r = [] then False
      else list_ex (\<lambda>g. g (ro_Schema r)) (csr_schemas c))"

definition relationMatches :: "compiledStatementRule \<Rightarrow> ResolvedObjectRef \<Rightarrow> bool" where
  "relationMatches c r =
     (if csr_relations c = [] then False
      else if ro_Source r \<noteq> ResolvedObjectSourceCatalog \<or> ro_Kind r \<noteq> ResolvedObjectRelation \<or> ro_UnresolvedReason r \<noteq> []
        then False
      else list_ex (\<lambda>g. g (CanonicalName r)) (csr_relations c))"

definition resolvedFunctionIdentity :: "ResolvedObjectRef \<Rightarrow> string" where
  "resolvedFunctionIdentity r = CanonicalName r @ ''('' @ ro_FunctionIdentityArgs r @ '')''"

definition functionMatches :: "compiledStatementRule \<Rightarrow> ResolvedObjectRef \<Rightarrow> bool" where
  "functionMatches c r =
     (if csr_functions c = [] then False
      else if ro_Source r \<noteq> ResolvedObjectSourceCatalog \<or> ro_Kind r \<noteq> ResolvedObjectFunction \<or> ro_UnresolvedReason r \<noteq> []
        then False
      else list_ex (\<lambda>g. g (resolvedFunctionIdentity r)) (csr_functions c))"

definition render :: "template option \<Rightarrow> string \<Rightarrow> messageContext \<Rightarrow> string" where
  "render tmpl msg ctx =
     (case tmpl of None \<Rightarrow> msg
      | Some t \<Rightarrow> (case t ctx of Inl err \<Rightarrow> ''<message render error: '' @ err @ ''>'' | Inr s \<Rightarrow> s))"

definition renderMessage :: "compiledStatementRule \<Rightarrow> messageContext \<Rightarrow> string" where
  "renderMessage c ctx = render (csr_msgTemplate c) (stm_Message (csr_src c)) ctx"

definition conn_renderMessage :: "compiledConnectionRule \<Rightarrow> messageContext \<Rightarrow> string" where
  "conn_renderMessage c ctx = render (ccr_msgTemplate c) (cnr_Message (ccr_src c)) ctx"

section \<open>Resolved objects of an effect\<close>

definition isRelationObjectKind :: "ObjectKind \<Rightarrow> bool" where
  "isRelationObjectKind k \<longleftrightarrow> k \<in> {ObjectTable, ObjectView, ObjectSequence}"

text \<open>The ordinal of slot \<open>idx\<close> among the slots of its kind; \<open>None\<close> is the \<^verbatim>\<open>-1\<close> of the code.\<close>

fun slotOrdinal :: "(ObjectKind \<Rightarrow> bool) \<Rightarrow> ObjectRef list \<Rightarrow> nat \<Rightarrow> nat \<Rightarrow> nat option" where
  "slotOrdinal isKind [] idx ordinal = None"
| "slotOrdinal isKind (ob # obs) idx ordinal =
     (if \<not> isKind (o_Kind ob) then (case idx of 0 \<Rightarrow> None | Suc i \<Rightarrow> slotOrdinal isKind obs i ordinal)
      else (case idx of 0 \<Rightarrow> Some ordinal | Suc i \<Rightarrow> slotOrdinal isKind obs i (ordinal + 1)))"

definition relationObjectSlotOrdinal :: "ObjectRef list \<Rightarrow> nat \<Rightarrow> nat option" where
  "relationObjectSlotOrdinal obs idx = slotOrdinal isRelationObjectKind obs idx 0"

definition functionObjectSlotOrdinal :: "ObjectRef list \<Rightarrow> nat \<Rightarrow> nat option" where
  "functionObjectSlotOrdinal obs idx = slotOrdinal (\<lambda>k. k = ObjectFunction) obs idx 0"

fun resolvedAtOrdinal :: "string \<Rightarrow> ResolvedObjectRef list \<Rightarrow> nat \<Rightarrow> nat \<Rightarrow> ResolvedObjectRef option" where
  "resolvedAtOrdinal kind [] ordinal n = None"
| "resolvedAtOrdinal kind (r # rs) ordinal n =
     (if ro_Kind r \<noteq> kind then resolvedAtOrdinal kind rs ordinal n
      else if n = ordinal then Some r
      else resolvedAtOrdinal kind rs ordinal (n + 1))"

definition resolvedRelationObjectAtOrdinal :: "ResolvedObjectRef list \<Rightarrow> nat option \<Rightarrow> ResolvedObjectRef option" where
  "resolvedRelationObjectAtOrdinal rs ordinal =
     (case ordinal of None \<Rightarrow> None | Some k \<Rightarrow> resolvedAtOrdinal ResolvedObjectRelation rs k 0)"

definition resolvedFunctionObjectAtOrdinal :: "ResolvedObjectRef list \<Rightarrow> nat option \<Rightarrow> ResolvedObjectRef option" where
  "resolvedFunctionObjectAtOrdinal rs ordinal =
     (case ordinal of None \<Rightarrow> None | Some k \<Rightarrow> resolvedAtOrdinal ResolvedObjectFunction rs k 0)"

definition resolvedObjectCompatibleWithSlot :: "ObjectRef \<Rightarrow> ResolvedObjectRef \<Rightarrow> bool" where
  "resolvedObjectCompatibleWithSlot ob r =
     (if o_Name ob = [] \<or> ro_Name r = [] \<or> o_Name ob \<noteq> ro_Name r then False
      else if o_Schema ob \<noteq> [] \<and> o_Schema ob \<noteq> ro_Schema r then False
      else if ro_Kind r = ResolvedObjectRelation then isRelationObjectKind (o_Kind ob)
      else if ro_Kind r = ResolvedObjectFunction then o_Kind ob = ObjectFunction
      else False)"

definition resolvedObjectForSlot :: "Effect \<Rightarrow> nat \<Rightarrow> ResolvedObjectRef option" where
  "resolvedObjectForSlot e idx =
     (if \<not> idx < length (e_Objects e) then None
      else let ob = e_Objects e ! idx in
        if isRelationObjectKind (o_Kind ob) then
          (case resolvedRelationObjectAtOrdinal (e_ResolvedObjects e) (relationObjectSlotOrdinal (e_Objects e) idx) of
             None \<Rightarrow> None
           | Some r \<Rightarrow> if resolvedObjectCompatibleWithSlot ob r then Some r else None)
        else if o_Kind ob = ObjectFunction then
          (case resolvedFunctionObjectAtOrdinal (e_ResolvedObjects e) (functionObjectSlotOrdinal (e_Objects e) idx) of
             None \<Rightarrow> None
           | Some r \<Rightarrow> if resolvedObjectCompatibleWithSlot ob r then Some r else None)
        else List.find (resolvedObjectCompatibleWithSlot ob) (e_ResolvedObjects e))"

section \<open>Rules against effects\<close>

definition ruleMatchesEffectMeta :: "compiledStatementRule \<Rightarrow> Effect \<Rightarrow> bool" where
  "ruleMatchesEffectMeta r e =
     (if e_Group e \<notin> set (csr_groups r) then False
      else if csr_requireWhere r \<and> \<not> e_HasWhere e then False
      else if csr_subtypes r \<noteq> [] \<and> e_Subtype e \<notin> set (csr_subtypes r) then False
      else resolutionMatcher_matches (csr_resolution r) (e_Resolution e))"

text \<open>The selector family through which a rule matches a slot, \<open>None\<close> when it does not match.\<close>

definition ruleMatchesObjectSlot :: "compiledStatementRule \<Rightarrow> Effect \<Rightarrow> nat \<Rightarrow> string option" where
  "ruleMatchesObjectSlot r e idx =
     (if \<not> idx < length (e_Objects e) then None
      else let ob = e_Objects e ! idx; resolved = resolvedObjectForSlot e idx in
        if \<not> schemaMatchesObjectSlot r ob resolved then None
        else if \<not> hasObjectSelectors r then Some ''all''
        else if csr_objects r \<noteq> [] \<and> objectMatches r ob then Some ''objects''
        else (case resolved of None \<Rightarrow> None
          | Some ro \<Rightarrow>
              if relationMatches r ro then Some ''relations''
              else if functionMatches r ro then Some ''functions''
              else None))"

end
