(* ===== verification/DbEvaluate.thy ===== *)
theory DbEvaluate
  imports DbPolicy
begin

text \<open>
  \<^verbatim>\<open>Evaluate\<close> and \<^verbatim>\<open>EvaluateConnection\<close> of \<^verbatim>\<open>internal/db/policy\<close> with every helper they call, the specification
  of a effect_verdict as a function of the set of applicable rules, and the proof that the three passes of the code
  compute it: a matching deny anywhere decides, otherwise every object has to be covered, otherwise the most
  restrictive covering rule decides.
\<close>

section \<open>Verdicts of one effect\<close>

datatype internalVerb = verbAllow | verbAudit | verbRedirect | verbApprove | verbImplicitDeny | verbDeny

fun verbRank :: "internalVerb \<Rightarrow> nat" where
  "verbRank verbAllow = 0"
| "verbRank verbAudit = 1"
| "verbRank verbRedirect = 2"
| "verbRank verbApprove = 3"
| "verbRank verbImplicitDeny = 4"
| "verbRank verbDeny = 5"

lemma verbRank_inject [simp]: "verbRank a = verbRank b \<longleftrightarrow> a = b"
  by (cases a; cases b) simp_all

instantiation internalVerb :: linorder
begin

definition less_eq_internalVerb :: "internalVerb \<Rightarrow> internalVerb \<Rightarrow> bool" where
  "less_eq_internalVerb a b \<longleftrightarrow> verbRank a \<le> verbRank b"

definition less_internalVerb :: "internalVerb \<Rightarrow> internalVerb \<Rightarrow> bool" where
  "less_internalVerb a b \<longleftrightarrow> verbRank a < verbRank b"

instance
  by standard (auto simp: less_eq_internalVerb_def less_internalVerb_def)

end

definition compareInternalVerb :: "internalVerb \<Rightarrow> internalVerb \<Rightarrow> int" where
  "compareInternalVerb a b = (if a > b then 1 else if a < b then -1 else 0)"

record effectDecision =
  ed_verb :: internalVerb
  ed_rule :: "compiledStatementRule option"
  ed_contributingApprove :: "compiledStatementRule list"
  ed_contributingAudit :: "compiledStatementRule list"
  ed_uncoveredObject :: ObjectRef
  ed_denyMatchingObject :: ObjectRef

definition effect_verdict :: "internalVerb \<Rightarrow> compiledStatementRule option \<Rightarrow> effectDecision" where
  "effect_verdict v r = \<lparr>ed_verb = v, ed_rule = r, ed_contributingApprove = [], ed_contributingAudit = [],
     ed_uncoveredObject = zero_ObjectRef, ed_denyMatchingObject = zero_ObjectRef\<rparr>"

subsection \<open>The most restrictive covering rule\<close>

record coverage_state =
  cv_best :: internalVerb
  cv_approveRules :: "compiledStatementRule list"
  cv_auditRules :: "compiledStatementRule list"
  cv_redirectRule :: "compiledStatementRule option"
  cv_approveSeen :: "string list"
  cv_auditSeen :: "string list"

definition coverageStep :: "coverage_state \<Rightarrow> compiledStatementRule \<Rightarrow> coverage_state" where
  "coverageStep s r =
     (case csr_verb r of
        VerbRedirect \<Rightarrow>
          s\<lparr>cv_best := (if verbRedirect > cv_best s then verbRedirect else cv_best s),
            cv_redirectRule := (case cv_redirectRule s of None \<Rightarrow> Some r | Some r' \<Rightarrow> Some r')\<rparr>
      | VerbApprove \<Rightarrow>
          (let s' = s\<lparr>cv_best := (if verbApprove > cv_best s then verbApprove else cv_best s)\<rparr> in
           if stm_Name (csr_src r) \<notin> set (cv_approveSeen s)
           then s'\<lparr>cv_approveSeen := stm_Name (csr_src r) # cv_approveSeen s, cv_approveRules := cv_approveRules s @ [r]\<rparr>
           else s')
      | VerbAudit \<Rightarrow>
          (let s' = s\<lparr>cv_best := (if verbAudit > cv_best s then verbAudit else cv_best s)\<rparr> in
           if stm_Name (csr_src r) \<notin> set (cv_auditSeen s)
           then s'\<lparr>cv_auditSeen := stm_Name (csr_src r) # cv_auditSeen s, cv_auditRules := cv_auditRules s @ [r]\<rparr>
           else s')
      | _ \<Rightarrow> s)"

definition coverage_init :: coverage_state where
  "coverage_init = \<lparr>cv_best = verbAllow, cv_approveRules = [], cv_auditRules = [], cv_redirectRule = None,
     cv_approveSeen = [], cv_auditSeen = []\<rparr>"

text \<open>\<^verbatim>\<open>xs[0]\<close>: on an empty slice there is no rule, and its use below panics.\<close>

definition index0 :: "'a list \<Rightarrow> 'a option" where
  "index0 xs = (case xs of [] \<Rightarrow> None | x # _ \<Rightarrow> Some x)"

definition foldCoverageRules :: "compiledStatementRule list \<Rightarrow> effectDecision" where
  "foldCoverageRules coverage =
     (let s = foldl coverageStep coverage_init coverage;
          primary = (case cv_best s of
             verbApprove \<Rightarrow> index0 (cv_approveRules s)
           | verbRedirect \<Rightarrow> cv_redirectRule s
           | verbAudit \<Rightarrow> index0 (cv_auditRules s)
           | _ \<Rightarrow> index0 coverage)
      in (effect_verdict (cv_best s) primary)\<lparr>ed_contributingApprove := cv_approveRules s,
           ed_contributingAudit := cv_auditRules s\<rparr>)"

subsection \<open>Effects with objects\<close>

text \<open>Pass 1: the first deny rule of the policy that matches an object, with the first such object.\<close>

definition matchesSlot :: "compiledStatementRule \<Rightarrow> Effect \<Rightarrow> nat \<Rightarrow> bool" where
  "matchesSlot r e i \<longleftrightarrow> ruleMatchesObjectSlot r e i \<noteq> None"

definition firstSlot :: "compiledStatementRule \<Rightarrow> Effect \<Rightarrow> nat option" where
  "firstSlot r e = List.find (matchesSlot r e) [0..<length (e_Objects e)]"

fun denyPass :: "compiledStatementRule list \<Rightarrow> Effect \<Rightarrow> effectDecision option" where
  "denyPass [] e = None"
| "denyPass (r # rs) e =
     (if csr_verb r \<noteq> VerbDeny then denyPass rs e
      else if \<not> ruleMatchesEffectMeta r e then denyPass rs e
      else (case firstSlot r e of
              Some i \<Rightarrow> Some ((effect_verdict verbDeny (Some r))\<lparr>ed_denyMatchingObject := e_Objects e ! i\<rparr>)
            | None \<Rightarrow> denyPass rs e))"

text \<open>Pass 2: the rules that cover a slot. The code compares rules by their address; here a rule is paired
  with its position in the list of applicable rules, which stands for the address.\<close>

type_synonym rule_ref = "nat \<times> compiledStatementRule"

definition slotCoverage :: "compiledStatementRule list \<Rightarrow> Effect \<Rightarrow> nat \<Rightarrow> rule_ref list" where
  "slotCoverage applicable e i =
     filter (\<lambda>(p, r). csr_verb r \<noteq> VerbDeny \<and> ruleMatchesEffectMeta r e \<and> matchesSlot r e i) (enumerate 0 applicable)"

definition coverageRulesInPolicyOrder :: "compiledStatementRule list \<Rightarrow> (nat \<Rightarrow> rule_ref list) \<Rightarrow> nat \<Rightarrow> compiledStatementRule list" where
  "coverageRulesInPolicyOrder applicable coverage objectCount =
     (let covered = concat (map (\<lambda>i. map fst (coverage i)) [0..<objectCount])
      in map snd (filter (\<lambda>(p, r). p \<in> set covered) (enumerate 0 applicable)))"

definition redirectSourceCount :: "(nat \<Rightarrow> rule_ref list) \<Rightarrow> nat \<Rightarrow> nat" where
  "redirectSourceCount coverage objectCount =
     length (remdups (concat (map (\<lambda>i. List.map_filter (\<lambda>(p, r).
       if csr_verb r \<noteq> VerbRedirect then None else map_option rd_SourceRelation (csr_redirect r)) (coverage i)) [0..<objectCount])))"

definition foldObjectCoverageRules :: "compiledStatementRule list \<Rightarrow> (nat \<Rightarrow> rule_ref list) \<Rightarrow> nat \<Rightarrow> effectDecision" where
  "foldObjectCoverageRules applicable coverage objectCount =
     (let d = foldCoverageRules (coverageRulesInPolicyOrder applicable coverage objectCount) in
      if ed_verb d \<noteq> verbRedirect then d
      else if redirectSourceCount coverage objectCount \<noteq> 1 then effect_verdict verbImplicitDeny None
      else d)"

subsection \<open>Effects without objects\<close>

definition isObjectlessGroup :: "Group \<Rightarrow> bool" where
  "isObjectlessGroup g \<longleftrightarrow> g \<in> {GroupTransaction, GroupSession, GroupNotify}"

definition isObjectlessEffect :: "Effect \<Rightarrow> bool" where
  "isObjectlessEffect e =
     (if isObjectlessGroup (e_Group e) then True
      else e_Subtype e = SubtypeFunctionCallProtocol \<and> e_ResolvedObjects e = [])"

definition isResolvedOnlyFunctionEffect :: "Effect \<Rightarrow> bool" where
  "isResolvedOnlyFunctionEffect e =
     (if e_Objects e \<noteq> [] \<or> e_Group e \<noteq> GroupProcedural then False
      else list_ex (\<lambda>r. ro_Kind r = ResolvedObjectFunction) (e_ResolvedObjects e))"

definition resolvedOnlyFunctionRuleMatches :: "compiledStatementRule \<Rightarrow> ResolvedObjectRef \<Rightarrow> bool" where
  "resolvedOnlyFunctionRuleMatches r resolved \<longleftrightarrow>
     ro_Kind resolved = ResolvedObjectFunction \<and> schemaMatchesResolvedObject r resolved"

definition matchesResolvedOnly :: "compiledStatementRule \<Rightarrow> Effect \<Rightarrow> bool" where
  "matchesResolvedOnly r e \<longleftrightarrow>
     list_ex (\<lambda>resolved. resolvedOnlyFunctionRuleMatches r resolved \<and> (\<not> hasObjectSelectors r \<or> functionMatches r resolved))
       (e_ResolvedObjects e)"

text \<open>Both kinds of effect without objects: the first deny rule that applies, otherwise the covering rules.\<close>

definition evaluateNoObjects :: "(compiledStatementRule \<Rightarrow> Effect \<Rightarrow> bool) \<Rightarrow> Effect \<Rightarrow> compiledStatementRule list \<Rightarrow> effectDecision" where
  "evaluateNoObjects applies e applicable =
     (case List.find (\<lambda>r. csr_verb r = VerbDeny \<and> ruleMatchesEffectMeta r e \<and> applies r e) applicable of
        Some r \<Rightarrow> effect_verdict verbDeny (Some r)
      | None \<Rightarrow>
          (let coverage = filter (\<lambda>r. csr_verb r \<noteq> VerbDeny \<and> ruleMatchesEffectMeta r e \<and> applies r e) applicable in
           if coverage = [] then effect_verdict verbImplicitDeny None else foldCoverageRules coverage))"

definition evaluateEffectResolvedOnly :: "Effect \<Rightarrow> compiledStatementRule list \<Rightarrow> effectDecision" where
  "evaluateEffectResolvedOnly e applicable = evaluateNoObjects matchesResolvedOnly e applicable"

definition evaluateEffectObjectless :: "Effect \<Rightarrow> compiledStatementRule list \<Rightarrow> effectDecision" where
  "evaluateEffectObjectless e applicable = evaluateNoObjects (\<lambda>r e. coversAllObjects r) e applicable"

definition evaluateEffect :: "Effect \<Rightarrow> compiledStatementRule list \<Rightarrow> effectDecision" where
  "evaluateEffect e applicable =
     (if e_Objects e = [] then
        (if isResolvedOnlyFunctionEffect e then evaluateEffectResolvedOnly e applicable
         else if isObjectlessEffect e then evaluateEffectObjectless e applicable
         else effect_verdict verbImplicitDeny None)
      else (case denyPass applicable e of
          Some d \<Rightarrow> d
        | None \<Rightarrow>
            (case List.find (\<lambda>i. slotCoverage applicable e i = []) [0..<length (e_Objects e)] of
               Some i \<Rightarrow> (effect_verdict verbImplicitDeny None)\<lparr>ed_uncoveredObject := e_Objects e ! i\<rparr>
             | None \<Rightarrow> foldObjectCoverageRules applicable (slotCoverage applicable e) (length (e_Objects e)))))"

section \<open>The decision on a statement\<close>

text \<open>\<^verbatim>\<open>strconv.Quote\<close> on ASCII; a byte from 128 on is left as it is.\<close>

definition hexDigit :: "nat \<Rightarrow> char" where
  "hexDigit n = (if n < 10 then char_of (48 + n) else char_of (87 + n))"

definition quoteByte :: "char \<Rightarrow> string" where
  "quoteByte c =
     (let n = byte c in
      if n = 34 then [CHR 0x5C, CHR 0x22]
      else if n = 92 then [CHR 0x5C, CHR 0x5C]
      else if 7 \<le> n \<and> n \<le> 13 then [CHR 0x5C, ''abtnvfr'' ! (n - 7)]
      else if n < 32 \<or> n = 127 then [CHR 0x5C, CHR 0x78, hexDigit (n div 16), hexDigit (n mod 16)]
      else [c])"

definition Quote :: "string \<Rightarrow> string" where
  "Quote s = [CHR 0x22] @ concat (map quoteByte s) @ [CHR 0x22]"

definition implicitDeny :: "ClassifiedStatement \<Rightarrow> nat \<Rightarrow> string \<Rightarrow> DbDecision" where
  "implicitDeny stmt idx reason =
     \<lparr>dd_Verb = VerbDeny, dd_RuleKind = RuleKindStatement, dd_RuleName = [], dd_MatchingEffectIndex = int idx,
      dd_MatchingEffectGroup = (if idx < length (cst_Effects stmt) then e_Group (cst_Effects stmt ! idx) else GroupNone),
      dd_Reason = reason, dd_ContributingAuditRules = [], dd_Approval = None, dd_Redirect = None\<rparr>"

definition messageContextFor :: "Effect \<Rightarrow> ClassifiedStatement \<Rightarrow> messageContext" where
  "messageContextFor e stmt =
     \<lparr>mc_Operation = Group_String (e_Group e),
      mc_Subtype = (if e_Subtype e \<noteq> SubtypeNone then Subtype_String (e_Subtype e) else []),
      mc_Schema = (case e_Objects e of [] \<Rightarrow> [] | ob # _ \<Rightarrow> o_Schema ob),
      mc_Object = (case e_Objects e of [] \<Rightarrow> [] | ob # _ \<Rightarrow> objectMatchField ob),
      mc_Verb = cst_RawVerb stmt\<rparr>"

definition bestIndex :: "effectDecision list \<Rightarrow> nat" where
  "bestIndex perEffect =
     foldl (\<lambda>best i. if compareInternalVerb (ed_verb (perEffect ! i)) (ed_verb (perEffect ! best)) > 0 then i else best)
       0 [1..<length perEffect]"

definition shortestTimeout :: "compiledStatementRule list \<Rightarrow> Duration option" where
  "shortestTimeout rules =
     map_option (\<lambda>first. foldl (\<lambda>t r. if csr_timeout r < t then csr_timeout r else t) (csr_timeout first) rules) (index0 rules)"

text \<open>The result is \<open>None\<close> where the code would dereference a nil rule or index an empty slice.\<close>

definition ruleDecision :: "DecisionVerb \<Rightarrow> compiledStatementRule option \<Rightarrow> ClassifiedStatement \<Rightarrow> nat \<Rightarrow> Effect \<Rightarrow> DbDecision option" where
  "ruleDecision verb rule stmt idx e =
     map_option (\<lambda>r. \<lparr>dd_Verb = verb, dd_RuleKind = RuleKindStatement, dd_RuleName = stm_Name (csr_src r),
       dd_MatchingEffectIndex = int idx, dd_MatchingEffectGroup = e_Group e,
       dd_Reason = renderMessage r (messageContextFor e stmt), dd_ContributingAuditRules = [],
       dd_Approval = None, dd_Redirect = (if verb = VerbRedirect then csr_redirect r else None)\<rparr>) rule"

definition foldEffects :: "ClassifiedStatement \<Rightarrow> effectDecision list \<Rightarrow> DbDecision option" where
  "foldEffects stmt perEffect =
     (let idx = bestIndex perEffect; d = perEffect ! idx; e = cst_Effects stmt ! idx in
      case ed_verb d of
        verbAllow \<Rightarrow> ruleDecision VerbAllow (ed_rule d) stmt idx e
      | verbAudit \<Rightarrow> ruleDecision VerbAudit (ed_rule d) stmt idx e
      | verbRedirect \<Rightarrow> ruleDecision VerbRedirect (ed_rule d) stmt idx e
      | verbApprove \<Rightarrow>
          (case shortestTimeout (ed_contributingApprove d) of
             None \<Rightarrow> None
           | Some timeout \<Rightarrow>
               map_option (\<lambda>dec. dec\<lparr>dd_ContributingAuditRules := map (stm_Name \<circ> csr_src) (ed_contributingAudit d),
                   dd_Approval := Some \<lparr>ar_Timeout = timeout,
                     ar_ContributingApproveRules = map (stm_Name \<circ> csr_src) (ed_contributingApprove d)\<rparr>\<rparr>)
                 (ruleDecision VerbApprove (ed_rule d) stmt idx e))
      | verbImplicitDeny \<Rightarrow>
          Some (implicitDeny stmt idx
            (''no rule covers '' @ Quote (objectMatchField (ed_uncoveredObject d)) @ '' in '' @ Quote (Group_String (e_Group e)) @ '' effect''))
      | verbDeny \<Rightarrow> ruleDecision VerbDeny (ed_rule d) stmt idx e)"

definition statementRulesFor :: "RuleSet \<Rightarrow> ServiceID \<Rightarrow> compiledStatementRule list" where
  "statementRulesFor rs svc =
     filter (\<lambda>r. serviceFilter_matches (csr_serviceFilter r) svc (map_of (rset_services rs) svc)) (rset_statement rs)"

definition Evaluate :: "ClassifiedStatement \<Rightarrow> RuleSet option \<Rightarrow> ServiceID \<Rightarrow> DbDecision option" where
  "Evaluate stmt rs svc =
     (case rs of
        None \<Rightarrow> Some (implicitDeny stmt 0 ''policy not loaded'')
      | Some rs \<Rightarrow>
          (let applicable = statementRulesFor rs svc in
           if cst_Effects stmt = [] then Some (implicitDeny stmt 0 ''no effects on statement'')
           else foldEffects stmt (map (\<lambda>e. evaluateEffect e applicable) (cst_Effects stmt))))"

section \<open>The decision on a connection\<close>

definition connRuleMatchesInfo :: "compiledConnectionRule \<Rightarrow> ConnectionInfo \<Rightarrow> bool" where
  "connRuleMatchesInfo r info =
     (if ccr_dbUsers r \<noteq> [] \<and> ci_DBUser info \<notin> set (ccr_dbUsers r) then False
      else if ccr_database r \<noteq> [] \<and> ccr_database r \<noteq> ci_Database info then False
      else if (case ccr_applicationName r of None \<Rightarrow> False | Some g \<Rightarrow> \<not> g (ci_ApplicationName info)) then False
      else if (case ccr_clientIdentity r of None \<Rightarrow> False | Some g \<Rightarrow> \<not> g (ci_ClientIdentity info)) then False
      else True)"

fun connectionRuleKindFor :: "ConnectionMatchKind \<Rightarrow> RuleKind" where
  "connectionRuleKindFor MatchCancel = RuleKindCancel"
| "connectionRuleKindFor _ = RuleKindConnection"

fun connKindString :: "ConnectionMatchKind \<Rightarrow> string" where
  "connKindString MatchConnect = ''connect''"
| "connKindString MatchCancel = ''cancel''"
| "connKindString MatchReplication = ''replication''"

fun connRank :: "DecisionVerb \<Rightarrow> int" where
  "connRank VerbAllow = 0"
| "connRank VerbAudit = 1"
| "connRank VerbApprove = 2"
| "connRank VerbDeny = 3"
| "connRank VerbRedirect = -1"

definition compareConnVerb :: "DecisionVerb \<Rightarrow> DecisionVerb \<Rightarrow> int" where
  "compareConnVerb a b = connRank a - connRank b"

definition connDecision :: "DecisionVerb \<Rightarrow> ConnectionMatchKind \<Rightarrow> string \<Rightarrow> string \<Rightarrow> DbDecision" where
  "connDecision verb mk name reason =
     \<lparr>dd_Verb = verb, dd_RuleKind = connectionRuleKindFor mk, dd_RuleName = name, dd_MatchingEffectIndex = -1,
      dd_MatchingEffectGroup = GroupUnknown, dd_Reason = reason, dd_ContributingAuditRules = [], dd_Approval = None,
      dd_Redirect = None\<rparr>"

definition matchedConnRules :: "RuleSet \<Rightarrow> ConnectionInfo \<Rightarrow> compiledConnectionRule list" where
  "matchedConnRules rs info =
     filter (\<lambda>r. ccr_matchKind r = ci_MatchKind info
        \<and> (sf_service (ccr_serviceFilter r) = [] \<or> sf_service (ccr_serviceFilter r) = ci_Service info)
        \<and> connRuleMatchesInfo r info) (rset_connection rs)"

definition EvaluateConnection :: "ConnectionInfo \<Rightarrow> RuleSet option \<Rightarrow> DbDecision" where
  "EvaluateConnection info rs =
     (case rs of
        None \<Rightarrow> connDecision VerbDeny (ci_MatchKind info) [] ''policy not loaded''
      | Some rs \<Rightarrow>
          (case matchedConnRules rs info of
             [] \<Rightarrow> connDecision VerbDeny (ci_MatchKind info) [] ''no connection rule matched''
           | first # rest \<Rightarrow>
               (let best = foldl (\<lambda>best r. if compareConnVerb (ccr_verb r) (ccr_verb best) > 0 then r else best) first rest;
                    d = connDecision (ccr_verb best) (ci_MatchKind info) (cnr_Name (ccr_src best))
                          (conn_renderMessage best \<lparr>mc_Operation = connKindString (ci_MatchKind info), mc_Subtype = [],
                             mc_Schema = [], mc_Object = [], mc_Verb = []\<rparr>)
                in if ccr_verb best = VerbApprove
                   then d\<lparr>dd_Approval := Some \<lparr>ar_Timeout = ccr_timeout best,
                          ar_ContributingApproveRules = [cnr_Name (ccr_src best)]\<rparr>\<rparr>
                   else d)))"

section \<open>The effect_verdict as a function of the set of rules\<close>

definition applies :: "compiledStatementRule \<Rightarrow> Effect \<Rightarrow> bool" where
  "applies r e \<longleftrightarrow>
     (if e_Objects e \<noteq> [] then \<exists>i < length (e_Objects e). matchesSlot r e i
      else if isResolvedOnlyFunctionEffect e then matchesResolvedOnly r e
      else isObjectlessEffect e \<and> coversAllObjects r)"

definition covering :: "compiledStatementRule set \<Rightarrow> Effect \<Rightarrow> compiledStatementRule set" where
  "covering R e = {r \<in> R. csr_verb r \<noteq> VerbDeny \<and> ruleMatchesEffectMeta r e \<and> applies r e}"

definition denied :: "compiledStatementRule set \<Rightarrow> Effect \<Rightarrow> bool" where
  "denied R e \<longleftrightarrow> (\<exists>r \<in> R. csr_verb r = VerbDeny \<and> ruleMatchesEffectMeta r e \<and> applies r e)"

definition covered :: "compiledStatementRule set \<Rightarrow> Effect \<Rightarrow> bool" where
  "covered R e \<longleftrightarrow>
     (if e_Objects e \<noteq> [] then \<forall>i < length (e_Objects e). \<exists>r \<in> covering R e. matchesSlot r e i
      else covering R e \<noteq> {})"

fun verbOf :: "DecisionVerb \<Rightarrow> internalVerb" where
  "verbOf VerbAllow = verbAllow"
| "verbOf VerbAudit = verbAudit"
| "verbOf VerbRedirect = verbRedirect"
| "verbOf VerbApprove = verbApprove"
| "verbOf VerbDeny = verbDeny"

definition redirectSources :: "compiledStatementRule set \<Rightarrow> string set" where
  "redirectSources R = {rd_SourceRelation d | r d. r \<in> R \<and> csr_verb r = VerbRedirect \<and> csr_redirect r = Some d}"

definition strictest :: "compiledStatementRule set \<Rightarrow> internalVerb" where
  "strictest R = Max ((\<lambda>r. verbOf (csr_verb r)) ` R)"

definition spec_verb :: "compiledStatementRule set \<Rightarrow> Effect \<Rightarrow> internalVerb" where
  "spec_verb R e =
     (if denied R e then verbDeny
      else if \<not> covered R e then verbImplicitDeny
      else if strictest (covering R e) = verbRedirect \<and> e_Objects e \<noteq> [] \<and> card (redirectSources (covering R e)) \<noteq> 1
        then verbImplicitDeny
      else strictest (covering R e))"

lemma verb_order [simp]:
  "verbAllow \<le> v" "v \<le> verbDeny"
  "verbAllow < verbAudit" "verbAudit < verbRedirect" "verbRedirect < verbApprove" "verbApprove < verbImplicitDeny"
  "verbImplicitDeny < verbDeny"
  by (cases v; simp add: less_eq_internalVerb_def less_internalVerb_def)+

text \<open>The loop keeps the greatest verb and, for each kind, a witness rule.\<close>

definition cv_wf :: "compiledStatementRule list \<Rightarrow> coverage_state \<Rightarrow> bool" where
  "cv_wf done s \<longleftrightarrow>
     cv_best s = Max (insert verbAllow ((\<lambda>r. verbOf (csr_verb r)) ` {r \<in> set done. csr_verb r \<noteq> VerbDeny}))
   \<and> set (cv_approveSeen s) = (stm_Name \<circ> csr_src) ` set (cv_approveRules s)
   \<and> set (cv_auditSeen s) = (stm_Name \<circ> csr_src) ` set (cv_auditRules s)
   \<and> set (cv_approveRules s) \<subseteq> {r \<in> set done. csr_verb r = VerbApprove}
   \<and> set (cv_auditRules s) \<subseteq> {r \<in> set done. csr_verb r = VerbAudit}
   \<and> (\<forall>r \<in> set done. csr_verb r = VerbApprove \<longrightarrow> cv_approveRules s \<noteq> [])
   \<and> (\<forall>r \<in> set done. csr_verb r = VerbAudit \<longrightarrow> cv_auditRules s \<noteq> [])
   \<and> cv_redirectRule s = List.find (\<lambda>r. csr_verb r = VerbRedirect) done"

lemma cv_wf_init: "cv_wf [] coverage_init"
  by (simp add: cv_wf_def coverage_init_def)

lemma find_append: "List.find P (xs @ ys) = (case List.find P xs of Some x \<Rightarrow> Some x | None \<Rightarrow> List.find P ys)"
  by (induction xs) simp_all

lemma coverageStep_best:
  "cv_best (coverageStep s r) = (if csr_verb r = VerbDeny then cv_best s else max (cv_best s) (verbOf (csr_verb r)))"
  by (cases "csr_verb r"; cases "cv_best s")
    (simp_all add: coverageStep_def max_def Let_def less_eq_internalVerb_def less_internalVerb_def)

lemma best_insert:
  "Max (insert verbAllow ((\<lambda>r. verbOf (csr_verb r)) ` {r \<in> set (done @ [x]). csr_verb r \<noteq> VerbDeny})) =
   (let m = Max (insert verbAllow ((\<lambda>r. verbOf (csr_verb r)) ` {r \<in> set done. csr_verb r \<noteq> VerbDeny})) in
    if csr_verb x = VerbDeny then m else max m (verbOf (csr_verb x)))"
proof (cases "csr_verb x = VerbDeny")
  case True
  then have "{r \<in> set (done @ [x]). csr_verb r \<noteq> VerbDeny} = {r \<in> set done. csr_verb r \<noteq> VerbDeny}" by auto
  then show ?thesis unfolding True by (simp only: Let_def True simp_thms if_True)
next
  case False
  then have eq: "{r \<in> set (done @ [x]). csr_verb r \<noteq> VerbDeny} = insert x {r \<in> set done. csr_verb r \<noteq> VerbDeny}" by auto
  have "insert verbAllow ((\<lambda>r. verbOf (csr_verb r)) ` insert x {r \<in> set done. csr_verb r \<noteq> VerbDeny}) =
        insert (verbOf (csr_verb x)) (insert verbAllow ((\<lambda>r. verbOf (csr_verb r)) ` {r \<in> set done. csr_verb r \<noteq> VerbDeny}))"
    by auto
  with False show ?thesis unfolding eq by (simp add: max.commute)
qed

lemma cv_wf_step:
  assumes "cv_wf done s"
  shows "cv_wf (done @ [x]) (coverageStep s x)"
proof -
  have best: "cv_best (coverageStep s x) =
     Max (insert verbAllow ((\<lambda>r. verbOf (csr_verb r)) ` {r \<in> set (done @ [x]). csr_verb r \<noteq> VerbDeny}))"
    using assms unfolding best_insert coverageStep_best by (simp add: cv_wf_def Let_def)
  show ?thesis
    unfolding cv_wf_def best
    using assms
    by (cases "csr_verb x") (auto simp: cv_wf_def coverageStep_def find_append Let_def split: option.splits)
qed

lemma cv_wf_foldl: "cv_wf done s \<Longrightarrow> cv_wf (done @ rs) (foldl coverageStep s rs)"
proof (induction rs arbitrary: "done" s)
  case (Cons x rs)
  from Cons.IH [OF cv_wf_step [OF Cons.prems]] show ?case by simp
qed simp

lemmas cv_wf_result = cv_wf_foldl [OF cv_wf_init, simplified]

lemma strictest_eq_best:
  assumes "rules \<noteq> []" "\<forall>r \<in> set rules. csr_verb r \<noteq> VerbDeny"
  shows "Max (insert verbAllow ((\<lambda>r. verbOf (csr_verb r)) ` {r \<in> set rules. csr_verb r \<noteq> VerbDeny})) = strictest (set rules)"
proof -
  have "{r \<in> set rules. csr_verb r \<noteq> VerbDeny} = set rules" using assms(2) by auto
  moreover have "Max (insert verbAllow ((\<lambda>r. verbOf (csr_verb r)) ` set rules)) = max verbAllow (strictest (set rules))"
    unfolding strictest_def using assms(1) by (intro Max_insert) auto
  ultimately show ?thesis by (simp add: max_absorb2)
qed

lemma strictest_in: "finite R \<Longrightarrow> R \<noteq> {} \<Longrightarrow> \<exists>r \<in> R. verbOf (csr_verb r) = strictest R"
proof -
  assume "finite R" "R \<noteq> {}"
  then have "strictest R \<in> (\<lambda>r. verbOf (csr_verb r)) ` R" unfolding strictest_def by (intro Max_in) auto
  then show ?thesis by auto
qed

lemma strictest_ge: "finite R \<Longrightarrow> r \<in> R \<Longrightarrow> verbOf (csr_verb r) \<le> strictest R"
  unfolding strictest_def by simp

lemma foldCoverageRules_verb:
  assumes "rules \<noteq> []" "\<forall>r \<in> set rules. csr_verb r \<noteq> VerbDeny"
  shows "ed_verb (foldCoverageRules rules) = strictest (set rules)"
  using cv_wf_result [of rules] strictest_eq_best [OF assms]
  by (simp add: foldCoverageRules_def effect_verdict_def Let_def cv_wf_def)

lemma verbOf_eq [simp]:
  "verbOf v = verbAllow \<longleftrightarrow> v = VerbAllow" "verbOf v = verbAudit \<longleftrightarrow> v = VerbAudit"
  "verbOf v = verbRedirect \<longleftrightarrow> v = VerbRedirect" "verbOf v = verbApprove \<longleftrightarrow> v = VerbApprove"
  "verbOf v = verbDeny \<longleftrightarrow> v = VerbDeny" "verbOf v \<noteq> verbImplicitDeny"
  by (cases v; simp)+

lemma index0_Some [simp]: "xs \<noteq> [] \<Longrightarrow> index0 xs = Some (hd xs)"
  by (cases xs) (simp_all add: index0_def)

text \<open>The primary rule is a covering rule of the verdict's own verb.\<close>

lemma foldCoverageRules_rule:
  assumes "rules \<noteq> []" "\<forall>r \<in> set rules. csr_verb r \<noteq> VerbDeny"
  defines "d \<equiv> foldCoverageRules rules"
  shows "\<exists>r \<in> set rules. ed_rule d = Some r \<and> verbOf (csr_verb r) = ed_verb d
     \<and> (ed_verb d = verbApprove \<longrightarrow> ed_contributingApprove d \<noteq> [])"
proof -
  define s where "s = foldl coverageStep coverage_init rules"
  have wf: "cv_wf rules s" unfolding s_def by (rule cv_wf_result)
  have best: "cv_best s = strictest (set rules)"
    using wf strictest_eq_best [OF assms(1,2)] by (simp add: cv_wf_def)
  obtain w where w: "w \<in> set rules" "verbOf (csr_verb w) = cv_best s"
    using strictest_in [of "set rules"] assms(1) best by auto
  have d: "d = (effect_verdict (cv_best s) (case cv_best s of verbApprove \<Rightarrow> index0 (cv_approveRules s)
      | verbRedirect \<Rightarrow> cv_redirectRule s | verbAudit \<Rightarrow> index0 (cv_auditRules s) | _ \<Rightarrow> index0 rules))
        \<lparr>ed_contributingApprove := cv_approveRules s, ed_contributingAudit := cv_auditRules s\<rparr>"
    unfolding d_def foldCoverageRules_def s_def Let_def ..
  show ?thesis
  proof (cases "cv_best s")
    case verbAllow
    have "verbOf (csr_verb r) = verbAllow" if "r \<in> set rules" for r
    proof -
      have "verbOf (csr_verb r) \<le> verbAllow" using strictest_ge [of "set rules" r] that best verbAllow by simp
      then show ?thesis by (cases "csr_verb r") (simp_all add: less_eq_internalVerb_def)
    qed
    with verbAllow assms(1) show ?thesis by (auto simp: d effect_verdict_def)
  next
    case verbAudit
    with w wf have ne: "cv_auditRules s \<noteq> []" by (auto simp: cv_wf_def)
    have "set (cv_auditRules s) \<subseteq> {r \<in> set rules. csr_verb r = VerbAudit}" using wf by (simp add: cv_wf_def)
    with hd_in_set [OF ne] have "hd (cv_auditRules s) \<in> set rules \<and> csr_verb (hd (cv_auditRules s)) = VerbAudit" by blast
    with verbAudit ne show ?thesis by (auto simp: d effect_verdict_def)
  next
    case verbApprove
    with w wf have ne: "cv_approveRules s \<noteq> []" by (auto simp: cv_wf_def)
    have "set (cv_approveRules s) \<subseteq> {r \<in> set rules. csr_verb r = VerbApprove}" using wf by (simp add: cv_wf_def)
    with hd_in_set [OF ne] have "hd (cv_approveRules s) \<in> set rules \<and> csr_verb (hd (cv_approveRules s)) = VerbApprove" by blast
    with verbApprove ne show ?thesis by (auto simp: d effect_verdict_def)
  next
    case verbRedirect
    have f: "cv_redirectRule s = List.find (\<lambda>r. csr_verb r = VerbRedirect) rules" using wf by (simp add: cv_wf_def)
    from w verbRedirect have "List.find (\<lambda>r. csr_verb r = VerbRedirect) rules \<noteq> None" by (auto simp: find_None_iff)
    then obtain r where r: "List.find (\<lambda>r. csr_verb r = VerbRedirect) rules = Some r" by blast
    then have "r \<in> set rules \<and> csr_verb r = VerbRedirect" by (auto simp: find_Some_iff)
    with verbRedirect r f show ?thesis by (auto simp: d effect_verdict_def)
  qed (use w assms(2) in auto)
qed

subsection \<open>Coverage\<close>

lemma set_slotCoverage:
  "set (slotCoverage rs e i) =
     {(p, rs ! p) | p. p < length rs \<and> csr_verb (rs ! p) \<noteq> VerbDeny \<and> ruleMatchesEffectMeta (rs ! p) e \<and> matchesSlot (rs ! p) e i}"
  by (auto simp: slotCoverage_def in_set_enumerate_eq)

lemma matchesSlot_applies: "matchesSlot r e i \<Longrightarrow> i < length (e_Objects e) \<and> applies r e"
  by (auto simp: matchesSlot_def ruleMatchesObjectSlot_def applies_def split: if_splits)

lemma set_coverageRules:
  assumes "e_Objects e \<noteq> []"
  shows "set (coverageRulesInPolicyOrder rs (slotCoverage rs e) (length (e_Objects e))) = covering (set rs) e"
proof -
  have "set (coverageRulesInPolicyOrder rs (slotCoverage rs e) (length (e_Objects e))) =
      {rs ! p | p. p < length rs \<and> (\<exists>i < length (e_Objects e). p \<in> fst ` set (slotCoverage rs e i))}"
    by (force simp: coverageRulesInPolicyOrder_def Let_def in_set_enumerate_eq)
  also have "\<dots> = {rs ! p | p. p < length rs \<and> csr_verb (rs ! p) \<noteq> VerbDeny \<and> ruleMatchesEffectMeta (rs ! p) e
      \<and> (\<exists>i < length (e_Objects e). matchesSlot (rs ! p) e i)}"
    unfolding set_slotCoverage by force
  also have "\<dots> = covering (set rs) e"
    using assms by (auto simp: covering_def applies_def in_set_conv_nth)
  finally show ?thesis .
qed

lemma slotCoverage_empty:
  "slotCoverage rs e i = [] \<longleftrightarrow> (\<forall>r \<in> covering (set rs) e. \<not> matchesSlot r e i)"
proof -
  have "slotCoverage rs e i = [] \<longleftrightarrow>
      (\<forall>r \<in> set rs. \<not> (csr_verb r \<noteq> VerbDeny \<and> ruleMatchesEffectMeta r e \<and> matchesSlot r e i))"
    unfolding set_empty [symmetric] set_slotCoverage by (auto simp: all_set_conv_all_nth)
  then show ?thesis using matchesSlot_applies by (auto simp: covering_def)
qed

lemma covered_iff:
  assumes "e_Objects e \<noteq> []"
  shows "covered (set rs) e \<longleftrightarrow> List.find (\<lambda>i. slotCoverage rs e i = []) [0..<length (e_Objects e)] = None"
  using assms by (auto simp: covered_def find_None_iff slotCoverage_empty)

lemma map_filter_redirect:
  "set (List.map_filter (\<lambda>(p, r). if csr_verb r \<noteq> VerbRedirect then None else map_option rd_SourceRelation (csr_redirect r)) xs) =
   redirectSources (snd ` set xs)"
proof -
  have "x \<in> set (List.map_filter (\<lambda>(p, r). if csr_verb r \<noteq> VerbRedirect then None else map_option rd_SourceRelation (csr_redirect r)) xs)
     \<longleftrightarrow> (\<exists>y \<in> set xs. (\<lambda>(p, r). if csr_verb r \<noteq> VerbRedirect then None else map_option rd_SourceRelation (csr_redirect r)) y = Some x)" for x
    by (induction xs) (auto simp: List.map_filter_simps split: option.splits)
  then show ?thesis by (force simp: redirectSources_def split: if_splits)
qed

lemma redirectSourceCount_card:
  assumes "e_Objects e \<noteq> []"
  shows "redirectSourceCount (slotCoverage rs e) (length (e_Objects e)) = card (redirectSources (covering (set rs) e))"
proof -
  have "(\<Union>i < length (e_Objects e). redirectSources (snd ` set (slotCoverage rs e i)))
      = redirectSources (\<Union>i < length (e_Objects e). snd ` set (slotCoverage rs e i))"
    by (force simp: redirectSources_def)
  also have "(\<Union>i < length (e_Objects e). snd ` set (slotCoverage rs e i)) = covering (set rs) e"
    using assms by (auto simp: set_slotCoverage covering_def applies_def in_set_conv_nth image_iff) blast+
  finally show ?thesis
    by (simp add: redirectSourceCount_def length_remdups_card_conv map_filter_redirect atLeast0LessThan)
qed

subsection \<open>The three passes compute the specification\<close>

definition denyRule :: "compiledStatementRule \<Rightarrow> Effect \<Rightarrow> bool" where
  "denyRule r e \<longleftrightarrow> csr_verb r = VerbDeny \<and> ruleMatchesEffectMeta r e \<and> firstSlot r e \<noteq> None"

definition denyVerdict :: "compiledStatementRule \<Rightarrow> Effect \<Rightarrow> effectDecision" where
  "denyVerdict r e = (effect_verdict verbDeny (Some r))\<lparr>ed_denyMatchingObject := e_Objects e ! the (firstSlot r e)\<rparr>"

interpretation dbdeny: first_match denyRule "\<lambda>r e. Some (denyVerdict r e)" "\<lambda>e. None" denyPass
  by unfold_locales (auto simp: denyRule_def denyVerdict_def split: option.splits)

lemma firstSlot_applies: "e_Objects e \<noteq> [] \<Longrightarrow> firstSlot r e \<noteq> None \<longleftrightarrow> applies r e"
  by (auto simp: firstSlot_def find_None_iff applies_def)

lemma denied_iff: "e_Objects e \<noteq> [] \<Longrightarrow> denied (set rs) e \<longleftrightarrow> (\<exists>r \<in> set rs. denyRule r e)"
  by (auto simp: denied_def denyRule_def simp flip: firstSlot_applies)

lemma denyPass_cases:
  assumes "e_Objects e \<noteq> []"
  obtains r where "denied (set rs) e" "r \<in> set rs" "csr_verb r = VerbDeny" "ruleMatchesEffectMeta r e" "applies r e"
    "denyPass rs e = Some (denyVerdict r e)"
  | "\<not> denied (set rs) e" "denyPass rs e = None"
proof (cases "\<exists>r \<in> set rs. denyRule r e")
  case True
  with dbdeny.outcome [of rs e] obtain pre r post
    where r: "rs = pre @ r # post" "denyRule r e" "denyPass rs e = Some (denyVerdict r e)"
    by auto
  show ?thesis
  proof (rule that(1))
    show "denied (set rs) e" using True by (simp add: denied_iff [OF assms])
    show "r \<in> set rs" by (simp add: r(1))
    show "csr_verb r = VerbDeny" "ruleMatchesEffectMeta r e" "applies r e"
      using r(2) firstSlot_applies [OF assms] by (auto simp: denyRule_def)
  qed (rule r(3))
next
  case False
  with that(2) dbdeny.none [of rs e] show ?thesis by (simp add: denied_iff [OF assms])
qed

definition ed_wf :: "compiledStatementRule set \<Rightarrow> Effect \<Rightarrow> effectDecision \<Rightarrow> bool" where
  "ed_wf R e d \<longleftrightarrow> ed_verb d = verbImplicitDeny
     \<or> (\<exists>r \<in> R. ruleMatchesEffectMeta r e \<and> applies r e \<and> ed_rule d = Some r \<and> verbOf (csr_verb r) = ed_verb d
          \<and> (ed_verb d = verbApprove \<longrightarrow> ed_contributingApprove d \<noteq> []))"

lemma finite_covering [simp]: "finite (covering (set rs) e)"
  by (simp add: covering_def)

lemma covering_nondeny: "r \<in> covering R e \<Longrightarrow> csr_verb r \<noteq> VerbDeny"
  by (simp add: covering_def)

lemma covered_ne: "covered R e \<Longrightarrow> covering R e \<noteq> {}"
  by (auto simp: covered_def split: if_splits)

lemma foldObjectCoverage_spec:
  assumes ob: "e_Objects e \<noteq> []" and "\<not> denied (set rs) e" and cov: "covered (set rs) e"
  defines "d \<equiv> foldObjectCoverageRules rs (slotCoverage rs e) (length (e_Objects e))"
  shows "ed_verb d = spec_verb (set rs) e \<and> ed_wf (covering (set rs) e) e d"
proof -
  let ?rules = "coverageRulesInPolicyOrder rs (slotCoverage rs e) (length (e_Objects e))"
  have set: "set ?rules = covering (set rs) e" by (rule set_coverageRules [OF ob])
  have ne: "?rules \<noteq> []" using set covered_ne [OF cov] by (metis set_empty)
  have nd: "\<forall>r \<in> set ?rules. csr_verb r \<noteq> VerbDeny" unfolding set using covering_nondeny by blast
  have verb: "ed_verb (foldCoverageRules ?rules) = strictest (covering (set rs) e)"
    using foldCoverageRules_verb [OF ne nd] by (simp add: set)
  have wf: "ed_wf (covering (set rs) e) e (foldCoverageRules ?rules)"
    using foldCoverageRules_rule [OF ne nd] by (auto simp: ed_wf_def set covering_def)
  show ?thesis
    using assms(2) cov ob verb wf redirectSourceCount_card [OF ob, of rs]
    by (auto simp: d_def foldObjectCoverageRules_def Let_def spec_verb_def ed_wf_def effect_verdict_def)
qed

lemma evaluateNoObjects_spec:
  fixes rs :: "compiledStatementRule list"
  assumes "e_Objects e = []" and ap: "\<And>r. applies r e = P r e"
  defines "d \<equiv> evaluateNoObjects P e rs"
  shows "ed_verb d = spec_verb (set rs) e \<and> ed_wf (set rs) e d"
proof (cases "denied (set rs) e")
  case True
  then have "List.find (\<lambda>r. csr_verb r = VerbDeny \<and> ruleMatchesEffectMeta r e \<and> P r e) rs \<noteq> None"
    by (auto simp: denied_def find_None_iff ap)
  then obtain r where r: "List.find (\<lambda>r. csr_verb r = VerbDeny \<and> ruleMatchesEffectMeta r e \<and> P r e) rs = Some r" by blast
  then have "r \<in> set rs \<and> csr_verb r = VerbDeny \<and> ruleMatchesEffectMeta r e \<and> applies r e"
    by (auto simp: find_Some_iff ap)
  with r True show ?thesis by (auto simp: d_def evaluateNoObjects_def spec_verb_def ed_wf_def effect_verdict_def)
next
  case False
  then have n: "List.find (\<lambda>r. csr_verb r = VerbDeny \<and> ruleMatchesEffectMeta r e \<and> P r e) rs = None"
    by (auto simp: denied_def find_None_iff ap)
  let ?cov = "filter (\<lambda>r. csr_verb r \<noteq> VerbDeny \<and> ruleMatchesEffectMeta r e \<and> P r e) rs"
  have set: "set ?cov = covering (set rs) e" by (auto simp: covering_def ap)
  show ?thesis
  proof (cases "?cov = []")
    case True
    then have "covering (set rs) e = {}" using set by simp
    with n True False assms(1) show ?thesis
      by (simp add: d_def evaluateNoObjects_def spec_verb_def covered_def ed_wf_def effect_verdict_def)
  next
    case ne: False
    have nd: "\<forall>r \<in> set ?cov. csr_verb r \<noteq> VerbDeny" by simp
    have "d = foldCoverageRules ?cov" using n ne unfolding d_def evaluateNoObjects_def by (simp only: option.case Let_def if_False)
    moreover have "covering (set rs) e \<noteq> {}" using ne set by (metis set_empty)
    moreover have "ed_wf (set rs) e (foldCoverageRules ?cov)"
      using foldCoverageRules_rule [OF ne nd] unfolding ed_wf_def by (auto simp: ap)
    ultimately show ?thesis
      using foldCoverageRules_verb [OF ne nd, unfolded set] assms(1) False
      by (simp add: spec_verb_def covered_def)
  qed
qed

lemma evaluateEffect_spec:
  "ed_verb (evaluateEffect e rs) = spec_verb (set rs) e \<and> ed_wf (set rs) e (evaluateEffect e rs)"
proof (cases "e_Objects e = []")
  case True
  show ?thesis
  proof (cases "isResolvedOnlyFunctionEffect e")
    case r: True
    have "applies r e = matchesResolvedOnly r e" for r using True r by (simp add: applies_def)
    from evaluateNoObjects_spec [OF True, where P = matchesResolvedOnly, OF this, of rs] True r show ?thesis
      by (simp add: evaluateEffect_def evaluateEffectResolvedOnly_def)
  next
    case nr: False
    show ?thesis
    proof (cases "isObjectlessEffect e")
      case o: True
      have "applies r e = coversAllObjects r" for r using True nr o by (simp add: applies_def)
      from evaluateNoObjects_spec [OF True, where P = "\<lambda>r e. coversAllObjects r", OF this, of rs] True nr o show ?thesis
        by (simp add: evaluateEffect_def evaluateEffectObjectless_def)
    next
      case False
      then show ?thesis using True nr
        by (simp add: evaluateEffect_def effect_verdict_def spec_verb_def denied_def covered_def covering_def applies_def ed_wf_def)
    qed
  qed
next
  case ob: False
  show ?thesis
  proof (cases rule: denyPass_cases [OF ob, of rs])
    case (1 r)
    then show ?thesis using ob
      by (auto simp: evaluateEffect_def spec_verb_def ed_wf_def denyVerdict_def effect_verdict_def)
  next
    case 2
    show ?thesis
    proof (cases "covered (set rs) e")
      case True
      from foldObjectCoverage_spec [OF ob 2(1) True] ob 2 True show ?thesis
        by (auto simp: evaluateEffect_def covered_iff ed_wf_def covering_def)
    next
      case False
      then obtain i where "List.find (\<lambda>i. slotCoverage rs e i = []) [0..<length (e_Objects e)] = Some i"
        using covered_iff [OF ob] by blast
      with ob 2 False show ?thesis by (simp add: evaluateEffect_def spec_verb_def ed_wf_def effect_verdict_def)
    qed
  qed
qed

section \<open>The decision is the strictest effect_verdict\<close>

fun publicVerb :: "internalVerb \<Rightarrow> DecisionVerb" where
  "publicVerb verbAllow = VerbAllow"
| "publicVerb verbAudit = VerbAudit"
| "publicVerb verbRedirect = VerbRedirect"
| "publicVerb verbApprove = VerbApprove"
| "publicVerb verbImplicitDeny = VerbDeny"
| "publicVerb verbDeny = VerbDeny"

lemma foldl_argmax:
  fixes f :: "nat \<Rightarrow> 'a :: linorder"
  defines "pick \<equiv> \<lambda>best i. if f i > f best then i else best"
  shows "1 \<le> n \<Longrightarrow> foldl pick 0 [1..<n] < n \<and> (\<forall>i < n. f i \<le> f (foldl pick 0 [1..<n]))
      \<and> (\<forall>i < foldl pick 0 [1..<n]. f i < f (foldl pick 0 [1..<n]))"
proof (induction n)
  case (Suc n)
  show ?case
  proof (cases "n = 0")
    case False
    let ?b = "foldl pick 0 [1..<n]"
    have b: "?b < n" "\<forall>i < n. f i \<le> f ?b" "\<forall>i < ?b. f i < f ?b" using Suc.IH False by auto
    have "foldl pick 0 [1..<Suc n] = pick ?b n" using False by simp
    moreover have "pick ?b n = (if f n > f ?b then n else ?b)" by (simp add: pick_def)
    ultimately show ?thesis
      using b by (auto simp: less_Suc_eq intro: order.strict_trans1)
  qed simp
qed simp

lemma compareInternalVerb_pos: "compareInternalVerb a b > 0 \<longleftrightarrow> a > b"
  by (simp add: compareInternalVerb_def)

lemma bestIndex_max:
  assumes "ds \<noteq> []"
  shows "bestIndex ds < length ds \<and> ed_verb (ds ! bestIndex ds) = Max (ed_verb ` set ds)
    \<and> (\<forall>i < bestIndex ds. ed_verb (ds ! i) < ed_verb (ds ! bestIndex ds))"
proof -
  have b: "bestIndex ds = foldl (\<lambda>best i. if ed_verb (ds ! i) > ed_verb (ds ! best) then i else best) 0 [1..<length ds]"
    by (simp add: bestIndex_def compareInternalVerb_pos)
  have "1 \<le> length ds" using assms by (cases ds) auto
  from foldl_argmax [OF this, of "\<lambda>i. ed_verb (ds ! i)", folded b]
  have *: "bestIndex ds < length ds" "\<forall>i < length ds. ed_verb (ds ! i) \<le> ed_verb (ds ! bestIndex ds)"
    "\<forall>i < bestIndex ds. ed_verb (ds ! i) < ed_verb (ds ! bestIndex ds)" by auto
  have "Max (ed_verb ` set ds) = ed_verb (ds ! bestIndex ds)"
  proof (rule Max_eqI)
    show "ed_verb (ds ! bestIndex ds) \<in> ed_verb ` set ds" using *(1) by simp
  qed (use *(2) in \<open>auto simp: in_set_conv_nth\<close>)
  with * show ?thesis by simp
qed

text \<open>The fold over the effects returns, with the verb of the strictest verdict and the name of its rule.\<close>

lemma foldEffects_spec:
  assumes "ds \<noteq> []" "list_all2 (ed_wf R) (cst_Effects stmt) ds"
  defines "idx \<equiv> bestIndex ds"
  shows "\<exists>d. foldEffects stmt ds = Some d \<and> dd_Verb d = publicVerb (ed_verb (ds ! idx))
    \<and> (ed_verb (ds ! idx) = verbImplicitDeny \<and> dd_RuleName d = [] \<and> dd_Redirect d = None
       \<or> (\<exists>r \<in> R. \<exists>e \<in> set (cst_Effects stmt). ruleMatchesEffectMeta r e \<and> applies r e
            \<and> verbOf (csr_verb r) = ed_verb (ds ! idx) \<and> dd_MatchingEffectGroup d = e_Group e
            \<and> dd_RuleName d = stm_Name (csr_src r)
            \<and> dd_Redirect d = (if csr_verb r = VerbRedirect then csr_redirect r else None)))"
proof -
  have idx: "idx < length ds" "length (cst_Effects stmt) = length ds"
    using bestIndex_max [OF assms(1)] list_all2_lengthD [OF assms(2)] by (simp_all add: idx_def)
  then have "ed_wf R (cst_Effects stmt ! idx) (ds ! idx)" using assms(2) by (simp add: list_all2_conv_all_nth)
  then consider (implicit) "ed_verb (ds ! idx) = verbImplicitDeny"
    | (rule) r where "r \<in> R" "ruleMatchesEffectMeta r (cst_Effects stmt ! idx)" "applies r (cst_Effects stmt ! idx)"
        "ed_rule (ds ! idx) = Some r" "verbOf (csr_verb r) = ed_verb (ds ! idx)"
        "ed_verb (ds ! idx) = verbApprove \<longrightarrow> ed_contributingApprove (ds ! idx) \<noteq> []"
    by (auto simp: ed_wf_def)
  then show ?thesis
  proof cases
    case implicit
    then show ?thesis unfolding foldEffects_def Let_def idx_def [symmetric] by (simp add: implicitDeny_def)
  next
    case rule
    have e: "cst_Effects stmt ! idx \<in> set (cst_Effects stmt)" using idx by simp
    obtain d where d: "foldEffects stmt ds = Some d" "dd_Verb d = publicVerb (ed_verb (ds ! idx))"
      "dd_MatchingEffectGroup d = e_Group (cst_Effects stmt ! idx)" "dd_RuleName d = stm_Name (csr_src r)"
      "dd_Redirect d = (if csr_verb r = VerbRedirect then csr_redirect r else None)"
      using rule(4-6) unfolding foldEffects_def Let_def idx_def [symmetric]
      by (cases "csr_verb r") (auto simp: ruleDecision_def shortestTimeout_def dest: sym)
    from d rule(1-3,5) e show ?thesis by blast
  qed
qed

lemma Evaluate_spec:
  fixes rs :: RuleSet and svc :: ServiceID
  assumes "cst_Effects stmt \<noteq> []"
  defines "R \<equiv> set (statementRulesFor rs svc)"
  shows "\<exists>d. Evaluate stmt (Some rs) svc = Some d
     \<and> dd_Verb d = publicVerb (Max (spec_verb R ` set (cst_Effects stmt)))
     \<and> (dd_Verb d = VerbDeny \<and> dd_RuleName d = [] \<and> dd_Redirect d = None
        \<or> (\<exists>r \<in> R. \<exists>e \<in> set (cst_Effects stmt). ruleMatchesEffectMeta r e \<and> applies r e
             \<and> csr_verb r = dd_Verb d \<and> dd_MatchingEffectGroup d = e_Group e \<and> dd_RuleName d = stm_Name (csr_src r)
             \<and> dd_Redirect d = (if csr_verb r = VerbRedirect then csr_redirect r else None)))"
proof -
  let ?rules = "statementRulesFor rs svc"
  define ds where "ds = map (\<lambda>e. evaluateEffect e ?rules) (cst_Effects stmt)"
  have ne: "ds \<noteq> []" using assms(1) by (simp add: ds_def)
  have wf: "list_all2 (ed_wf R) (cst_Effects stmt) ds"
    by (simp add: ds_def R_def list.rel_map list.rel_refl evaluateEffect_spec)
  have "ed_verb ` set ds = spec_verb R ` set (cst_Effects stmt)" by (auto simp: ds_def R_def evaluateEffect_spec image_iff)
  then have max: "ed_verb (ds ! bestIndex ds) = Max (spec_verb R ` set (cst_Effects stmt))"
    using bestIndex_max [OF ne] by simp
  have pub: "verbOf v = w \<Longrightarrow> publicVerb w = v" for v w by (cases v) auto
  from foldEffects_spec [OF ne wf] obtain d where d: "foldEffects stmt ds = Some d"
    "dd_Verb d = publicVerb (ed_verb (ds ! bestIndex ds))"
    and c: "ed_verb (ds ! bestIndex ds) = verbImplicitDeny \<and> dd_RuleName d = [] \<and> dd_Redirect d = None
     \<or> (\<exists>r \<in> R. \<exists>e \<in> set (cst_Effects stmt). ruleMatchesEffectMeta r e \<and> applies r e
            \<and> verbOf (csr_verb r) = ed_verb (ds ! bestIndex ds) \<and> dd_MatchingEffectGroup d = e_Group e
            \<and> dd_RuleName d = stm_Name (csr_src r)
            \<and> dd_Redirect d = (if csr_verb r = VerbRedirect then csr_redirect r else None))"
    by blast
  have ev: "Evaluate stmt (Some rs) svc = Some d" using d(1) assms(1) by (simp add: Evaluate_def Let_def ds_def)
  from c show ?thesis
  proof
    assume "ed_verb (ds ! bestIndex ds) = verbImplicitDeny \<and> dd_RuleName d = [] \<and> dd_Redirect d = None"
    with ev d(2) max show ?thesis by (intro exI [of _ d]) simp
  next
    assume "\<exists>r \<in> R. \<exists>e \<in> set (cst_Effects stmt). ruleMatchesEffectMeta r e \<and> applies r e
            \<and> verbOf (csr_verb r) = ed_verb (ds ! bestIndex ds) \<and> dd_MatchingEffectGroup d = e_Group e
            \<and> dd_RuleName d = stm_Name (csr_src r)
            \<and> dd_Redirect d = (if csr_verb r = VerbRedirect then csr_redirect r else None)"
    then obtain r e where r: "r \<in> R" "e \<in> set (cst_Effects stmt)" "ruleMatchesEffectMeta r e" "applies r e"
      "verbOf (csr_verb r) = ed_verb (ds ! bestIndex ds)" "dd_MatchingEffectGroup d = e_Group e"
      "dd_RuleName d = stm_Name (csr_src r)" "dd_Redirect d = (if csr_verb r = VerbRedirect then csr_redirect r else None)"
      by blast
    have "csr_verb r = dd_Verb d" using pub [OF r(5)] d(2) by simp
    with r(1-4,6-8) have "\<exists>r \<in> R. \<exists>e \<in> set (cst_Effects stmt). ruleMatchesEffectMeta r e \<and> applies r e
             \<and> csr_verb r = dd_Verb d \<and> dd_MatchingEffectGroup d = e_Group e \<and> dd_RuleName d = stm_Name (csr_src r)
             \<and> dd_Redirect d = (if csr_verb r = VerbRedirect then csr_redirect r else None)" by blast
    with ev d(2) max show ?thesis by (intro exI [of _ d] conjI disjI2) simp_all
  qed
qed

lemma Evaluate_total: "\<exists>d. Evaluate stmt rs svc = Some d"
proof (cases rs)
  case None
  then show ?thesis by (simp add: Evaluate_def)
next
  case (Some rs')
  then show ?thesis using Evaluate_spec [of stmt rs' svc] by (cases "cst_Effects stmt = []") (auto simp: Evaluate_def)
qed

lemma finite_statementRules [simp]: "finite (set (statementRulesFor rs svc))"
  by simp

lemma strictest_covering:
  assumes "finite R" "covered R e"
  shows "strictest (covering R e) < verbImplicitDeny"
proof -
  have "finite (covering R e)" using assms(1) by (simp add: covering_def)
  from strictest_in [OF this covered_ne [OF assms(2)]] obtain r where
    "r \<in> covering R e" "verbOf (csr_verb r) = strictest (covering R e)" by blast
  moreover then have "csr_verb r \<noteq> VerbDeny" by (simp add: covering_nondeny)
  ultimately show ?thesis by (cases "csr_verb r") (auto simp: less_internalVerb_def dest: sym)
qed

text \<open>A redirect needs one source relation: two redirect rules with different sources cover nothing.\<close>

definition one_source :: "compiledStatementRule set \<Rightarrow> Effect \<Rightarrow> bool" where
  "one_source R e \<longleftrightarrow>
     e_Objects e \<noteq> [] \<and> strictest (covering R e) = verbRedirect \<longrightarrow> card (redirectSources (covering R e)) = 1"

definition permitted :: "compiledStatementRule set \<Rightarrow> Effect \<Rightarrow> bool" where
  "permitted R e \<longleftrightarrow> \<not> denied R e \<and> covered R e \<and> one_source R e"

lemma spec_verb_permitted: "finite R \<Longrightarrow> spec_verb R e < verbImplicitDeny \<longleftrightarrow> permitted R e"
  using strictest_covering [of R e] by (auto simp: spec_verb_def permitted_def one_source_def less_internalVerb_def)

lemma spec_verb_allow:
  assumes "finite R"
  shows "spec_verb R e = verbAllow \<longleftrightarrow> permitted R e \<and> (\<forall>r \<in> covering R e. csr_verb r = VerbAllow)"
proof (cases "permitted R e")
  case True
  have fin: "finite (covering R e)" using assms by (simp add: covering_def)
  have ne: "covering R e \<noteq> {}" using True covered_ne by (auto simp: permitted_def)
  have v: "spec_verb R e = strictest (covering R e)"
    using True by (auto simp: spec_verb_def permitted_def one_source_def)
  have "strictest (covering R e) = verbAllow \<longleftrightarrow> (\<forall>r \<in> covering R e. csr_verb r = VerbAllow)"
  proof
    assume s: "strictest (covering R e) = verbAllow"
    show "\<forall>r \<in> covering R e. csr_verb r = VerbAllow"
    proof
      fix r assume "r \<in> covering R e"
      from strictest_ge [OF fin this] s have "verbOf (csr_verb r) \<le> verbAllow" by simp
      then show "csr_verb r = VerbAllow" by (cases "csr_verb r") (simp_all add: less_eq_internalVerb_def)
    qed
  next
    assume "\<forall>r \<in> covering R e. csr_verb r = VerbAllow"
    with strictest_in [OF fin ne] show "strictest (covering R e) = verbAllow" by (auto dest: sym)
  qed
  with True v show ?thesis by simp
next
  case False
  then have "\<not> spec_verb R e < verbImplicitDeny" using spec_verb_permitted [OF assms] by simp
  with False show ?thesis by (auto simp: less_internalVerb_def)
qed

lemma publicVerb_iffs:
  "publicVerb v \<noteq> VerbDeny \<longleftrightarrow> v < verbImplicitDeny"
  "publicVerb v = VerbAllow \<longleftrightarrow> v \<le> verbAllow"
  by (cases v; simp add: less_internalVerb_def less_eq_internalVerb_def)+

lemma le_verbAllow [simp]: "v \<le> verbAllow \<longleftrightarrow> v = verbAllow"
  by (cases v) (simp_all add: less_eq_internalVerb_def)

lemma Evaluate_permits:
  "\<exists>d. Evaluate stmt (Some rs) svc = Some d
     \<and> (dd_Verb d \<noteq> VerbDeny \<longleftrightarrow> cst_Effects stmt \<noteq> [] \<and> (\<forall>e \<in> set (cst_Effects stmt). permitted (set (statementRulesFor rs svc)) e))
     \<and> (dd_Verb d = VerbAllow \<longleftrightarrow> cst_Effects stmt \<noteq> [] \<and> (\<forall>e \<in> set (cst_Effects stmt).
           permitted (set (statementRulesFor rs svc)) e
         \<and> (\<forall>r \<in> covering (set (statementRulesFor rs svc)) e. csr_verb r = VerbAllow)))"
proof (cases "cst_Effects stmt = []")
  case True
  then show ?thesis by (simp add: Evaluate_def implicitDeny_def)
next
  case False
  let ?R = "set (statementRulesFor rs svc)"
  have ne: "spec_verb ?R ` set (cst_Effects stmt) \<noteq> {}" using False by simp
  obtain d where "Evaluate stmt (Some rs) svc = Some d"
    "dd_Verb d = publicVerb (Max (spec_verb ?R ` set (cst_Effects stmt)))"
    using Evaluate_spec [OF False, of rs svc] by blast
  with False ne show ?thesis
    by (simp add: publicVerb_iffs spec_verb_permitted spec_verb_allow del: le_verbAllow)
      (auto simp: spec_verb_allow)
qed

text \<open>C5: Under a loaded policy a statement is always decided.  It is not denied exactly when it has effects and each of them is permitted
  by the rules for the service: no deny rule applies to it, every object it names is covered by a rule, and redirect rules name one source
  relation.  It is allowed outright exactly when moreover every rule that covers one of its effects is an allow rule.\<close>

theorem Evaluate_permits_iff:
  "\<exists>d. Evaluate stmt (Some rs) svc = Some d
     \<and> (dd_Verb d \<noteq> VerbDeny \<longleftrightarrow> cst_Effects stmt \<noteq> [] \<and> list_all (permitted (set (statementRulesFor rs svc))) (cst_Effects stmt))
     \<and> (dd_Verb d = VerbAllow \<longleftrightarrow> cst_Effects stmt \<noteq> [] \<and> list_all (\<lambda>e. permitted (set (statementRulesFor rs svc)) e
           \<and> covering (set (statementRulesFor rs svc)) e \<subseteq> {r. csr_verb r = VerbAllow}) (cst_Effects stmt))"
  using Evaluate_permits [of stmt rs svc] by (simp add: list_all_iff subset_eq)

text \<open>C6: The verb of a decision depends neither on the order of the rules in the policy nor on the order of the effects of the statement,
  nor on repetitions in either.\<close>

theorem Evaluate_order_independent:
  assumes "set (rset_statement rs) = set (rset_statement rs')" "map_of (rset_services rs) = map_of (rset_services rs')"
    and "set (cst_Effects stmt) = set (cst_Effects stmt')"
  shows "map_option dd_Verb (Evaluate stmt (Some rs) svc) = map_option dd_Verb (Evaluate stmt' (Some rs') svc)"
proof (cases "cst_Effects stmt = []")
  case True
  moreover then have "cst_Effects stmt' = []" using assms(3) by simp
  ultimately show ?thesis by (simp add: Evaluate_def implicitDeny_def)
next
  case False
  moreover then have "cst_Effects stmt' \<noteq> []" using assms(3) by auto
  moreover have "set (statementRulesFor rs svc) = set (statementRulesFor rs' svc)"
    using assms(1,2) by (simp add: statementRulesFor_def)
  ultimately show ?thesis
    using Evaluate_spec [of stmt rs svc] Evaluate_spec [of stmt' rs' svc] assms(3) by auto
qed

lemma spec_verb_add_deny:
  assumes "csr_verb r = VerbDeny"
  shows "spec_verb R e \<le> spec_verb (insert r R) e"
proof (cases "denied (insert r R) e")
  case True
  then show ?thesis by (simp add: spec_verb_def)
next
  case False
  then have "\<not> denied R e" by (auto simp: denied_def)
  moreover have "covering (insert r R) e = covering R e" using assms by (auto simp: covering_def)
  moreover then have "covered (insert r R) e = covered R e" by (simp add: covered_def)
  ultimately show ?thesis using False by (simp add: spec_verb_def)
qed

section \<open>Connections\<close>

lemma foldl_conn_best:
  defines "pick \<equiv> \<lambda>best r. if compareConnVerb (ccr_verb r) (ccr_verb best) > 0 then r else best"
  shows "foldl pick r rs \<in> insert r (set rs)
    \<and> (\<forall>x \<in> insert r (set rs). connRank (ccr_verb x) \<le> connRank (ccr_verb (foldl pick r rs)))"
proof (induction rs arbitrary: r)
  case (Cons x rs)
  from Cons.IH [of "pick r x"] show ?case by (force simp: pick_def compareConnVerb_def split: if_splits)
qed simp

text \<open>C7: A connection that no rule of the policy matches is denied; otherwise the decision has the verb of a matching rule, and no matching
  rule has a stricter one (allow, audit, approve, deny).\<close>

theorem EvaluateConnection_strictest:
  "if matchedConnRules rs info = [] then dd_Verb (EvaluateConnection info (Some rs)) = VerbDeny
   else dd_Verb (EvaluateConnection info (Some rs)) \<in> ccr_verb ` set (matchedConnRules rs info)
     \<and> list_all (\<lambda>r. connRank (ccr_verb r) \<le> connRank (dd_Verb (EvaluateConnection info (Some rs)))) (matchedConnRules rs info)"
proof (cases "matchedConnRules rs info")
  case Nil
  then show ?thesis by (simp add: EvaluateConnection_def connDecision_def)
next
  case (Cons r rest)
  define best where "best = foldl (\<lambda>best r. if compareConnVerb (ccr_verb r) (ccr_verb best) > 0 then r else best) r rest"
  have b: "best \<in> insert r (set rest)" "\<forall>x \<in> insert r (set rest). connRank (ccr_verb x) \<le> connRank (ccr_verb best)"
    using foldl_conn_best [of r rest] by (auto simp: best_def)
  moreover have "dd_Verb (EvaluateConnection info (Some rs)) = ccr_verb best"
    using Cons by (simp add: EvaluateConnection_def connDecision_def Let_def best_def)
  ultimately show ?thesis using Cons by (auto simp: list_all_iff)
qed

end
