(* ===== verification/DbExplain.thy ===== *)
theory DbExplain
  imports DbEvaluate
begin

text \<open>
  \<^verbatim>\<open>ExplainStatement\<close> of \<^verbatim>\<open>internal/db/policy/explain.go\<close>: the decision on a statement with, for every effect, the
  deny rules that match and the rules that cover each object. The lemmas show that the explanation is the one
  of the decision \<^verbatim>\<open>Evaluate\<close> gives.
\<close>

section \<open>Explanations\<close>

record RuleMatch =
  rm_RuleName :: string
  rm_Verb :: DecisionVerb
  rm_Selector :: string

record ObjectCoverage =
  oc_Index :: nat
  oc_Object :: ObjectRef
  oc_ResolvedObject :: "ResolvedObjectRef option"
  oc_Covered :: bool
  oc_CoveringRules :: "RuleMatch list"
  oc_UncoveredReason :: string

record EffectExplanation =
  ex_Index :: nat
  ex_Group :: Group
  ex_Subtype :: Subtype
  ex_Resolution :: Resolution
  ex_Coverage :: "ObjectCoverage list"
  ex_CoveringRules :: "RuleMatch list"
  ex_DenyRules :: "RuleMatch list"

record StatementExplanation =
  se_Decision :: DbDecision
  se_ApplicableRules :: "string list"
  se_Effects :: "EffectExplanation list"

definition ruleMatch :: "compiledStatementRule \<Rightarrow> string \<Rightarrow> RuleMatch" where
  "ruleMatch r selector = \<lparr>rm_RuleName = stm_Name (csr_src r), rm_Verb = csr_verb r, rm_Selector = selector\<rparr>"

text \<open>A list of matches with the keys seen so far.\<close>

type_synonym matches = "RuleMatch list \<times> string list"

definition appendRuleMatchUnique :: "matches \<Rightarrow> RuleMatch \<Rightarrow> matches" where
  "appendRuleMatchUnique ms m =
     (case ms of (matches, seen) \<Rightarrow>
        let key = rm_RuleName m @ [CHR 0x00] @ rm_Selector m in
        if key \<in> set seen then (matches, seen) else (matches @ [m], key # seen))"

section \<open>Effects with objects\<close>

text \<open>One step of the loop over the rules for slot \<open>i\<close>: the state is the slot's covering rules and the deny
  rules found so far, which the code shares between the slots.\<close>

definition explainSlotRule :: "Effect \<Rightarrow> nat \<Rightarrow> RuleMatch list \<times> matches \<Rightarrow> compiledStatementRule \<Rightarrow> RuleMatch list \<times> matches" where
  "explainSlotRule e i s r =
     (case s of (cov, denyRules) \<Rightarrow>
        if \<not> ruleMatchesEffectMeta r e then (cov, denyRules)
        else (case ruleMatchesObjectSlot r e i of
                None \<Rightarrow> (cov, denyRules)
              | Some selector \<Rightarrow>
                  if csr_verb r = VerbDeny then (cov, appendRuleMatchUnique denyRules (ruleMatch r selector))
                  else (cov @ [ruleMatch r selector], denyRules)))"

definition explainSlot :: "Effect \<Rightarrow> compiledStatementRule list \<Rightarrow> ObjectCoverage list \<times> matches \<Rightarrow> nat \<Rightarrow> ObjectCoverage list \<times> matches" where
  "explainSlot e applicable s i =
     (case s of (coverage, denyRules) \<Rightarrow>
        (case foldl (explainSlotRule e i) ([], denyRules) applicable of
           (cov, denyRules') \<Rightarrow>
             (coverage @ [\<lparr>oc_Index = i, oc_Object = e_Objects e ! i, oc_ResolvedObject = resolvedObjectForSlot e i,
                oc_Covered = (cov \<noteq> []), oc_CoveringRules = cov,
                oc_UncoveredReason = (if cov = [] then ''no matching non-deny rule covers object'' else [])\<rparr>],
              denyRules')))"

section \<open>Effects without objects\<close>

fun resolvedOnlySelector :: "compiledStatementRule \<Rightarrow> ResolvedObjectRef list \<Rightarrow> string option" where
  "resolvedOnlySelector r [] = None"
| "resolvedOnlySelector r (resolved # rest) =
     (if \<not> resolvedOnlyFunctionRuleMatches r resolved then resolvedOnlySelector r rest
      else if \<not> hasObjectSelectors r then Some ''all''
      else if functionMatches r resolved then Some ''functions''
      else resolvedOnlySelector r rest)"

definition resolvedOnlyFunctionRuleSelector :: "compiledStatementRule \<Rightarrow> Effect \<Rightarrow> string option" where
  "resolvedOnlyFunctionRuleSelector r e = resolvedOnlySelector r (e_ResolvedObjects e)"

definition explainRule :: "(compiledStatementRule \<Rightarrow> Effect \<Rightarrow> string option) \<Rightarrow> Effect \<Rightarrow> matches \<times> matches \<Rightarrow> compiledStatementRule \<Rightarrow> matches \<times> matches" where
  "explainRule selectorOf e s r =
     (case s of (cov, denyRules) \<Rightarrow>
        if \<not> ruleMatchesEffectMeta r e then (cov, denyRules)
        else (case selectorOf r e of
                None \<Rightarrow> (cov, denyRules)
              | Some selector \<Rightarrow>
                  if csr_verb r = VerbDeny then (cov, appendRuleMatchUnique denyRules (ruleMatch r selector))
                  else (appendRuleMatchUnique cov (ruleMatch r selector), denyRules)))"

definition explainRules :: "(compiledStatementRule \<Rightarrow> Effect \<Rightarrow> string option) \<Rightarrow> Effect \<Rightarrow> compiledStatementRule list \<Rightarrow> RuleMatch list \<times> RuleMatch list" where
  "explainRules selectorOf e applicable =
     (case foldl (explainRule selectorOf e) (([], []), ([], [])) applicable of (cov, denyRules) \<Rightarrow> (fst cov, fst denyRules))"

definition explainResolvedOnlyFunctionEffect :: "Effect \<Rightarrow> compiledStatementRule list \<Rightarrow> RuleMatch list \<times> RuleMatch list" where
  "explainResolvedOnlyFunctionEffect e applicable = explainRules resolvedOnlyFunctionRuleSelector e applicable"

definition explainObjectlessEffect :: "Effect \<Rightarrow> compiledStatementRule list \<Rightarrow> RuleMatch list \<times> RuleMatch list" where
  "explainObjectlessEffect e applicable =
     explainRules (\<lambda>r e. if \<not> coversAllObjects r then None else Some ''all'') e applicable"

definition explainNoObjectEffect :: "Effect \<Rightarrow> compiledStatementRule list \<Rightarrow> RuleMatch list \<times> RuleMatch list" where
  "explainNoObjectEffect e applicable =
     (if isResolvedOnlyFunctionEffect e then explainResolvedOnlyFunctionEffect e applicable
      else if isObjectlessEffect e then explainObjectlessEffect e applicable
      else ([], []))"

definition explainEffect :: "nat \<Rightarrow> Effect \<Rightarrow> compiledStatementRule list \<Rightarrow> effectDecision \<times> EffectExplanation" where
  "explainEffect index e applicable =
     (let d = evaluateEffect e applicable;
          ex = \<lparr>ex_Index = index, ex_Group = e_Group e, ex_Subtype = e_Subtype e, ex_Resolution = e_Resolution e,
                ex_Coverage = [], ex_CoveringRules = [], ex_DenyRules = []\<rparr>
      in if e_Objects e = [] then
           (case explainNoObjectEffect e applicable of (cov, denyRules) \<Rightarrow>
              (d, ex\<lparr>ex_CoveringRules := cov, ex_DenyRules := denyRules\<rparr>))
         else
           (case foldl (explainSlot e applicable) ([], ([], [])) [0..<length (e_Objects e)] of (coverage, denyRules) \<Rightarrow>
              (d, ex\<lparr>ex_Coverage := coverage, ex_DenyRules := fst denyRules\<rparr>)))"

definition ExplainStatement :: "ClassifiedStatement \<Rightarrow> RuleSet option \<Rightarrow> ServiceID \<Rightarrow> StatementExplanation option" where
  "ExplainStatement stmt rs svc =
     (case rs of
        None \<Rightarrow> Some \<lparr>se_Decision = implicitDeny stmt 0 ''policy not loaded'', se_ApplicableRules = [], se_Effects = []\<rparr>
      | Some rs \<Rightarrow>
          (let applicable = statementRulesFor rs svc;
               explained = map (\<lambda>(i, e). explainEffect i e applicable) (enumerate 0 (cst_Effects stmt));
               names = map (stm_Name \<circ> csr_src) applicable
           in if cst_Effects stmt = []
              then Some \<lparr>se_Decision = implicitDeny stmt 0 ''no effects on statement'', se_ApplicableRules = names, se_Effects = []\<rparr>
              else map_option (\<lambda>d. \<lparr>se_Decision = d, se_ApplicableRules = names, se_Effects = map snd explained\<rparr>)
                     (foldEffects stmt (map fst explained))))"

section \<open>The explanation is that of the decision\<close>

lemma explainEffect_decision: "fst (explainEffect i e rs) = evaluateEffect e rs"
  by (simp add: explainEffect_def Let_def split: prod.splits)

lemma map_enumerate_snd: "map (\<lambda>x. f (snd x)) (enumerate n xs) = map f xs"
  by (induction xs arbitrary: n) simp_all

lemma ExplainStatement_decision: "map_option se_Decision (ExplainStatement stmt rs svc) = Evaluate stmt rs svc"
proof (cases rs)
  case (Some rs')
  have "map fst (map (\<lambda>(i, e). explainEffect i e (statementRulesFor rs' svc)) (enumerate 0 (cst_Effects stmt)))
      = map (\<lambda>e. evaluateEffect e (statementRulesFor rs' svc)) (cst_Effects stmt)"
    using map_enumerate_snd [of "\<lambda>e. evaluateEffect e (statementRulesFor rs' svc)" 0 "cst_Effects stmt"]
    by (simp add: explainEffect_decision case_prod_beta comp_def)
  then show ?thesis
    by (cases "foldEffects stmt (map (\<lambda>e. evaluateEffect e (statementRulesFor rs' svc)) (cst_Effects stmt))")
      (simp_all add: Some ExplainStatement_def Evaluate_def Let_def)
qed (simp add: ExplainStatement_def Evaluate_def)

text \<open>What a fold over the rules adds to the lists of matches.\<close>

lemma appendRuleMatchUnique_nonempty:
  "fst ms = [] \<longrightarrow> snd ms = [] \<Longrightarrow>
     fst (appendRuleMatchUnique ms m) \<noteq> [] \<and> (fst (appendRuleMatchUnique ms m) = [] \<longrightarrow> snd (appendRuleMatchUnique ms m) = [])"
  by (cases ms) (auto simp: appendRuleMatchUnique_def Let_def)

lemma explainSlotRule_fold:
  fixes e :: Effect and i :: nat and rs :: "compiledStatementRule list"
  assumes "fst (snd s) = [] \<longrightarrow> snd (snd s) = []"
  defines "t \<equiv> foldl (explainSlotRule e i) s rs"
  shows "(fst t \<noteq> [] \<longleftrightarrow> fst s \<noteq> [] \<or> (\<exists>r \<in> set rs. csr_verb r \<noteq> VerbDeny \<and> ruleMatchesEffectMeta r e \<and> matchesSlot r e i))
    \<and> (fst (snd t) \<noteq> [] \<longleftrightarrow> fst (snd s) \<noteq> [] \<or> (\<exists>r \<in> set rs. csr_verb r = VerbDeny \<and> ruleMatchesEffectMeta r e \<and> matchesSlot r e i))
    \<and> (fst (snd t) = [] \<longrightarrow> snd (snd t) = [])"
  unfolding t_def using assms(1)
proof (induction rs arbitrary: s)
  case (Cons r rs)
  obtain c d where s: "s = (c, d)" by (cases s)
  let ?s = "explainSlotRule e i s r"
  have inv: "fst (snd ?s) = [] \<longrightarrow> snd (snd ?s) = []"
    using Cons.prems appendRuleMatchUnique_nonempty [of d]
    by (auto simp: s explainSlotRule_def split: option.splits)
  have c': "fst ?s \<noteq> [] \<longleftrightarrow> fst s \<noteq> [] \<or> (csr_verb r \<noteq> VerbDeny \<and> ruleMatchesEffectMeta r e \<and> matchesSlot r e i)"
    by (auto simp: s explainSlotRule_def matchesSlot_def split: option.splits)
  have d': "fst (snd ?s) \<noteq> [] \<longleftrightarrow> fst (snd s) \<noteq> [] \<or> (csr_verb r = VerbDeny \<and> ruleMatchesEffectMeta r e \<and> matchesSlot r e i)"
  proof (cases "fst d = []")
    case True
    with Cons.prems have "snd d = []" by (simp add: s)
    with True show ?thesis
      by (cases d) (auto simp: s explainSlotRule_def matchesSlot_def appendRuleMatchUnique_def Let_def split: option.splits)
  next
    case False
    then show ?thesis
      by (cases d) (auto simp: s explainSlotRule_def appendRuleMatchUnique_def Let_def split: option.splits)
  qed
  from Cons.IH [OF inv] c' d' show ?case by auto
qed simp

definition deny_inv :: "matches \<Rightarrow> bool" where
  "deny_inv ms \<longleftrightarrow> (fst ms = [] \<longrightarrow> snd ms = [])"

lemma explainSlot_fold:
  fixes e :: Effect and rs :: "compiledStatementRule list" and "is" :: "nat list"
  assumes "deny_inv (snd s)"
  defines "t \<equiv> foldl (explainSlot e rs) s is"
  shows "map oc_Covered (fst t) = map oc_Covered (fst s)
           @ map (\<lambda>i. \<exists>r \<in> set rs. csr_verb r \<noteq> VerbDeny \<and> ruleMatchesEffectMeta r e \<and> matchesSlot r e i) is
    \<and> (fst (snd t) \<noteq> [] \<longleftrightarrow> fst (snd s) \<noteq> []
         \<or> (\<exists>i \<in> set is. \<exists>r \<in> set rs. csr_verb r = VerbDeny \<and> ruleMatchesEffectMeta r e \<and> matchesSlot r e i))"
  unfolding t_def using assms(1)
proof (induction "is" arbitrary: s)
  case (Cons i "is")
  obtain cov den where s: "s = (cov, den)" by (cases s)
  obtain c d where f: "foldl (explainSlotRule e i) ([], den) rs = (c, d)"
    by (cases "foldl (explainSlotRule e i) ([], den) rs")
  have *: "(c \<noteq> [] \<longleftrightarrow> (\<exists>r \<in> set rs. csr_verb r \<noteq> VerbDeny \<and> ruleMatchesEffectMeta r e \<and> matchesSlot r e i))"
    "fst d \<noteq> [] \<longleftrightarrow> fst den \<noteq> [] \<or> (\<exists>r \<in> set rs. csr_verb r = VerbDeny \<and> ruleMatchesEffectMeta r e \<and> matchesSlot r e i)"
    "deny_inv d"
    using explainSlotRule_fold [of "([], den)" e i rs] Cons.prems by (simp_all add: f s deny_inv_def)
  have step: "explainSlot e rs (cov, den) i = (cov @ [\<lparr>oc_Index = i, oc_Object = e_Objects e ! i, oc_ResolvedObject = resolvedObjectForSlot e i,
      oc_Covered = (c \<noteq> []), oc_CoveringRules = c,
      oc_UncoveredReason = (if c = [] then ''no matching non-deny rule covers object'' else [])\<rparr>], d)"
    by (simp add: explainSlot_def f)
  have "deny_inv (snd (explainSlot e rs (cov, den) i))" using *(3) by (simp add: step)
  from Cons.IH [OF this] *(1,2) show ?case by (auto simp: step s)
qed simp

lemma denied_slots:
  assumes "e_Objects e \<noteq> []"
  shows "denied (set rs) e \<longleftrightarrow>
    (\<exists>i \<in> set [0..<length (e_Objects e)]. \<exists>r \<in> set rs. csr_verb r = VerbDeny \<and> ruleMatchesEffectMeta r e \<and> matchesSlot r e i)"
proof -
  have "applies r e \<longleftrightarrow> (\<exists>i \<in> set [0..<length (e_Objects e)]. matchesSlot r e i)" for r
    using assms by (auto simp: applies_def)
  then show ?thesis unfolding denied_def by blast
qed

lemma explainRule_fold:
  fixes sel :: "compiledStatementRule \<Rightarrow> Effect \<Rightarrow> string option" and e :: Effect and rs :: "compiledStatementRule list"
  assumes "deny_inv (fst s)" "deny_inv (snd s)"
  defines "t \<equiv> foldl (explainRule sel e) s rs"
  shows "(fst (fst t) \<noteq> [] \<longleftrightarrow> fst (fst s) \<noteq> [] \<or> (\<exists>r \<in> set rs. csr_verb r \<noteq> VerbDeny \<and> ruleMatchesEffectMeta r e \<and> sel r e \<noteq> None))
    \<and> (fst (snd t) \<noteq> [] \<longleftrightarrow> fst (snd s) \<noteq> [] \<or> (\<exists>r \<in> set rs. csr_verb r = VerbDeny \<and> ruleMatchesEffectMeta r e \<and> sel r e \<noteq> None))"
  unfolding t_def using assms(1,2)
proof (induction rs arbitrary: s)
  case (Cons r rs)
  obtain c cs d ds where s: "s = ((c, cs), (d, ds))" by (cases s) (metis surj_pair)
  have inv: "deny_inv (fst (explainRule sel e s r))" "deny_inv (snd (explainRule sel e s r))"
    using Cons.prems by (auto simp: s deny_inv_def explainRule_def appendRuleMatchUnique_def Let_def split: option.splits)
  have "fst (fst (explainRule sel e s r)) \<noteq> [] \<longleftrightarrow> fst (fst s) \<noteq> [] \<or> (csr_verb r \<noteq> VerbDeny \<and> ruleMatchesEffectMeta r e \<and> sel r e \<noteq> None)"
    "fst (snd (explainRule sel e s r)) \<noteq> [] \<longleftrightarrow> fst (snd s) \<noteq> [] \<or> (csr_verb r = VerbDeny \<and> ruleMatchesEffectMeta r e \<and> sel r e \<noteq> None)"
    using Cons.prems
    by (auto simp: s deny_inv_def explainRule_def appendRuleMatchUnique_def Let_def split: option.splits if_splits)
  with Cons.IH [OF inv] show ?case by auto
qed simp

lemma resolvedOnlySelector_iff: "resolvedOnlyFunctionRuleSelector r e \<noteq> None \<longleftrightarrow> matchesResolvedOnly r e"
proof -
  have "resolvedOnlySelector r ros \<noteq> None \<longleftrightarrow>
      list_ex (\<lambda>resolved. resolvedOnlyFunctionRuleMatches r resolved \<and> (\<not> hasObjectSelectors r \<or> functionMatches r resolved)) ros" for ros
    by (induction ros) auto
  then show ?thesis by (simp add: resolvedOnlyFunctionRuleSelector_def matchesResolvedOnly_def)
qed

lemma explainRules_iff:
  assumes "\<And>r. applies r e \<longleftrightarrow> sel r e \<noteq> None"
  shows "(fst (explainRules sel e rs) \<noteq> [] \<longleftrightarrow> covering (set rs) e \<noteq> {}) \<and> (snd (explainRules sel e rs) \<noteq> [] \<longleftrightarrow> denied (set rs) e)"
proof -
  have "covering (set rs) e \<noteq> {} \<longleftrightarrow> (\<exists>r \<in> set rs. csr_verb r \<noteq> VerbDeny \<and> ruleMatchesEffectMeta r e \<and> sel r e \<noteq> None)"
    unfolding covering_def assms by blast
  moreover have "denied (set rs) e \<longleftrightarrow> (\<exists>r \<in> set rs. csr_verb r = VerbDeny \<and> ruleMatchesEffectMeta r e \<and> sel r e \<noteq> None)"
    unfolding denied_def assms ..
  ultimately show ?thesis
    using explainRule_fold [of "(([], []), ([], []))" sel e rs] by (simp add: explainRules_def deny_inv_def case_prod_beta)
qed

lemma explainNoObject_iff:
  assumes "e_Objects e = []"
  shows "(fst (explainNoObjectEffect e rs) \<noteq> [] \<longleftrightarrow> covering (set rs) e \<noteq> {})
       \<and> (snd (explainNoObjectEffect e rs) \<noteq> [] \<longleftrightarrow> denied (set rs) e)"
proof (cases "isResolvedOnlyFunctionEffect e")
  case True
  then have "applies r e \<longleftrightarrow> resolvedOnlyFunctionRuleSelector r e \<noteq> None" for r
    unfolding resolvedOnlySelector_iff using assms by (simp add: applies_def)
  from explainRules_iff [where sel = resolvedOnlyFunctionRuleSelector, OF this] True show ?thesis
    unfolding explainNoObjectEffect_def explainResolvedOnlyFunctionEffect_def by (simp only: if_True)
next
  case nr: False
  show ?thesis
  proof (cases "isObjectlessEffect e")
    case True
    let ?sel = "\<lambda>r e. if \<not> coversAllObjects r then None else Some ''all''"
    have "applies r e \<longleftrightarrow> ?sel r e \<noteq> None" for r using assms nr True by (simp add: applies_def)
    from explainRules_iff [where sel = ?sel, OF this] nr True show ?thesis
      unfolding explainNoObjectEffect_def explainObjectlessEffect_def by (simp only: if_True if_False)
  next
    case False
    then show ?thesis using assms nr by (simp add: explainNoObjectEffect_def covering_def denied_def applies_def)
  qed
qed


end
