(* ===== verification/DbPolicyLoad.thy ===== *)
theory DbPolicyLoad
  imports DbExplain
begin

text \<open>
  Loading a database policy: validation (\<^verbatim>\<open>internal/db/policy/validate.go\<close>), compilation (\<^verbatim>\<open>compile.go\<close>) and the
  phases B and C of \<^verbatim>\<open>Decode\<close> (\<^verbatim>\<open>decode.go\<close>), from rules the YAML decoder has already typed. An error or a warning
  carries the code of the Go message and the names in it, not its text. \<^verbatim>\<open>parse\<close> stands for the parser of message
  templates (\<^verbatim>\<open>text/template\<close>).
\<close>

section \<open>Errors and warnings\<close>

datatype db_error =
    service_tls_mode_required string
  | service_unknown_tls_mode string string
  | service_plaintext_unsafe_dest string string
  | rule_service_unknown string string
  | rule_service_passthrough string string
  | rule_unknown_decision string string
  | rule_operations_required string
  | rule_unknown_operation string string
  | rule_require_where_invalid_operation string
  | rule_unknown_subtype string string
  | rule_unknown_resolution string string
  | approve_timeout_exceeds_max string Duration
  | redirect_relation_required string
  | redirect_relation_not_canonical string string
  | redirect_source_relation_required string
  | redirect_source_relation_not_canonical string string
  | redirect_source_relation_exclusive string
  | redirect_requires_catalog_resolved string
  | redirect_operations_must_be_read string
  | redirect_requires_terminate_postgres_service string
  | rule_too_broad_allow string
  | rule_deny_mode_in_tx_not_deny string
  | rule_deny_mode_in_tx_unknown string string
  | conn_passthrough_field_unavailable string
  | conn_unknown_match_kind string string
  | conn_redirect_invalid string
  | cancel_rule_approve string

datatype db_warning =
    audit_on_dangerous string
  | canonical_selector_without_resolution_guard string
  | canonical_selector_without_catalog_service string string
  | selector_on_objectless_operation string
  | approve_on_replication string

datatype compile_error =
    unhandled_decision string string
  | incomplete_redirect string
  | unknown_operation string string
  | unknown_subtype string string
  | unknown_resolution string string
  | unhandled_match_kind string string
  | glob_compile string string string
  | message_template_parse string

section \<open>Services\<close>

text \<open>\<^verbatim>\<open>IP.IsLoopback\<close> and \<^verbatim>\<open>IP.IsPrivate\<close> of Go's \<^verbatim>\<open>net\<close>.\<close>

fun IsLoopback :: "IP \<Rightarrow> bool" where
  "IsLoopback (IPv4 a) \<longleftrightarrow> drop_bit 24 a = 127"
| "IsLoopback (IPv6 a) \<longleftrightarrow> a = 1"

fun IsPrivate :: "IP \<Rightarrow> bool" where
  "IsPrivate (IPv4 a) \<longleftrightarrow> drop_bit 24 a = 10 \<or> drop_bit 20 a = 0xAC1 \<or> drop_bit 16 a = 0xC0A8"
| "IsPrivate (IPv6 a) \<longleftrightarrow> drop_bit 121 a = 0x7E"

definition upstreamHost :: "string \<Rightarrow> string" where
  "upstreamHost upstream = (case SplitHostPort upstream of None \<Rightarrow> upstream | Some (host, _) \<Rightarrow> host)"

definition isLoopbackOrPrivate :: "golib \<Rightarrow> string \<Rightarrow> bool" where
  "isLoopbackOrPrivate lib host =
     (if host = [] then False
      else if ToLower host = ''localhost'' then True
      else case ParseIP lib host of None \<Rightarrow> False | Some ip \<Rightarrow> IsLoopback ip \<or> IsPrivate ip)"

definition validateDBService :: "golib \<Rightarrow> DBService \<Rightarrow> db_error list" where
  "validateDBService lib s =
     (if db_TLSMode s = [] then [service_tls_mode_required (db_Name s)]
      else if db_TLSMode s \<in> {''passthrough'', ''terminate_reissue'', ''terminate_plaintext_upstream''} then []
      else [service_unknown_tls_mode (db_Name s) (db_TLSMode s)])
   @ (if db_TLSMode s = ''terminate_plaintext_upstream'' \<and> \<not> db_TrustedNetwork s
         \<and> \<not> isLoopbackOrPrivate lib (upstreamHost (db_Upstream s))
      then [service_plaintext_unsafe_dest (db_Name s) (upstreamHost (db_Upstream s))] else [])"

section \<open>Statement rules\<close>

definition approveTimeoutMax :: Duration where
  "approveTimeoutMax = 600 * 1000000000"

definition expandedGroups :: "StatementRule \<Rightarrow> Group list" where
  "expandedGroups r = concat (map (\<lambda>op. case ExpandAlias op of None \<Rightarrow> [] | Some gs \<Rightarrow> gs) (stm_Operations r))"

definition groupsOnlyRead :: "Group list \<Rightarrow> bool" where
  "groupsOnlyRead groups \<longleftrightarrow> length (remdups groups) = 1 \<and> GroupRead \<in> set groups"

definition groupsOnlyModifyDelete :: "Group list \<Rightarrow> bool" where
  "groupsOnlyModifyDelete groups \<longleftrightarrow> groups \<noteq> [] \<and> list_all (\<lambda>g. g = GroupModify \<or> g = GroupDelete) groups"

definition allGroupsObjectless :: "Group list \<Rightarrow> bool" where
  "allGroupsObjectless groups \<longleftrightarrow> groups \<noteq> [] \<and> list_all isObjectlessGroup groups"

definition hasHighRisk :: "Group list \<Rightarrow> bool" where
  "hasHighRisk groups \<longleftrightarrow> list_ex (\<lambda>g. Group_RiskTier g = High \<or> Group_RiskTier g = Critical) groups"

definition ruleHasCanonicalSelectors :: "StatementRule \<Rightarrow> bool" where
  "ruleHasCanonicalSelectors r \<longleftrightarrow> stm_Relations r \<noteq> [] \<or> stm_Functions r \<noteq> []"

definition ruleHasAnyObjectSelector :: "StatementRule \<Rightarrow> bool" where
  "ruleHasAnyObjectSelector r \<longleftrightarrow> stm_Objects r \<noteq> [] \<or> stm_Relations r \<noteq> [] \<or> stm_Functions r \<noteq> []"

definition canonicalSelectorWarningField :: "StatementRule \<Rightarrow> string" where
  "canonicalSelectorWarningField r = (if stm_Relations r \<noteq> [] then ''relations'' else ''functions'')"

definition ruleServiceFilter :: "StatementRule \<Rightarrow> serviceFilter" where
  "ruleServiceFilter r = \<lparr>sf_service = stm_DBService r, sf_family = stm_DBFamily r, sf_dialect = stm_DBDialect r\<rparr>"

definition ruleMatchesTerminatePostgresService :: "StatementRule \<Rightarrow> (ServiceID \<times> DBService) list \<Rightarrow> bool" where
  "ruleMatchesTerminatePostgresService r svcs \<longleftrightarrow>
     list_ex (\<lambda>(sid, svc). db_Family svc = ''postgres'' \<and> db_TLSMode svc \<noteq> ''passthrough''
        \<and> serviceFilter_matches (ruleServiceFilter r) sid (Some svc)) svcs"

definition isPlainIdentifier :: "string \<Rightarrow> bool" where
  "isPlainIdentifier s =
     (case s of
        [] \<Rightarrow> False
      | c # cs \<Rightarrow> (is_lower c \<or> c = CHR ''_'') \<and> list_all (\<lambda>c. is_lower c \<or> is_digit c \<or> c = CHR ''_'') cs)"

definition isCanonicalRelationName :: "string \<Rightarrow> bool" where
  "isCanonicalRelationName s =
     (let parts = Split s (CHR ''.'') in
      length parts = 2 \<and> isPlainIdentifier (parts ! 0) \<and> isPlainIdentifier (parts ! 1))"

definition validateRedirectStatementRule :: "StatementRule \<Rightarrow> (ServiceID \<times> DBService) list \<Rightarrow> Group list \<Rightarrow> db_error list" where
  "validateRedirectStatementRule r svcs groups =
     (let name = stm_Name r in
      (case stm_Redirect r of
         None \<Rightarrow> [redirect_relation_required name]
       | Some rel \<Rightarrow>
           if rel = [] then [redirect_relation_required name]
           else if \<not> isCanonicalRelationName rel then [redirect_relation_not_canonical name rel] else [])
    @ (if length (stm_Relations r) \<noteq> 1 then [redirect_source_relation_required name]
       else if \<not> isCanonicalRelationName (stm_Relations r ! 0)
         then [redirect_source_relation_not_canonical name (stm_Relations r ! 0)] else [])
    @ (if stm_Objects r \<noteq> [] \<or> stm_Functions r \<noteq> [] then [redirect_source_relation_exclusive name] else [])
    @ (if stm_MatchObjectResolution r \<noteq> ''catalog_resolved'' then [redirect_requires_catalog_resolved name] else [])
    @ (if \<not> groupsOnlyRead groups then [redirect_operations_must_be_read name] else [])
    @ (if \<not> ruleMatchesTerminatePostgresService r svcs then [redirect_requires_terminate_postgres_service name] else []))"

definition stmt_decisions :: "string list" where
  "stmt_decisions = [''allow'', ''deny'', ''approve'', ''audit'', ''redirect'']"

definition statementRuleErrors :: "StatementRule \<Rightarrow> (ServiceID \<times> DBService) list \<Rightarrow> db_error list" where
  "statementRuleErrors r svcs =
     (let name = stm_Name r; groups = expandedGroups r in
      (if stm_DBService r \<noteq> [] then
         (case map_of svcs (stm_DBService r) of
            None \<Rightarrow> [rule_service_unknown name (stm_DBService r)]
          | Some svc \<Rightarrow> if db_TLSMode svc = ''passthrough'' then [rule_service_passthrough name (stm_DBService r)] else [])
       else [])
    @ (if stm_Decision r \<in> set stmt_decisions then [] else [rule_unknown_decision name (stm_Decision r)])
    @ (if stm_Operations r = [] then [rule_operations_required name] else [])
    @ concat (map (\<lambda>op. if ExpandAlias op = None then [rule_unknown_operation name op] else []) (stm_Operations r))
    @ (if stm_RequireWhere r \<and> \<not> groupsOnlyModifyDelete groups then [rule_require_where_invalid_operation name] else [])
    @ concat (map (\<lambda>st. if ParseSubtype st = None then [rule_unknown_subtype name st] else []) (stm_Subtypes r))
    @ (if stm_MatchObjectResolution r \<notin> {[], ''*''} \<and> ParseResolution (stm_MatchObjectResolution r) = None
       then [rule_unknown_resolution name (stm_MatchObjectResolution r)] else [])
    @ (if stm_Decision r = ''approve'' \<and> stm_Timeout r > approveTimeoutMax then [approve_timeout_exceeds_max name (stm_Timeout r)] else [])
    @ (if stm_Decision r = ''redirect'' then validateRedirectStatementRule r svcs groups else [])
    @ (if stm_Decision r = ''allow'' \<and> stm_DBService r = [] \<and> stm_DBFamily r = [] \<and> ''*'' \<in> set (stm_Operations r)
       then [rule_too_broad_allow name] else [])
    @ (if stm_DenyModeInTx r \<noteq> [] then
         (if stm_Decision r \<noteq> ''deny'' then [rule_deny_mode_in_tx_not_deny name]
          else if stm_DenyModeInTx r \<in> {''terminate'', ''rollback_then_continue''} then []
          else [rule_deny_mode_in_tx_unknown name (stm_DenyModeInTx r)])
       else []))"

definition statementRuleWarnings :: "StatementRule \<Rightarrow> (ServiceID \<times> DBService) list \<Rightarrow> db_warning list" where
  "statementRuleWarnings r svcs =
     (let name = stm_Name r; groups = expandedGroups r in
      (if stm_Decision r = ''audit'' \<and> \<not> stm_AcknowledgeAuditOnDangerous r \<and> hasHighRisk groups
       then [audit_on_dangerous name] else [])
    @ (if ruleHasCanonicalSelectors r then
         (if stm_MatchObjectResolution r \<noteq> ''catalog_resolved'' then [canonical_selector_without_resolution_guard name] else [])
       @ (if \<not> ruleMatchesTerminatePostgresService r svcs
          then [canonical_selector_without_catalog_service name (canonicalSelectorWarningField r)] else [])
       else [])
    @ (if ruleHasAnyObjectSelector r \<and> allGroupsObjectless groups then [selector_on_objectless_operation name] else []))"

definition validateStatementRule :: "StatementRule \<Rightarrow> (ServiceID \<times> DBService) list \<Rightarrow> db_error list \<times> db_warning list" where
  "validateStatementRule r svcs = (statementRuleErrors r svcs, statementRuleWarnings r svcs)"

section \<open>Connection rules\<close>

definition validateConnectionRuleVsService :: "ConnectionRule \<Rightarrow> DBService \<Rightarrow> db_error option" where
  "validateConnectionRuleVsService r svc =
     (if db_TLSMode svc \<noteq> ''passthrough'' then None
      else if cnr_DBUser r \<noteq> [] then Some (conn_passthrough_field_unavailable (cnr_Name r))
      else if cnr_Database r \<noteq> [] then Some (conn_passthrough_field_unavailable (cnr_Name r))
      else if cnr_ApplicationName r \<noteq> [] then Some (conn_passthrough_field_unavailable (cnr_Name r))
      else None)"

fun firstServiceError :: "ConnectionRule \<Rightarrow> (ServiceID \<times> DBService) list \<Rightarrow> db_error list" where
  "firstServiceError r [] = []"
| "firstServiceError r ((_, s) # svcs) =
     (case validateConnectionRuleVsService r s of Some e \<Rightarrow> [e] | None \<Rightarrow> firstServiceError r svcs)"

definition validateConnectionRule :: "ConnectionRule \<Rightarrow> (ServiceID \<times> DBService) list \<Rightarrow> db_error list \<times> db_warning list" where
  "validateConnectionRule r svcs =
     (let name = cnr_Name r; mk = (if cnr_MatchKind r = [] then ''connect'' else cnr_MatchKind r) in
      ((if cnr_DBService r \<noteq> [] then
          (case map_of svcs (cnr_DBService r) of
             None \<Rightarrow> [rule_service_unknown name (cnr_DBService r)]
           | Some s \<Rightarrow> (case validateConnectionRuleVsService r s of Some e \<Rightarrow> [e] | None \<Rightarrow> []))
        else firstServiceError r svcs)
     @ (if mk \<in> {''connect'', ''cancel'', ''replication''} then [] else [conn_unknown_match_kind name (cnr_MatchKind r)])
     @ (if cnr_Decision r \<in> {''allow'', ''deny'', ''approve'', ''audit''} then []
        else if cnr_Decision r = ''redirect'' then [conn_redirect_invalid name]
        else [rule_unknown_decision name (cnr_Decision r)])
     @ (if mk = ''cancel'' \<and> cnr_Decision r = ''approve'' then [cancel_rule_approve name] else [])
     @ (if cnr_Decision r = ''approve'' \<and> cnr_Timeout r > approveTimeoutMax
        then [approve_timeout_exceeds_max name (cnr_Timeout r)] else []),
      (if mk = ''replication'' \<and> cnr_Decision r = ''approve'' then [approve_on_replication name] else [])))"

definition validate :: "golib \<Rightarrow> (ServiceID \<times> DBService) list \<Rightarrow> StatementRule list \<Rightarrow> ConnectionRule list \<Rightarrow> db_error list \<times> db_warning list" where
  "validate lib svcs stmts conns =
     (concat (map (\<lambda>(_, s). validateDBService lib s) svcs)
        @ concat (map (\<lambda>r. fst (validateStatementRule r svcs)) stmts)
        @ concat (map (\<lambda>r. fst (validateConnectionRule r svcs)) conns),
      concat (map (\<lambda>r. snd (validateStatementRule r svcs)) stmts)
        @ concat (map (\<lambda>r. snd (validateConnectionRule r svcs)) conns))"

section \<open>Compilation\<close>

fun verbOfDecision :: "(string \<times> DecisionVerb) list \<Rightarrow> string \<Rightarrow> DecisionVerb option" where
  "verbOfDecision table d = map_of table d"

definition connVerbs :: "(string \<times> DecisionVerb) list" where
  "connVerbs = [(''allow'', VerbAllow), (''deny'', VerbDeny), (''approve'', VerbApprove), (''audit'', VerbAudit)]"

definition stmtVerbs :: "(string \<times> DecisionVerb) list" where
  "stmtVerbs = connVerbs @ [(''redirect'', VerbRedirect)]"

definition compileGlobs :: "golib \<Rightarrow> string \<Rightarrow> string \<Rightarrow> string list \<Rightarrow> compile_error + pattern list" where
  "compileGlobs lib name field pats =
     sum_mapM (\<lambda>pat. case glob_Compile lib pat [] of None \<Rightarrow> Inl (glob_compile name field pat) | Some g \<Rightarrow> Inr g) pats"

definition compileTemplate :: "(string \<Rightarrow> template option) \<Rightarrow> string \<Rightarrow> string \<Rightarrow> compile_error + template option" where
  "compileTemplate parse name msg =
     (if TrimSpace msg = [] then Inr None
      else case parse msg of None \<Rightarrow> Inl (message_template_parse name) | Some t \<Rightarrow> Inr (Some t))"

definition compileTimeout :: "string \<Rightarrow> Duration \<Rightarrow> Duration" where
  "compileTimeout decision timeout = (if decision = ''approve'' \<and> timeout = 0 then defaultApproveTimeout else timeout)"

definition compileRedirect :: "StatementRule \<Rightarrow> DecisionVerb \<Rightarrow> compile_error + RedirectDecision option" where
  "compileRedirect r verb =
     (if verb \<noteq> VerbRedirect then Inr None
      else case (stm_Relations r, stm_Redirect r) of
        ([source], Some target) \<Rightarrow>
          if target = [] then Inl (incomplete_redirect (stm_Name r))
          else Inr (Some \<lparr>rd_SourceRelation = source, rd_TargetRelation = target\<rparr>)
      | _ \<Rightarrow> Inl (incomplete_redirect (stm_Name r)))"

definition compileResolution :: "StatementRule \<Rightarrow> compile_error + resolutionMatcher" where
  "compileResolution r =
     (if stm_MatchObjectResolution r \<in> {[], ''*''} then Inr resAny
      else case ParseResolution (stm_MatchObjectResolution r) of
        None \<Rightarrow> Inl (unknown_resolution (stm_Name r) (stm_MatchObjectResolution r))
      | Some res \<Rightarrow> Inr (resEq res))"

definition compileStatementRule :: "golib \<Rightarrow> (string \<Rightarrow> template option) \<Rightarrow> StatementRule \<Rightarrow> compile_error + compiledStatementRule" where
  "compileStatementRule lib parse r =
     (let name = stm_Name r in
      sum_bind (case verbOfDecision stmtVerbs (stm_Decision r) of None \<Rightarrow> Inl (unhandled_decision name (stm_Decision r)) | Some v \<Rightarrow> Inr v) (\<lambda>verb.
      sum_bind (compileRedirect r verb) (\<lambda>redirect.
      sum_bind (sum_mapM (\<lambda>op. case ExpandAlias op of None \<Rightarrow> Inl (unknown_operation name op) | Some gs \<Rightarrow> Inr gs) (stm_Operations r)) (\<lambda>groups.
      sum_bind (sum_mapM (\<lambda>st. case ParseSubtype st of None \<Rightarrow> Inl (unknown_subtype name st) | Some s \<Rightarrow> Inr s) (stm_Subtypes r)) (\<lambda>subtypes.
      sum_bind (compileResolution r) (\<lambda>resolution.
      sum_bind (compileGlobs lib name ''schemas'' (stm_Schemas r)) (\<lambda>schemas.
      sum_bind (compileGlobs lib name ''objects'' (stm_Objects r)) (\<lambda>objects.
      sum_bind (compileGlobs lib name ''relations'' (stm_Relations r)) (\<lambda>relations.
      sum_bind (compileGlobs lib name ''functions'' (stm_Functions r)) (\<lambda>functions.
      sum_bind (compileTemplate parse name (stm_Message r)) (\<lambda>tmpl.
        Inr \<lparr>csr_src = r, csr_verb = verb, csr_groups = concat groups, csr_subtypes = subtypes,
             csr_requireWhere = stm_RequireWhere r, csr_resolution = resolution, csr_schemas = schemas,
             csr_objects = objects, csr_relations = relations, csr_functions = functions,
             csr_timeout = compileTimeout (stm_Decision r) (stm_Timeout r), csr_msgTemplate = tmpl,
             csr_redirect = redirect, csr_serviceFilter = ruleServiceFilter r\<rparr>)))))))))))"

definition compileMatchKind :: "ConnectionRule \<Rightarrow> compile_error + ConnectionMatchKind" where
  "compileMatchKind r =
     (if cnr_MatchKind r \<in> {[], ''connect''} then Inr MatchConnect
      else if cnr_MatchKind r = ''cancel'' then Inr MatchCancel
      else if cnr_MatchKind r = ''replication'' then Inr MatchReplication
      else Inl (unhandled_match_kind (cnr_Name r) (cnr_MatchKind r)))"

definition compileOptGlob :: "golib \<Rightarrow> string \<Rightarrow> string \<Rightarrow> string \<Rightarrow> compile_error + pattern option" where
  "compileOptGlob lib name field pat =
     (if pat = [] then Inr None
      else case glob_Compile lib pat [] of None \<Rightarrow> Inl (glob_compile name field pat) | Some g \<Rightarrow> Inr (Some g))"

definition compileConnectionRule :: "golib \<Rightarrow> (string \<Rightarrow> template option) \<Rightarrow> ConnectionRule \<Rightarrow> compile_error + compiledConnectionRule" where
  "compileConnectionRule lib parse r =
     (let name = cnr_Name r in
      sum_bind (case verbOfDecision connVerbs (cnr_Decision r) of None \<Rightarrow> Inl (unhandled_decision name (cnr_Decision r)) | Some v \<Rightarrow> Inr v) (\<lambda>verb.
      sum_bind (compileMatchKind r) (\<lambda>mk.
      sum_bind (compileOptGlob lib name ''application_name'' (cnr_ApplicationName r)) (\<lambda>app.
      sum_bind (compileOptGlob lib name ''client_identity'' (cnr_ClientIdentity r)) (\<lambda>ident.
      sum_bind (compileTemplate parse name (cnr_Message r)) (\<lambda>tmpl.
        Inr \<lparr>ccr_src = r, ccr_verb = verb, ccr_matchKind = mk, ccr_dbUsers = cnr_DBUser r, ccr_database = cnr_Database r,
             ccr_applicationName = app, ccr_clientIdentity = ident,
             ccr_timeout = compileTimeout (cnr_Decision r) (cnr_Timeout r), ccr_msgTemplate = tmpl,
             ccr_serviceFilter = \<lparr>sf_service = cnr_DBService r, sf_family = [], sf_dialect = []\<rparr>\<rparr>))))))"

datatype load_error = invalid "db_error list" | uncompilable compile_error

definition Decode :: "golib \<Rightarrow> (string \<Rightarrow> template option) \<Rightarrow> (ServiceID \<times> DBService) list \<Rightarrow> StatementRule list \<Rightarrow> ConnectionRule list \<Rightarrow> db_warning list \<times> (load_error + RuleSet)" where
  "Decode lib parse svcs stmts conns =
     (case validate lib svcs stmts conns of (errs, warns) \<Rightarrow>
        (warns,
         if errs \<noteq> [] then Inl (invalid errs)
         else case sum_mapM (compileStatementRule lib parse) stmts of
           Inl e \<Rightarrow> Inl (uncompilable e)
         | Inr statement \<Rightarrow>
             (case sum_mapM (compileConnectionRule lib parse) conns of
                Inl e \<Rightarrow> Inl (uncompilable e)
              | Inr connection \<Rightarrow> Inr \<lparr>rset_services = svcs, rset_statement = statement, rset_connection = connection\<rparr>)))"

section \<open>What a loaded policy guarantees\<close>

lemma validate_statement_ok: "fst (validate lib svcs stmts conns) = [] \<Longrightarrow> r \<in> set stmts \<Longrightarrow> statementRuleErrors r svcs = []"
  by (auto simp: validate_def validateStatementRule_def)

lemma validate_connection_ok: "fst (validate lib svcs stmts conns) = [] \<Longrightarrow> r \<in> set conns \<Longrightarrow> fst (validateConnectionRule r svcs) = []"
  by (auto simp: validate_def)

lemma guard_Nil: "(if b then [x] else []) = [] \<longleftrightarrow> \<not> b" "(if b then [] else [x]) = [] \<longleftrightarrow> b"
  "(if b then xs else []) = [] \<longleftrightarrow> (b \<longrightarrow> xs = [])"
  by simp_all

lemma concat_guard_Nil: "concat (map (\<lambda>x. if P x then [f x] else []) xs) = [] \<longleftrightarrow> (\<forall>x \<in> set xs. \<not> P x)"
  by auto

lemma sum_mapM_Inl_ex: "sum_mapM f xs = Inl e \<Longrightarrow> \<exists>x \<in> set xs. f x = Inl e"
  by (auto dest!: sum_mapM_Inl)

lemma statementRule_valid:
  assumes "statementRuleErrors r svcs = []"
  shows "stm_Decision r \<in> set stmt_decisions" "\<forall>op \<in> set (stm_Operations r). ExpandAlias op \<noteq> None"
    "\<forall>st \<in> set (stm_Subtypes r). ParseSubtype st \<noteq> None"
    "stm_MatchObjectResolution r \<in> {[], ''*''} \<or> ParseResolution (stm_MatchObjectResolution r) \<noteq> None"
    "stm_Decision r = ''redirect'' \<Longrightarrow> validateRedirectStatementRule r svcs (expandedGroups r) = []"
proof -
  note e = assms [unfolded statementRuleErrors_def Let_def append_is_Nil_conv guard_Nil concat_guard_Nil]
  show "stm_Decision r \<in> set stmt_decisions" using e by blast
  show "\<forall>op \<in> set (stm_Operations r). ExpandAlias op \<noteq> None" using e by blast
  show "\<forall>st \<in> set (stm_Subtypes r). ParseSubtype st \<noteq> None" using e by blast
  show "stm_MatchObjectResolution r \<in> {[], ''*''} \<or> ParseResolution (stm_MatchObjectResolution r) \<noteq> None"
  proof (rule ccontr)
    assume "\<not> ?thesis"
    then have "stm_MatchObjectResolution r \<notin> {[], ''*''} \<and> ParseResolution (stm_MatchObjectResolution r) = None" by blast
    with e have "[rule_unknown_resolution (stm_Name r) (stm_MatchObjectResolution r)] = []" by blast
    then show False by simp
  qed
  show "stm_Decision r = ''redirect'' \<Longrightarrow> validateRedirectStatementRule r svcs (expandedGroups r) = []" using e by blast
qed

lemma redirectRule_valid:
  assumes "validateRedirectStatementRule r svcs groups = []"
  shows "\<exists>source target. stm_Relations r = [source] \<and> stm_Redirect r = Some target \<and> target \<noteq> []
    \<and> isCanonicalRelationName source \<and> isCanonicalRelationName target" "groupsOnlyRead groups"
proof -
  note e = assms [unfolded validateRedirectStatementRule_def Let_def append_is_Nil_conv]
  from e obtain target where t: "stm_Redirect r = Some target" "target \<noteq> []" "isCanonicalRelationName target"
    by (auto split: option.splits if_splits)
  from e have "length (stm_Relations r) = 1" "isCanonicalRelationName (stm_Relations r ! 0)" by (simp_all split: if_splits)
  then obtain source where "stm_Relations r = [source]" "isCanonicalRelationName source" by (auto simp: length_Suc_conv)
  with t show "\<exists>source target. stm_Relations r = [source] \<and> stm_Redirect r = Some target \<and> target \<noteq> []
    \<and> isCanonicalRelationName source \<and> isCanonicalRelationName target" by blast
  show "groupsOnlyRead groups" using e by (simp split: if_splits)
qed

lemma stmtVerbs_total: "d \<in> set stmt_decisions \<Longrightarrow> \<exists>v. map_of stmtVerbs d = Some v"
  by (auto simp: stmt_decisions_def stmtVerbs_def connVerbs_def)

lemma stmtVerbs_redirect: "map_of stmtVerbs d = Some VerbRedirect \<Longrightarrow> d = ''redirect''"
  by (auto simp: stmtVerbs_def connVerbs_def split: if_splits)

definition library_error :: "compile_error \<Rightarrow> bool" where
  "library_error e \<longleftrightarrow> (case e of glob_compile _ _ _ \<Rightarrow> True | message_template_parse _ \<Rightarrow> True | _ \<Rightarrow> False)"

lemma sum_mapM_total: "\<forall>x \<in> set xs. \<exists>y. f x = Inr y \<Longrightarrow> \<exists>ys. sum_mapM f xs = Inr ys"
  by (induction xs) (auto split: sum.splits)

lemma compileGlobs_error: "compileGlobs lib n f pats = Inl e \<Longrightarrow> library_error e"
  by (auto simp: compileGlobs_def library_error_def dest!: sum_mapM_Inl split: option.splits)

lemma compileTemplate_error: "compileTemplate parse n m = Inl e \<Longrightarrow> library_error e"
  by (auto simp: compileTemplate_def library_error_def split: if_splits option.splits)

lemma compileOptGlob_error: "compileOptGlob lib n f pat = Inl e \<Longrightarrow> library_error e"
  by (auto simp: compileOptGlob_def library_error_def split: if_splits option.splits)

lemma compileRedirect_ok:
  assumes "statementRuleErrors r svcs = []" "map_of stmtVerbs (stm_Decision r) = Some v"
  shows "\<exists>rd. compileRedirect r v = Inr rd"
proof (cases "v = VerbRedirect")
  case True
  with assms(2) have "stm_Decision r = ''redirect''" by (simp add: stmtVerbs_redirect)
  from redirectRule_valid(1) [OF statementRule_valid(5) [OF assms(1) this]] show ?thesis
    by (auto simp: compileRedirect_def)
qed (simp add: compileRedirect_def)

lemma compileStatementRule_error:
  assumes valid: "statementRuleErrors r svcs = []" and err: "compileStatementRule lib parse r = Inl e"
  shows "library_error e"
proof -
  obtain v where v: "map_of stmtVerbs (stm_Decision r) = Some v"
    using stmtVerbs_total [OF statementRule_valid(1) [OF valid]] by blast
  obtain rd where rd: "compileRedirect r v = Inr rd" using compileRedirect_ok [OF valid v] by blast
  obtain gs where gs: "sum_mapM (\<lambda>op. case ExpandAlias op of None \<Rightarrow> Inl (unknown_operation (stm_Name r) op) | Some gs \<Rightarrow> Inr gs)
      (stm_Operations r) = Inr gs"
    using sum_mapM_total statementRule_valid(2) [OF valid] by (smt (verit) option.case_eq_if)
  obtain ss where ss: "sum_mapM (\<lambda>st. case ParseSubtype st of None \<Rightarrow> Inl (unknown_subtype (stm_Name r) st) | Some s \<Rightarrow> Inr s)
      (stm_Subtypes r) = Inr ss"
    using sum_mapM_total statementRule_valid(3) [OF valid] by (smt (verit) option.case_eq_if)
  obtain res where res: "compileResolution r = Inr res"
    using statementRule_valid(4) [OF valid]
    by (cases "stm_MatchObjectResolution r \<in> {[], ''*''}") (auto simp: compileResolution_def)
  show ?thesis
    using err unfolding compileStatementRule_def Let_def
    by (auto simp: v rd gs ss res sum_bind_Inl_iff dest: compileGlobs_error compileTemplate_error)
qed

lemma compileConnectionRule_error:
  assumes valid: "fst (validateConnectionRule r svcs) = []" and err: "compileConnectionRule lib parse r = Inl e"
  shows "library_error e"
proof -
  note e = valid [unfolded validateConnectionRule_def Let_def fst_conv append_is_Nil_conv]
  have "cnr_Decision r \<in> {''allow'', ''deny'', ''approve'', ''audit''}" using e by (auto split: if_splits)
  then obtain v where v: "map_of connVerbs (cnr_Decision r) = Some v" by (auto simp: connVerbs_def)
  obtain mk where mk: "compileMatchKind r = Inr mk" using e by (auto simp: compileMatchKind_def split: if_splits)
  show ?thesis
    using err unfolding compileConnectionRule_def Let_def
    by (auto simp: v mk sum_bind_Inl_iff dest: compileOptGlob_error compileTemplate_error)
qed

text \<open>C9: When validation finds no error, loading a policy can fail only in the libraries: a glob pattern or a message template that does not
  compile.  None of the checks the compiler repeats can fire.\<close>

theorem validated_rules_compile:
  assumes "fst (validate lib svcs stmts conns) = []" and "snd (Decode lib parse svcs stmts conns) = Inl err"
  shows "\<exists>e. err = uncompilable e \<and> library_error e"
proof -
  obtain warns where v: "validate lib svcs stmts conns = ([], warns)"
    using assms(1) by (cases "validate lib svcs stmts conns") simp
  show ?thesis
  proof (cases "sum_mapM (compileStatementRule lib parse) stmts")
    case (Inl e)
    from sum_mapM_Inl_ex [OF this] obtain r where r: "r \<in> set stmts" "compileStatementRule lib parse r = Inl e" by blast
    from compileStatementRule_error [OF validate_statement_ok [OF assms(1) r(1)] r(2)] have "library_error e" .
    with assms(2) v Inl show ?thesis by (auto simp: Decode_def)
  next
    case (Inr cs)
    show ?thesis
    proof (cases "sum_mapM (compileConnectionRule lib parse) conns")
      case (Inl e)
      from sum_mapM_Inl_ex [OF this] obtain r where r: "r \<in> set conns" "compileConnectionRule lib parse r = Inl e" by blast
      from compileConnectionRule_error [OF validate_connection_ok [OF assms(1) r(1)] r(2)] have "library_error e" .
      with assms(2) v Inl Inr show ?thesis by (auto simp: Decode_def)
    qed (use assms(2) v Inr in \<open>simp add: Decode_def\<close>)
  qed
qed

lemma Decode_Inr:
  assumes "snd (Decode lib parse svcs stmts conns) = Inr rs"
  shows "fst (validate lib svcs stmts conns) = []" "sum_mapM (compileStatementRule lib parse) stmts = Inr (rset_statement rs)"
  using assms by (auto simp: Decode_def split: prod.splits if_splits sum.splits)

lemma Decode_rule:
  assumes "snd (Decode lib parse svcs stmts conns) = Inr rs" "c \<in> set (statementRulesFor rs svc)"
  obtains r where "r \<in> set stmts" "compileStatementRule lib parse r = Inr c" "statementRuleErrors r svcs = []"
proof -
  from assms(2) have "c \<in> set (rset_statement rs)" by (simp add: statementRulesFor_def)
  with sum_mapM_set [OF Decode_Inr(2) [OF assms(1)]] obtain r where r: "r \<in> set stmts" "compileStatementRule lib parse r = Inr c"
    by blast
  with validate_statement_ok [OF Decode_Inr(1) [OF assms(1)] r(1)] that show ?thesis by blast
qed

lemma compileStatementRule_Inr:
  assumes "compileStatementRule lib parse r = Inr c"
  shows "csr_src c = r" "map_of stmtVerbs (stm_Decision r) = Some (csr_verb c)" "compileRedirect r (csr_verb c) = Inr (csr_redirect c)"
    "csr_groups c = expandedGroups r"
proof -
  from assms obtain v rd gs where *: "map_of stmtVerbs (stm_Decision r) = Some v" "compileRedirect r v = Inr rd"
    "sum_mapM (\<lambda>op. case ExpandAlias op of None \<Rightarrow> Inl (unknown_operation (stm_Name r) op) | Some gs \<Rightarrow> Inr gs) (stm_Operations r) = Inr gs"
    and c: "csr_src c = r" "csr_verb c = v" "csr_redirect c = rd" "csr_groups c = concat gs"
    by (auto simp: compileStatementRule_def Let_def sum_bind_Inr_iff split: option.splits)
  have "concat gs = concat (map (\<lambda>op. case ExpandAlias op of None \<Rightarrow> [] | Some gs \<Rightarrow> gs) ops)"
    if "sum_mapM (\<lambda>op. case ExpandAlias op of None \<Rightarrow> Inl (unknown_operation (stm_Name r) op) | Some gs \<Rightarrow> Inr gs) ops = Inr gs" for ops gs
    using that by (induction ops arbitrary: gs) (auto split: option.splits sum.splits)
  from this [OF *(3)] have "concat gs = expandedGroups r" by (simp add: expandedGroups_def)
  with * c show "csr_src c = r" "map_of stmtVerbs (stm_Decision r) = Some (csr_verb c)"
    "compileRedirect r (csr_verb c) = Inr (csr_redirect c)" "csr_groups c = expandedGroups r" by simp_all
qed

lemma groupsOnlyRead_iff: "groupsOnlyRead gs \<longleftrightarrow> set gs = {GroupRead}"
proof -
  have "length (remdups gs) = card (set gs)" by (simp add: length_remdups_card_conv)
  then show ?thesis by (auto simp: groupsOnlyRead_def card_1_singleton_iff)
qed

lemma compiled_redirect:
  assumes valid: "statementRuleErrors r svcs = []" and c: "compileStatementRule lib parse r = Inr c" and v: "csr_verb c = VerbRedirect"
  shows "set (csr_groups c) = {GroupRead} \<and> (\<exists>rd. csr_redirect c = Some rd
     \<and> isCanonicalRelationName (rd_SourceRelation rd) \<and> isCanonicalRelationName (rd_TargetRelation rd))"
proof -
  from compileStatementRule_Inr(2) [OF c] v have "stm_Decision r = ''redirect''" by (simp add: stmtVerbs_redirect)
  note R = redirectRule_valid [OF statementRule_valid(5) [OF valid this]]
  from R(1) obtain source target where "stm_Relations r = [source]" "stm_Redirect r = Some target" "target \<noteq> []"
    "isCanonicalRelationName source" "isCanonicalRelationName target" by blast
  moreover from this compileStatementRule_Inr(3) [OF c] v
  have "csr_redirect c = Some \<lparr>rd_SourceRelation = source, rd_TargetRelation = target\<rparr>" by (simp add: compileRedirect_def)
  ultimately have "\<exists>rd. csr_redirect c = Some rd \<and> isCanonicalRelationName (rd_SourceRelation rd) \<and> isCanonicalRelationName (rd_TargetRelation rd)"
    by simp
  with R(2) compileStatementRule_Inr(4) [OF c] show ?thesis by (simp add: groupsOnlyRead_iff)
qed

text \<open>C10: Under a loaded policy a redirect decision is about a read effect, and names canonical source and target relations.\<close>

theorem redirects_are_reads:
  assumes load: "snd (Decode lib parse svcs stmts conns) = Inr rs"
    and ev: "Evaluate stmt (Some rs) svc = Some d" and verb: "dd_Verb d = VerbRedirect"
  shows "dd_MatchingEffectGroup d = GroupRead
    \<and> (\<exists>rd. dd_Redirect d = Some rd \<and> isCanonicalRelationName (rd_SourceRelation rd) \<and> isCanonicalRelationName (rd_TargetRelation rd))"
proof -
  have "cst_Effects stmt \<noteq> []" using ev verb by (auto simp: Evaluate_def implicitDeny_def)
  from Evaluate_spec [OF this, of rs svc] ev verb obtain c e where ce: "c \<in> set (statementRulesFor rs svc)"
    "ruleMatchesEffectMeta c e" "csr_verb c = VerbRedirect" "dd_MatchingEffectGroup d = e_Group e" "dd_Redirect d = csr_redirect c"
    by auto
  from ce(2) have g: "e_Group e \<in> set (csr_groups c)" by (simp add: ruleMatchesEffectMeta_def split: if_splits)
  from Decode_rule [OF load ce(1)] obtain r where "compileStatementRule lib parse r = Inr c" "statementRuleErrors r svcs = []" by blast
  from compiled_redirect [OF this(2,1) ce(3)] g ce(4,5) show ?thesis by auto
qed

text \<open>C11: Under a loaded policy in which no rule lists the operation \<open>unknown\<close> by name, a statement with an effect of the unknown group is denied:
  no alias, not even the star, reaches it.\<close>

theorem unknown_effects_need_their_name:
  assumes load: "snd (Decode lib parse svcs stmts conns) = Inr rs"
    and e: "e \<in> set (cst_Effects stmt)" "e_Group e = GroupUnknown"
    and none: "\<forall>r \<in> set stmts. ''unknown'' \<notin> set (stm_Operations r)"
  shows "\<exists>d. Evaluate stmt (Some rs) svc = Some d \<and> dd_Verb d = VerbDeny"
proof -
  have "\<not> ruleMatchesEffectMeta c e" if c: "c \<in> set (statementRulesFor rs svc)" for c
  proof -
    from Decode_rule [OF load c] obtain r where r: "r \<in> set stmts" "compileStatementRule lib parse r = Inr c" by blast
    have "GroupUnknown \<notin> set gs" if "op \<in> set (stm_Operations r)" "ExpandAlias op = Some gs" for op gs
      using none r(1) that ExpandAlias_unknown by blast
    then have "GroupUnknown \<notin> set (expandedGroups r)" by (fastforce simp: expandedGroups_def split: option.splits)
    with compileStatementRule_Inr(4) [OF r(2)] e(2) show ?thesis by (simp add: ruleMatchesEffectMeta_def)
  qed
  then have "covering (set (statementRulesFor rs svc)) e = {}" by (auto simp: covering_def)
  then have "\<not> covered (set (statementRulesFor rs svc)) e" using covered_ne by blast
  then have "\<not> permitted (set (statementRulesFor rs svc)) e" by (simp add: permitted_def)
  with Evaluate_permits [of stmt rs svc] e(1) show ?thesis by blast
qed

section \<open>A concrete policy\<close>

definition pg_service :: DBService where
  "pg_service = \<lparr>db_Name = ''pg'', db_Family = ''postgres'', db_Dialect = ''postgres'', db_Upstream = ''db:5432'',
     db_TLSMode = ''terminate_reissue'', db_AllowFunctionCallProtocol = False, db_AllowGSSEncryption = False,
     db_TrustedNetwork = False\<rparr>"

definition read_rule :: StatementRule where
  "read_rule = zero_StatementRule\<lparr>stm_Name := ''reads'', stm_DBService := ''pg'', stm_Operations := [''*''], stm_Decision := ''allow''\<rparr>"

definition mask_rule :: StatementRule where
  "mask_rule = zero_StatementRule\<lparr>stm_Name := ''mask'', stm_Operations := [''READ''], stm_Decision := ''redirect'',
     stm_Relations := [''public.users''], stm_Redirect := Some ''public.users_masked'', stm_MatchObjectResolution := ''catalog_resolved''\<rparr>"

definition drop_rule :: StatementRule where
  "drop_rule = zero_StatementRule\<lparr>stm_Name := ''no-drop'', stm_Operations := [''DROP''], stm_Decision := ''deny'',
     stm_DenyModeInTx := ''rollback_then_continue''\<rparr>"

definition sample_stmts :: "StatementRule list" where
  "sample_stmts = [read_rule, mask_rule, drop_rule]"

definition sample_load :: "db_warning list \<times> (load_error + RuleSet)" where
  "sample_load = Decode literal_lib (\<lambda>_. None) [(''pg'', pg_service)] sample_stmts []"

definition sample_rules :: RuleSet where
  "sample_rules = (case snd sample_load of Inr rs \<Rightarrow> rs | Inl _ \<Rightarrow> undefined)"

lemma sample_rules: "snd (Decode literal_lib (\<lambda>_. None) [(''pg'', pg_service)] sample_stmts []) = Inr sample_rules"
proof (cases "snd sample_load")
  case (Inl e)
  have "\<not> isl (snd sample_load)" by code_simp
  with Inl show ?thesis by simp
next
  case (Inr rs)
  then show ?thesis by (simp add: sample_rules_def sample_load_def)
qed

definition users_table :: ObjectRef where
  "users_table = zero_ObjectRef\<lparr>o_Kind := ObjectTable, o_Name := ''users''\<rparr>"

definition users_relation :: ResolvedObjectRef where
  "users_relation = \<lparr>ro_Source = ''catalog'', ro_Kind = ''relation'', ro_OID = 7, ro_Schema = ''public'', ro_Name = ''users'',
     ro_RelationKind = ''table'', ro_FunctionIdentityArgs = [], ro_FunctionVolatility = [], ro_UnresolvedReason = []\<rparr>"

definition simple_effect :: "Group \<Rightarrow> Effect" where
  "simple_effect g = \<lparr>e_Group = g, e_Subtype = SubtypeNone, e_Objects = [users_table], e_ResolvedObjects = [users_relation],
     e_Resolution = ResolutionCatalogResolved, e_HasWhere = False, e_FunctionOID = None\<rparr>"

definition simple_stmt :: "string \<Rightarrow> Group \<Rightarrow> ClassifiedStatement" where
  "simple_stmt verb g = \<lparr>cst_Effects = [simple_effect g], cst_RawVerb = verb, cst_ParserBackend = ParserBackendUnknown, cst_Error = [],
     cst_SourceStart = 0, cst_SourceEnd = 0, cst_PreparedName = [], cst_BulkOp = BulkOpNone\<rparr>"

definition sample_rules_rev :: RuleSet where
  "sample_rules_rev = sample_rules\<lparr>rset_statement := rev (rset_statement sample_rules)\<rparr>"

definition bad_message_rule :: StatementRule where
  "bad_message_rule = drop_rule\<lparr>stm_Message := ''{{''\<rparr>"

theorem Evaluate_order_independent_witness:
  "map_option dd_Verb (Evaluate (simple_stmt ''SELECT'' GroupRead) (Some sample_rules) ''pg'') = Some VerbRedirect
   \<and> map_option dd_Verb (Evaluate (simple_stmt ''SELECT'' GroupRead) (Some sample_rules_rev) ''pg'') = Some VerbRedirect"
proof -
  have "map_option dd_Verb (Evaluate (simple_stmt ''SELECT'' GroupRead) (Some sample_rules) ''pg'') = Some VerbRedirect" by code_simp
  moreover have "map_option dd_Verb (Evaluate (simple_stmt ''SELECT'' GroupRead) (Some sample_rules) ''pg'')
      = map_option dd_Verb (Evaluate (simple_stmt ''SELECT'' GroupRead) (Some sample_rules_rev) ''pg'')"
    by (rule Evaluate_order_independent) (simp_all add: sample_rules_rev_def)
  ultimately show ?thesis by simp
qed

theorem validated_rules_compile_witness:
  "\<exists>e. snd (Decode literal_lib (\<lambda>_. None) [(''pg'', pg_service)] [bad_message_rule] []) = Inl (uncompilable e) \<and> library_error e"
proof -
  have v: "fst (validate literal_lib [(''pg'', pg_service)] [bad_message_rule] []) = []" by code_simp
  have "isl (snd (Decode literal_lib (\<lambda>_. None) [(''pg'', pg_service)] [bad_message_rule] []))" by code_simp
  then obtain err where "snd (Decode literal_lib (\<lambda>_. None) [(''pg'', pg_service)] [bad_message_rule] []) = Inl err" by (auto simp: isl_def)
  with validated_rules_compile [OF v this] show ?thesis by simp
qed

theorem redirects_are_reads_witness:
  "\<exists>d rd. Evaluate (simple_stmt ''SELECT'' GroupRead) (Some sample_rules) ''pg'' = Some d \<and> dd_MatchingEffectGroup d = GroupRead
     \<and> dd_Redirect d = Some rd \<and> isCanonicalRelationName (rd_SourceRelation rd) \<and> isCanonicalRelationName (rd_TargetRelation rd)"
proof -
  have "map_option dd_Verb (Evaluate (simple_stmt ''SELECT'' GroupRead) (Some sample_rules) ''pg'') = Some VerbRedirect" by code_simp
  then obtain d where "Evaluate (simple_stmt ''SELECT'' GroupRead) (Some sample_rules) ''pg'' = Some d" "dd_Verb d = VerbRedirect" by auto
  with redirects_are_reads [OF sample_rules this] show ?thesis by blast
qed

theorem unknown_effects_need_their_name_witness:
  "\<exists>d. Evaluate (simple_stmt ''DO'' GroupUnknown) (Some sample_rules) ''pg'' = Some d \<and> dd_Verb d = VerbDeny"
  by (rule unknown_effects_need_their_name [OF sample_rules, of "simple_effect GroupUnknown"])
    (simp_all add: simple_stmt_def simple_effect_def sample_stmts_def read_rule_def mask_rule_def drop_rule_def zero_StatementRule_def)

end
