(* ===== verification/PreparedCache.thy ===== *)
theory PreparedCache
  imports DbPolicy
begin

text \<open>
  The prepared-statement cache of the PostgreSQL proxy (\<^verbatim>\<open>internal/db/proxy/postgres/preparedcache/cache.go\<close>): a
  map from names to elements of a doubly linked list that is kept in order of use. The list of Go's
  \<^verbatim>\<open>container/list\<close> is its sequence of element addresses, with a store from addresses to items, because the map
  and the list share the elements. The cache is shown to implement a bounded list of pairs, most recent first,
  and the contract of a map that may forget entries, on which the proxy relies.
\<close>

section \<open>The cache\<close>

definition DefaultCapacity :: nat where
  "DefaultCapacity = 4096"

type_synonym addr = nat

record 'v Cache =
  c_cap :: nat
  c_order :: "addr list"
  c_byKey :: "string \<rightharpoonup> addr"
  c_items :: "addr \<rightharpoonup> string \<times> 'v"
  c_fresh :: addr

text \<open>\<^verbatim>\<open>PushFront\<close> allocates a new element; \<^verbatim>\<open>MoveToFront\<close>, \<^verbatim>\<open>Remove\<close> and \<^verbatim>\<open>Back\<close> act on the sequence.\<close>

definition MoveToFront :: "addr \<Rightarrow> addr list \<Rightarrow> addr list" where
  "MoveToFront el xs = el # remove1 el xs"

definition cache_New :: "int \<Rightarrow> 'v Cache" where
  "cache_New capacity =
     \<lparr>c_cap = (if capacity \<le> 0 then DefaultCapacity else nat capacity), c_order = [], c_byKey = Map.empty,
      c_items = Map.empty, c_fresh = 0\<rparr>"

definition cache_Put :: "'v Cache \<Rightarrow> string \<Rightarrow> 'v \<Rightarrow> 'v Cache" where
  "cache_Put c name e =
     (case c_byKey c name of
        Some el \<Rightarrow>
          c\<lparr>c_items := (case c_items c el of None \<Rightarrow> c_items c | Some (k, _) \<Rightarrow> (c_items c)(el \<mapsto> (k, e))),
            c_order := MoveToFront el (c_order c)\<rparr>
      | None \<Rightarrow>
          (let el = c_fresh c;
               c1 = c\<lparr>c_items := (c_items c)(el \<mapsto> (name, e)), c_order := el # c_order c,
                      c_byKey := (c_byKey c)(name \<mapsto> el), c_fresh := el + 1\<rparr>
           in if length (c_order c1) > c_cap c1 \<and> c_order c1 \<noteq> []
              then (let oldest = last (c_order c1) in
                    case c_items c1 oldest of
                      None \<Rightarrow> c1
                    | Some (k, _) \<Rightarrow> c1\<lparr>c_order := remove1 oldest (c_order c1), c_byKey := (c_byKey c1)(k := None)\<rparr>)
              else c1))"

definition cache_Get :: "'v Cache \<Rightarrow> string \<Rightarrow> 'v Cache \<times> 'v option" where
  "cache_Get c name =
     (case c_byKey c name of
        None \<Rightarrow> (c, None)
      | Some el \<Rightarrow> (c\<lparr>c_order := MoveToFront el (c_order c)\<rparr>, map_option snd (c_items c el)))"

definition cache_Delete :: "'v Cache \<Rightarrow> string \<Rightarrow> 'v Cache" where
  "cache_Delete c name =
     (case c_byKey c name of
        None \<Rightarrow> c
      | Some el \<Rightarrow> c\<lparr>c_order := remove1 el (c_order c), c_byKey := (c_byKey c)(name := None)\<rparr>)"

definition cache_Clear :: "'v Cache \<Rightarrow> 'v Cache" where
  "cache_Clear c = c\<lparr>c_order := [], c_byKey := Map.empty\<rparr>"

definition cache_Len :: "'v Cache \<Rightarrow> nat" where
  "cache_Len c = length (c_order c)"

section \<open>The invariant\<close>

text \<open>The map and the list hold the same elements, each under its own key, and no more than the capacity.\<close>

definition cache_inv :: "'v Cache \<Rightarrow> bool" where
  "cache_inv c \<longleftrightarrow>
     0 < c_cap c \<and> length (c_order c) \<le> c_cap c \<and> distinct (c_order c) \<and> (\<forall>a \<in> set (c_order c). a < c_fresh c)
   \<and> (\<forall>k a. c_byKey c k = Some a \<longleftrightarrow> a \<in> set (c_order c) \<and> (\<exists>v. c_items c a = Some (k, v)))
   \<and> (\<forall>a \<in> set (c_order c). c_items c a \<noteq> None)"

text \<open>The abstract cache: the pairs in order of use.\<close>

definition entries :: "'v Cache \<Rightarrow> (string \<times> 'v) list" where
  "entries c = map (\<lambda>a. the (c_items c a)) (c_order c)"

definition without :: "string \<Rightarrow> (string \<times> 'v) list \<Rightarrow> (string \<times> 'v) list" where
  "without k xs = filter (\<lambda>(k', _). k' \<noteq> k) xs"

definition lru_put :: "nat \<Rightarrow> string \<Rightarrow> 'v \<Rightarrow> (string \<times> 'v) list \<Rightarrow> (string \<times> 'v) list" where
  "lru_put cap k v xs = take cap ((k, v) # without k xs)"

definition lru_touch :: "string \<Rightarrow> (string \<times> 'v) list \<Rightarrow> (string \<times> 'v) list" where
  "lru_touch k xs = (case map_of xs k of None \<Rightarrow> xs | Some v \<Rightarrow> (k, v) # without k xs)"

lemma cache_invD:
  assumes "cache_inv c"
  shows "0 < c_cap c" "length (c_order c) \<le> c_cap c" "distinct (c_order c)" "a \<in> set (c_order c) \<Longrightarrow> a < c_fresh c"
    "c_byKey c k = Some a \<longleftrightarrow> a \<in> set (c_order c) \<and> (\<exists>v. c_items c a = Some (k, v))"
    "a \<in> set (c_order c) \<Longrightarrow> c_items c a \<noteq> None"
  using assms by (auto simp: cache_inv_def)

lemma cache_New_inv: "cache_inv (cache_New n)"
  by (simp add: cache_inv_def cache_New_def DefaultCapacity_def)

text \<open>Distinct elements have distinct keys.\<close>

lemma cache_keys_inj:
  assumes "cache_inv c" "a \<in> set (c_order c)" "b \<in> set (c_order c)" "c_items c a = Some (k, v)" "c_items c b = Some (k, w)"
  shows "a = b"
proof -
  have "c_byKey c k = Some a" "c_byKey c k = Some b" using assms cache_invD(5) [OF assms(1)] by blast+
  then show ?thesis by simp
qed

lemma entries_without:
  assumes inv: "cache_inv c" and a: "c_byKey c k = Some a"
  shows "without k (entries c) = map (\<lambda>a. the (c_items c a)) (remove1 a (c_order c))"
proof -
  obtain v where av: "a \<in> set (c_order c)" "c_items c a = Some (k, v)" using cache_invD(5) [OF inv, of k a] a by blast
  have "fst (the (c_items c b)) \<noteq> k \<longleftrightarrow> b \<noteq> a" if b: "b \<in> set (c_order c)" for b
  proof -
    obtain k' w where bw: "c_items c b = Some (k', w)" using cache_invD(6) [OF inv b] by auto
    then show ?thesis using cache_keys_inj [OF inv b av(1)] av(2) by auto
  qed
  then have "filter (\<lambda>b. fst (the (c_items c b)) \<noteq> k) (c_order c) = filter (\<lambda>b. b \<noteq> a) (c_order c)"
    by (intro filter_cong) auto
  also have "\<dots> = remove1 a (c_order c)"
    using cache_invD(3) [OF inv] by (auto simp: distinct_remove1_removeAll removeAll_filter_not_eq intro: filter_cong)
  finally show ?thesis by (simp add: without_def entries_def filter_map comp_def case_prod_beta)
qed

lemma entries_absent:
  assumes inv: "cache_inv c" and a: "c_byKey c k = None"
  shows "without k (entries c) = entries c" "map_of (entries c) k = None"
proof -
  have *: "fst (the (c_items c b)) \<noteq> k" if b: "b \<in> set (c_order c)" for b
  proof -
    obtain k' w where "c_items c b = Some (k', w)" using cache_invD(6) [OF inv b] by auto
    with cache_invD(5) [OF inv, of k b] a b show ?thesis by auto
  qed
  then show "without k (entries c) = entries c"
    by (auto simp: without_def entries_def filter_map comp_def case_prod_beta intro: filter_True)
  have "k \<notin> fst ` set (entries c)" unfolding entries_def using * by (simp add: image_image) blast
  then show "map_of (entries c) k = None" by (simp add: map_of_eq_None_iff)
qed

lemma distinct_entries:
  assumes "cache_inv c"
  shows "distinct (map fst (entries c))"
proof -
  have "inj_on (\<lambda>a. fst (the (c_items c a))) (set (c_order c))"
  proof (rule inj_onI)
    fix a b assume ab: "a \<in> set (c_order c)" "b \<in> set (c_order c)" "fst (the (c_items c a)) = fst (the (c_items c b))"
    obtain k v l w where "c_items c a = Some (k, v)" "c_items c b = Some (l, w)"
      using cache_invD(6) [OF assms ab(1)] cache_invD(6) [OF assms ab(2)] by auto
    with ab cache_keys_inj [OF assms ab(1,2)] show "a = b" by auto
  qed
  then show ?thesis using cache_invD(3) [OF assms] by (simp add: entries_def comp_def distinct_map)
qed

lemma map_of_entries:
  assumes inv: "cache_inv c"
  shows "map_of (entries c) k = (case c_byKey c k of None \<Rightarrow> None | Some a \<Rightarrow> map_option snd (c_items c a))"
proof (cases "c_byKey c k")
  case None
  then show ?thesis using entries_absent(2) [OF inv] by simp
next
  case (Some a)
  then obtain v where av: "a \<in> set (c_order c)" "c_items c a = Some (k, v)" using cache_invD(5) [OF inv, of k a] by blast
  then have "(k, v) \<in> set (entries c)" by (force simp: entries_def)
  then have "map_of (entries c) k = Some v" by (rule map_of_is_SomeI [OF distinct_entries [OF inv]])
  with Some av show ?thesis by simp
qed

section \<open>Refinement\<close>

lemma items_update_entries:
  assumes "el \<notin> set xs"
  shows "map (\<lambda>a. the (((f :: addr \<rightharpoonup> string \<times> 'v)(el \<mapsto> x)) a)) xs = map (\<lambda>a. the (f a)) xs"
  using assms by auto

lemma length_without: "length (without k xs) \<le> length xs"
  by (simp add: without_def)

lemma cache_Put_hit:
  assumes inv: "cache_inv c" and el: "c_byKey c k = Some el"
  shows "entries (cache_Put c k v) = lru_put (c_cap c) k v (entries c) \<and> cache_inv (cache_Put c k v)"
proof -
  obtain w where w: "el \<in> set (c_order c)" "c_items c el = Some (k, w)" using cache_invD(5) [OF inv, of k el] el by blast
  have c': "cache_Put c k v = c\<lparr>c_items := (c_items c)(el \<mapsto> (k, v)), c_order := el # remove1 el (c_order c)\<rparr>"
    using el w by (simp add: cache_Put_def MoveToFront_def)
  have notin: "el \<notin> set (remove1 el (c_order c))" using cache_invD(3) [OF inv] by simp
  have "length (remove1 el (c_order c)) < c_cap c"
  proof -
    have "length (remove1 el (c_order c)) = length (c_order c) - 1" using w(1) by (simp add: length_remove1)
    with cache_invD(1,2) [OF inv] show ?thesis by linarith
  qed
  then have "entries (cache_Put c k v) = lru_put (c_cap c) k v (entries c)"
    using entries_without [OF inv el]
    by (simp add: c' entries_def lru_put_def items_update_entries [OF notin] fun_upd_same del: fun_upd_apply)
  moreover have "cache_inv (cache_Put c k v)"
    using inv w notin by (auto simp: c' cache_inv_def length_remove1)
  ultimately show ?thesis by simp
qed

lemma cache_Put_miss:
  assumes inv: "cache_inv c" and el: "c_byKey c k = None"
  shows "entries (cache_Put c k v) = lru_put (c_cap c) k v (entries c) \<and> cache_inv (cache_Put c k v)"
proof -
  let ?el = "c_fresh c"
  define c1 where "c1 = c\<lparr>c_items := (c_items c)(?el \<mapsto> (k, v)), c_order := ?el # c_order c,
                      c_byKey := (c_byKey c)(k \<mapsto> ?el), c_fresh := ?el + 1\<rparr>"
  have fresh: "?el \<notin> set (c_order c)" using cache_invD(4) [OF inv] by blast
  have e1: "entries c1 = (k, v) # entries c"
    using fresh by (auto simp: c1_def entries_def)
  have lru: "lru_put (c_cap c) k v (entries c) = take (c_cap c) (entries c1)"
    using entries_absent(1) [OF inv el] by (simp add: lru_put_def e1)
  have nokey: "\<forall>a \<in> set (c_order c). \<forall>w. c_items c a \<noteq> Some (k, w)"
    using cache_invD(5) [OF inv, of k] el by auto
  have len1: "length (c_order c1) = Suc (length (c_order c))" by (simp add: c1_def)
  show ?thesis
  proof (cases "length (c_order c1) > c_cap c1")
    case False
    then have "cache_Put c k v = c1" using el by (simp add: cache_Put_def Let_def c1_def)
    moreover have "cache_inv c1"
      using inv fresh nokey False by (auto simp: c1_def cache_inv_def)
    moreover have "take (c_cap c) (entries c1) = entries c1" using False by (simp add: entries_def c1_def)
    ultimately show ?thesis using lru by simp
  next
    case True
    then have full: "length (c_order c) = c_cap c" using cache_invD(2) [OF inv] by (simp add: c1_def)
    then have ne: "c_order c \<noteq> []" using cache_invD(1) [OF inv] by auto
    let ?old = "last (c_order c)"
    have old: "?old \<in> set (c_order c)" by (rule last_in_set [OF ne])
    have oldel: "?old \<noteq> ?el" using old fresh by metis
    obtain l w where lw: "c_items c ?old = Some (l, w)" using cache_invD(6) [OF inv old] by auto
    have rem: "remove1 ?old (c_order c1) = ?el # butlast (c_order c)"
    proof -
      have "c_order c = butlast (c_order c) @ [?old]" using ne by simp
      moreover have "?old \<notin> set (butlast (c_order c))"
        using cache_invD(3) [OF inv] ne by (metis append_butlast_last_id distinct_append IntI empty_iff last_in_set list.set_intros(1) not_distinct_conv_prefix)
      ultimately have "remove1 ?old (c_order c) = butlast (c_order c)" by (metis remove1_append remove1.simps(2) append_Nil2)
      then show ?thesis using oldel by (simp add: c1_def)
    qed
    have c': "cache_Put c k v = c1\<lparr>c_order := ?el # butlast (c_order c), c_byKey := (c_byKey c1)(l := None)\<rparr>"
    proof -
      have "last (c_order c1) = ?old" using ne by (simp add: c1_def)
      moreover have "c_items c1 ?old = Some (l, w)" using oldel lw by (simp add: c1_def)
      ultimately show ?thesis
        using True el rem unfolding cache_Put_def Let_def by (simp add: c1_def)
    qed
    have "take (c_cap c) (c_order c1) = ?el # butlast (c_order c)"
      using full cache_invD(1) [OF inv] by (cases "c_cap c") (simp_all add: c1_def butlast_conv_take)
    then have "entries (cache_Put c k v) = take (c_cap c) (entries c1)"
      by (simp add: c' entries_def take_map)
    moreover have "cache_inv (cache_Put c k v)"
    proof -
      have bl: "set (butlast (c_order c)) = set (c_order c) - {?old}" "distinct (butlast (c_order c))"
      proof -
        have "c_order c = butlast (c_order c) @ [?old]" using ne by simp
        moreover have "distinct (butlast (c_order c) @ [?old])" using cache_invD(3) [OF inv] ne by simp
        ultimately show "set (butlast (c_order c)) = set (c_order c) - {?old}" "distinct (butlast (c_order c))"
          by (metis Diff_insert_absorb distinct.simps(2) distinct1_rotate list.simps(15) rotate1.simps(2) set_rotate1)
            (simp add: distinct_butlast cache_invD(3) [OF inv])
      qed
      have lk: "l \<noteq> k" using nokey old lw by auto
      have "((c_byKey c1)(l := None)) k' = Some a \<longleftrightarrow>
          a \<in> set (?el # butlast (c_order c)) \<and> (\<exists>v'. c_items c1 a = Some (k', v'))" for k' a
      proof (cases "k' = l")
        case True
        have "a = ?old" if "a \<in> set (c_order c)" "c_items c a = Some (l, v')" for v'
          using cache_keys_inj [OF inv that(1) old that(2) lw] .
        with True lk bl(1) fresh show ?thesis by (auto simp: c1_def)
      next
        case False
        then show ?thesis
          using bl(1) lw fresh nokey cache_invD(5) [OF inv, of k' a] by (auto simp: c1_def)
      qed
      moreover have "length (?el # butlast (c_order c)) \<le> c_cap c" using full cache_invD(1) [OF inv] by simp
      moreover have "distinct (?el # butlast (c_order c))" using bl fresh by auto
      moreover have "\<forall>a \<in> set (?el # butlast (c_order c)). a < ?el + 1 \<and> c_items c1 a \<noteq> None"
        using bl(1) cache_invD(4,6) [OF inv] by (force simp: c1_def)
      ultimately show ?thesis
        using cache_invD(1) [OF inv] unfolding cache_inv_def c' by (simp add: c1_def del: fun_upd_apply)
    qed
    ultimately show ?thesis using lru by simp
  qed
qed

lemma cache_Get_refines:
  assumes inv: "cache_inv c"
  shows "entries (fst (cache_Get c k)) = lru_touch k (entries c) \<and> snd (cache_Get c k) = map_of (entries c) k
    \<and> cache_inv (fst (cache_Get c k))"
proof (cases "c_byKey c k")
  case None
  then show ?thesis using inv entries_absent(2) [OF inv None] by (simp add: cache_Get_def lru_touch_def)
next
  case (Some el)
  obtain w where w: "el \<in> set (c_order c)" "c_items c el = Some (k, w)" using cache_invD(5) [OF inv, of k el] Some by blast
  have m: "map_of (entries c) k = Some w" using map_of_entries [OF inv, of k] Some w by simp
  have c': "fst (cache_Get c k) = c\<lparr>c_order := el # remove1 el (c_order c)\<rparr>" "snd (cache_Get c k) = Some w"
    using Some w by (simp_all add: cache_Get_def MoveToFront_def)
  have "entries (fst (cache_Get c k)) = lru_touch k (entries c)"
    using entries_without [OF inv Some] w m by (simp add: c' entries_def lru_touch_def)
  moreover have "cache_inv (fst (cache_Get c k))"
    using inv w by (auto simp: c' cache_inv_def length_remove1)
  ultimately show ?thesis using c' m by simp
qed

lemma cache_Delete_refines:
  assumes inv: "cache_inv c"
  shows "entries (cache_Delete c k) = without k (entries c) \<and> cache_inv (cache_Delete c k)"
proof (cases "c_byKey c k")
  case None
  then show ?thesis using inv entries_absent(1) [OF inv None] by (simp add: cache_Delete_def)
next
  case (Some el)
  obtain w where w: "el \<in> set (c_order c)" "c_items c el = Some (k, w)" using cache_invD(5) [OF inv, of k el] Some by blast
  have c': "cache_Delete c k = c\<lparr>c_order := remove1 el (c_order c), c_byKey := (c_byKey c)(k := None)\<rparr>"
    using Some by (simp add: cache_Delete_def)
  have set': "set (remove1 el (c_order c)) = set (c_order c) - {el}" using cache_invD(3) [OF inv] by simp
  have "((c_byKey c)(k := None)) k' = Some a \<longleftrightarrow> a \<in> set (remove1 el (c_order c)) \<and> (\<exists>v. c_items c a = Some (k', v))" for k' a
  proof (cases "k' = k")
    case True
    have "a = el" if "a \<in> set (c_order c)" "c_items c a = Some (k, v)" for v
      using cache_keys_inj [OF inv that(1) w(1) that(2) w(2)] .
    with True set' show ?thesis by auto
  next
    case False
    have "a \<noteq> el" if "c_items c a = Some (k', v)" for v using that w(2) False by auto
    with set' have "a \<in> set (remove1 el (c_order c)) \<and> (\<exists>v. c_items c a = Some (k', v)) \<longleftrightarrow>
        a \<in> set (c_order c) \<and> (\<exists>v. c_items c a = Some (k', v))" by blast
    with False cache_invD(5) [OF inv, of k' a] show ?thesis by simp
  qed
  moreover have "length (remove1 el (c_order c)) \<le> c_cap c"
    using cache_invD(2) [OF inv] length_remove1 [of el "c_order c"] by (simp split: if_splits)
  moreover have "distinct (remove1 el (c_order c))" using cache_invD(3) [OF inv] by simp
  ultimately have "cache_inv (cache_Delete c k)"
    using cache_invD(1,4,6) [OF inv] set' unfolding cache_inv_def c' by (simp del: fun_upd_apply)
  moreover have "entries (cache_Delete c k) = without k (entries c)"
    using entries_without [OF inv Some] by (simp add: c' entries_def)
  ultimately show ?thesis by simp
qed

lemma cache_Put_refines:
  "cache_inv c \<Longrightarrow> entries (cache_Put c k v) = lru_put (c_cap c) k v (entries c) \<and> cache_inv (cache_Put c k v)"
  by (cases "c_byKey c k") (simp_all add: cache_Put_hit cache_Put_miss)

lemma cache_Put_cap [simp]: "c_cap (cache_Put c k v) = c_cap c"
  by (simp add: cache_Put_def Let_def split: option.splits)

lemma cache_ops_cap [simp]: "c_cap (fst (cache_Get c k)) = c_cap c" "c_cap (cache_Delete c k) = c_cap c" "c_cap (cache_Clear c) = c_cap c"
  by (simp_all add: cache_Get_def cache_Delete_def cache_Clear_def split: option.splits)

lemma cache_Clear_refines: "cache_inv c \<Longrightarrow> entries (cache_Clear c) = [] \<and> cache_inv (cache_Clear c)"
  by (simp add: cache_Clear_def entries_def cache_inv_def)

lemma cache_Len_entries: "cache_Len c = length (entries c)"
  by (simp add: cache_Len_def entries_def)

datatype 'v cache_op = OpPut string 'v | OpGet string | OpDelete string | OpClear

fun cache_step :: "'v Cache \<Rightarrow> 'v cache_op \<Rightarrow> 'v Cache" where
  "cache_step c (OpPut k v) = cache_Put c k v"
| "cache_step c (OpGet k) = fst (cache_Get c k)"
| "cache_step c (OpDelete k) = cache_Delete c k"
| "cache_step c OpClear = cache_Clear c"

fun lru_step :: "nat \<Rightarrow> (string \<times> 'v) list \<Rightarrow> 'v cache_op \<Rightarrow> (string \<times> 'v) list" where
  "lru_step cap xs (OpPut k v) = lru_put cap k v xs"
| "lru_step cap xs (OpGet k) = lru_touch k xs"
| "lru_step cap xs (OpDelete k) = without k xs"
| "lru_step cap xs OpClear = []"

lemma cache_step_refines:
  assumes "cache_inv c"
  shows "entries (cache_step c op) = lru_step (c_cap c) (entries c) op \<and> cache_inv (cache_step c op) \<and> c_cap (cache_step c op) = c_cap c"
  using assms cache_invD(1) [OF assms]
  by (cases op) (simp_all add: cache_Put_refines cache_Get_refines cache_Delete_refines cache_Clear_refines)

lemma cache_run:
  "cache_inv c \<Longrightarrow> entries (foldl cache_step c ops) = foldl (lru_step (c_cap c)) (entries c) ops \<and> cache_inv (foldl cache_step c ops)
     \<and> c_cap (foldl cache_step c ops) = c_cap c"
proof (induction ops arbitrary: c)
  case (Cons op ops)
  from cache_step_refines [OF Cons.prems, of op] Cons.IH [of "cache_step c op"] show ?case by simp
qed simp

lemma cache_New_entries: "entries (cache_New n) = []"
  by (simp add: entries_def cache_New_def)

lemma cache_run_lru:
  fixes ops :: "'v cache_op list" and n :: int
  defines "c \<equiv> foldl cache_step (cache_New n) ops"
  shows "entries c = foldl (lru_step (c_cap (cache_New n :: 'v Cache))) [] ops
    \<and> snd (cache_Get c k) = map_of (entries c) k
    \<and> cache_Len c = length (entries c) \<and> cache_Len c \<le> c_cap (cache_New n :: 'v Cache) \<and> distinct (map fst (entries c))"
proof -
  have r: "entries c = foldl (lru_step (c_cap (cache_New n :: 'v Cache))) [] ops" "cache_inv c" "c_cap c = c_cap (cache_New n :: 'v Cache)"
    using cache_run [OF cache_New_inv, of n ops] by (simp_all add: c_def cache_New_entries)
  have "cache_Len c \<le> c_cap (cache_New n :: 'v Cache)" using cache_invD(2) [OF r(2)] r(3) by (simp add: cache_Len_def)
  with r(1) cache_Get_refines [OF r(2), of k] distinct_entries [OF r(2)] cache_Len_entries [of c] show ?thesis by (intro conjI) auto
qed

text \<open>C15: After any sequence of operations on a new cache, the linked list, map and items of the implementation hold exactly the entries a
  plain list of bindings in order of recency holds; a lookup returns the binding of the key, and there are never more entries than the
  capacity nor two for the same key.\<close>

theorem cache_refines_lru:
  "let cap = c_cap (cache_New n :: 'v Cache); c = foldl cache_step (cache_New n :: 'v Cache) ops
   in entries c = foldl (lru_step cap) [] ops \<and> snd (cache_Get c k) = map_of (entries c) k
    \<and> cache_Len c = length (entries c) \<and> cache_Len c \<le> cap \<and> distinct (map fst (entries c))"
  unfolding Let_def by (rule cache_run_lru)

section \<open>The contract the proxy relies on\<close>

text \<open>A map that may forget: a lookup after an insertion of another key gives the old value or nothing.\<close>

locale forgetful_map =
  fixes inv :: "'s \<Rightarrow> bool"
    and look :: "'s \<Rightarrow> string \<Rightarrow> 'v option"
    and ins :: "'s \<Rightarrow> string \<Rightarrow> 'v \<Rightarrow> 's"
    and touch :: "'s \<Rightarrow> string \<Rightarrow> 's \<times> 'v option"
    and del :: "'s \<Rightarrow> string \<Rightarrow> 's"
  assumes ins_inv: "inv s \<Longrightarrow> inv (ins s k v)"
    and ins_same: "inv s \<Longrightarrow> look (ins s k v) k = Some v"
    and ins_other: "inv s \<Longrightarrow> k' \<noteq> k \<Longrightarrow> look (ins s k v) k' = Some w \<Longrightarrow> look s k' = Some w"
    and touch_inv: "inv s \<Longrightarrow> inv (fst (touch s k))"
    and touch_look: "inv s \<Longrightarrow> look (fst (touch s k)) = look s"
    and touch_val: "inv s \<Longrightarrow> snd (touch s k) = look s k"
    and del_inv: "inv s \<Longrightarrow> inv (del s k)"
    and del_look: "inv s \<Longrightarrow> look (del s k) = (look s)(k := None)"
begin

definition all_entries :: "(string \<Rightarrow> 'v \<Rightarrow> bool) \<Rightarrow> 's \<Rightarrow> bool" where
  "all_entries P s \<longleftrightarrow> inv s \<and> (\<forall>k v. look s k = Some v \<longrightarrow> P k v)"

lemma all_entries_ins: "all_entries P s \<Longrightarrow> P k v \<Longrightarrow> all_entries P (ins s k v)"
  unfolding all_entries_def using ins_inv ins_same ins_other by (metis option.inject)

lemma all_entries_touch: "all_entries P s \<Longrightarrow> all_entries P (fst (touch s k))"
  unfolding all_entries_def using touch_inv touch_look by simp

lemma all_entries_del: "all_entries P s \<Longrightarrow> all_entries P (del s k)"
  unfolding all_entries_def using del_inv by (simp add: del_look)

lemma all_entries_touch_val: "all_entries P s \<Longrightarrow> snd (touch s k) = Some v \<Longrightarrow> P k v"
  unfolding all_entries_def using touch_val by metis

lemma all_entries_mono: "all_entries P s \<Longrightarrow> (\<And>k v. P k v \<Longrightarrow> Q k v) \<Longrightarrow> all_entries Q s"
  unfolding all_entries_def by blast

end

definition cache_look :: "'v Cache \<Rightarrow> string \<Rightarrow> 'v option" where
  "cache_look c k = map_of (entries c) k"

lemma map_of_without: "map_of (without k xs) = (map_of xs)(k := None)"
  by (induction xs) (auto simp: without_def fun_eq_iff)

lemma map_of_take: "distinct (map fst xs) \<Longrightarrow> map_of (take n xs) k = Some v \<Longrightarrow> map_of xs k = Some v"
proof -
  assume d: "distinct (map fst xs)" and m: "map_of (take n xs) k = Some v"
  from m have "(k, v) \<in> set xs" by (metis map_of_SomeD in_set_takeD)
  with d show ?thesis by simp
qed

lemma lru_put_look:
  assumes "0 < cap" "distinct (map fst xs)"
  shows "map_of (lru_put cap k v xs) k = Some v"
    and "k' \<noteq> k \<Longrightarrow> map_of (lru_put cap k v xs) k' = Some w \<Longrightarrow> map_of xs k' = Some w"
proof -
  show "map_of (lru_put cap k v xs) k = Some v" using assms(1) by (cases cap) (simp_all add: lru_put_def)
  assume k: "k' \<noteq> k" and m: "map_of (lru_put cap k v xs) k' = Some w"
  have "distinct (map fst (without k xs))" unfolding without_def using assms(2) by (rule distinct_map_filter)
  then have "distinct (map fst ((k, v) # without k xs))" by (auto simp: without_def)
  from map_of_take [OF this] m have "map_of ((k, v) # without k xs) k' = Some w" by (simp add: lru_put_def)
  with k show "map_of xs k' = Some w" by (simp add: map_of_without)
qed

lemma lru_touch_look: "map_of (lru_touch k xs) = map_of xs"
  by (auto simp: lru_touch_def map_of_without fun_eq_iff split: option.splits)

interpretation lru: forgetful_map cache_inv cache_look cache_Put cache_Get cache_Delete
proof (unfold_locales, goal_cases)
  case (3 s k' k v w)
  then show ?case
    using lru_put_look(2) [OF cache_invD(1) distinct_entries] by (simp add: cache_look_def cache_Put_refines)
qed (simp_all add: cache_look_def cache_Put_refines cache_Get_refines cache_Delete_refines lru_put_look(1) [OF cache_invD(1) distinct_entries]
    lru_touch_look map_of_without fun_eq_iff)

end
