(* ===== verification/DbStateMachine.thy ===== *)
theory DbStateMachine
  imports DbPolicyLoad PreparedCache
begin

text \<open>
  The Extended Query and transaction state machine of the PostgreSQL proxy
  (\<^verbatim>\<open>internal/db/proxy/postgres/statemachine\<close>) and the view of the prepared-statement cache the dispatcher gives
  it (\<^verbatim>\<open>extquery.go\<close>). \<^verbatim>\<open>Transition\<close> is a function of the connection state, the frame, the cache and the policy;
  the classifier, which calls the PostgreSQL parser library, is a parameter. A byte of the protocol is a
  \<^typ>\<open>char\<close>, the zero byte being the status before the first \<^verbatim>\<open>ReadyForQuery\<close>. The Go interface \<^verbatim>\<open>CacheView\<close> is a
  record of its methods.
\<close>

section \<open>States, frames and actions\<close>

datatype Phase = PhasePreAuth | PhaseIdle | PhaseInQuery | PhaseInTx | PhaseInTxError | PhaseInCopyIn | PhaseInCopyOut

record ConnState =
  sm_Phase :: Phase
  sm_LastUpstreamRFQ :: char
  sm_Absorbing :: bool
  sm_UpstreamDirtySinceSync :: bool
  sm_TxStartedAt :: "int option"

definition zero_ConnState :: ConnState where
  "zero_ConnState = \<lparr>sm_Phase = PhasePreAuth, sm_LastUpstreamRFQ = CHR 0x00, sm_Absorbing = False,
     sm_UpstreamDirtySinceSync = False, sm_TxStartedAt = None\<rparr>"

datatype Frame =
    QueryFrame string
  | ParseFrame string string
  | BindFrame string string
  | DescribeFrame char string
  | ExecuteFrame string
  | SyncFrame
  | FlushFrame
  | CloseFrame char string
  | TerminateFrame
  | FunctionCallFrame nat
  | CopyDataFrame string
  | CopyDoneFrame
  | CopyFailFrame string

datatype Action =
    ActionForward
  | ActionSynthError (SQLState: string) (Message: string) (Severity: string)
  | ActionSynthReadyForQuery char
  | ActionSynthParseComplete
  | ActionSynthBindComplete
  | ActionSuppress
  | ActionInjectRollback
  | ActionDrainUntilRFQ
  | ActionClose
  | ActionTrackUpstreamRFQ char
  | ActionApproverWait Duration ClassifiedStatement StatementRule

record CacheValue =
  cval_Verb :: string
  cval_GroupID :: nat
  cval_OpaqueID :: string
  cval_CatalogRefreshSearchPath :: bool
  cval_CatalogRefreshSnapshot :: bool

record 'c CacheView =
  view_Get :: "'c \<Rightarrow> string \<Rightarrow> 'c \<times> CacheValue option"
  view_Put :: "'c \<Rightarrow> string \<Rightarrow> CacheValue \<Rightarrow> 'c"
  view_Delete :: "'c \<Rightarrow> string \<Rightarrow> 'c"
  view_Clear :: "'c \<Rightarrow> 'c"

section \<open>Denials\<close>

definition DenyRoute :: "ConnState \<Rightarrow> StatementRule \<Rightarrow> string \<Rightarrow> string \<Rightarrow> Action list" where
  "DenyRoute s rule msg sqlstate =
     (if sm_LastUpstreamRFQ s = CHR ''T'' \<or> sm_LastUpstreamRFQ s = CHR ''E'' then
        (if stm_DenyModeInTx rule = ''rollback_then_continue''
         then [ActionSynthError sqlstate msg [], ActionInjectRollback, ActionDrainUntilRFQ, ActionSynthReadyForQuery (CHR ''I'')]
         else [ActionSynthError sqlstate msg ''FATAL'', ActionClose])
      else if sm_UpstreamDirtySinceSync s
        then [ActionSynthError sqlstate msg [], ActionDrainUntilRFQ]
      else [ActionSynthError sqlstate msg [], ActionSynthReadyForQuery (CHR ''I'')])"

definition AllStatementRules :: "RuleSet \<Rightarrow> StatementRule list" where
  "AllStatementRules rs = map csr_src (rset_statement rs)"

definition lookupStatementRule :: "RuleSet option \<Rightarrow> string \<Rightarrow> StatementRule" where
  "lookupStatementRule rs name =
     (case rs of None \<Rightarrow> zero_StatementRule
      | Some rs \<Rightarrow>
          if name = [] then zero_StatementRule
          else (case List.find (\<lambda>r. stm_Name r = name) (AllStatementRules rs) of None \<Rightarrow> zero_StatementRule | Some r \<Rightarrow> r))"

definition renderDenyMessage :: "DbDecision \<Rightarrow> string" where
  "renderDenyMessage d =
     (if dd_RuleName d \<noteq> [] then ''denied by AgentSH policy: '' @ dd_RuleName d
      else if dd_Reason d \<noteq> [] then ''denied by AgentSH policy: '' @ dd_Reason d
      else ''denied by AgentSH policy'')"

definition sqlstateForDecision :: "DbDecision \<Rightarrow> string" where
  "sqlstateForDecision d = (if dd_RuleKind d = RuleKindConnection then ''28000'' else ''42501'')"

definition containsClose :: "Action list \<Rightarrow> bool" where
  "containsClose acts \<longleftrightarrow> list_ex (\<lambda>a. a = ActionClose) acts"

definition newApproverWaitAction :: "DbDecision \<Rightarrow> ClassifiedStatement \<Rightarrow> StatementRule \<Rightarrow> Action" where
  "newApproverWaitAction d cs rule =
     (let t0 = stm_Timeout rule;
          t1 = (case dd_Approval d of Some a \<Rightarrow> (if t0 = 0 then ar_Timeout a else t0) | None \<Rightarrow> t0);
          t2 = (if t1 = 0 then 60 * 1000000000 else t1)
      in ActionApproverWait t2 cs rule)"

text \<open>The loop over the statements of a frame, which stops at the first one to approve or to deny.\<close>

datatype scan = ScanPass | ScanApprove DbDecision ClassifiedStatement | ScanDeny DbDecision

fun scanStatements :: "RuleSet option \<Rightarrow> ServiceID \<Rightarrow> ClassifiedStatement list \<Rightarrow> scan option" where
  "scanStatements rules svc [] = Some ScanPass"
| "scanStatements rules svc (cs # rest) =
     (case Evaluate cs rules svc of
        None \<Rightarrow> None
      | Some d \<Rightarrow>
          if dd_Verb d = VerbApprove then Some (ScanApprove d cs)
          else if dd_Verb d = VerbDeny then Some (ScanDeny d)
          else scanStatements rules svc rest)"

section \<open>Frame handlers\<close>

definition handleSync :: "ConnState \<Rightarrow> ConnState \<times> Action list" where
  "handleSync s =
     (if \<not> sm_Absorbing s \<and> \<not> sm_UpstreamDirtySinceSync s then (s, [ActionForward])
      else if sm_Absorbing s \<and> sm_UpstreamDirtySinceSync s
        then (s\<lparr>sm_Absorbing := False, sm_UpstreamDirtySinceSync := False\<rparr>, [ActionForward, ActionDrainUntilRFQ])
      else if sm_Absorbing s \<and> \<not> sm_UpstreamDirtySinceSync s
        then (s\<lparr>sm_Absorbing := False\<rparr>, [ActionSynthReadyForQuery (CHR ''I'')])
      else (s\<lparr>sm_UpstreamDirtySinceSync := False\<rparr>, [ActionForward, ActionDrainUntilRFQ]))"

definition portalCacheKey :: "string \<Rightarrow> string" where
  "portalCacheKey name = CHR 0x00 # ''portal:'' @ name"

definition cacheValueOf :: "ClassifiedStatement list \<Rightarrow> CacheValue" where
  "cacheValueOf stmts =
     \<lparr>cval_Verb = (case stmts of [] \<Rightarrow> [] | cs # _ \<Rightarrow> cst_RawVerb cs),
      cval_GroupID = (case stmts of [] \<Rightarrow> 0 | cs # _ \<Rightarrow> (case cst_Effects cs of [] \<Rightarrow> 0 | e # _ \<Rightarrow> Group_ID (e_Group e))),
      cval_OpaqueID = [], cval_CatalogRefreshSearchPath = False, cval_CatalogRefreshSnapshot = False\<rparr>"

definition handleParse :: "'c CacheView \<Rightarrow> (string \<Rightarrow> ClassifiedStatement list) \<Rightarrow> RuleSet option \<Rightarrow> ServiceID \<Rightarrow> ConnState \<Rightarrow> 'c \<Rightarrow> string \<Rightarrow> string \<Rightarrow> (ConnState \<times> 'c \<times> Action list) option" where
  "handleParse view classify rules svc s cache name sql =
     (if sm_Absorbing s then Some (s, cache, [ActionSuppress])
      else let stmts = classify sql in
        case scanStatements rules svc stmts of
          None \<Rightarrow> None
        | Some (ScanApprove d cs) \<Rightarrow>
            Some (s, cache, [newApproverWaitAction d cs (lookupStatementRule rules (dd_RuleName d))])
        | Some (ScanDeny d) \<Rightarrow>
            (let actions = DenyRoute s (lookupStatementRule rules (dd_RuleName d)) (renderDenyMessage d) (sqlstateForDecision d) in
             Some (if containsClose actions then s else s\<lparr>sm_Absorbing := True\<rparr>, cache, actions))
        | Some ScanPass \<Rightarrow>
            Some (s\<lparr>sm_UpstreamDirtySinceSync := True\<rparr>, view_Put view cache name (cacheValueOf stmts), [ActionForward]))"

definition handleBind :: "'c CacheView \<Rightarrow> ConnState \<Rightarrow> 'c \<Rightarrow> string \<Rightarrow> string \<Rightarrow> ConnState \<times> 'c \<times> Action list" where
  "handleBind view s cache portal statement =
     (if sm_Absorbing s then (s, cache, [ActionSuppress])
      else case view_Get view cache statement of
        (cache1, None) \<Rightarrow>
          (s\<lparr>sm_Absorbing := True\<rparr>, cache1,
           [ActionSynthError ''34000'' (''prepared statement '' @ [CHR 0x22] @ statement @ [CHR 0x22] @ '' does not exist'') []])
      | (cache1, Some entry) \<Rightarrow>
          (s\<lparr>sm_UpstreamDirtySinceSync := True\<rparr>, view_Put view cache1 (portalCacheKey portal) entry, [ActionForward]))"

definition handleDescribe :: "ConnState \<Rightarrow> ConnState \<times> Action list" where
  "handleDescribe s =
     (if sm_Absorbing s then (s, [ActionSuppress]) else (s\<lparr>sm_UpstreamDirtySinceSync := True\<rparr>, [ActionForward]))"

definition handleExecute :: "'c CacheView \<Rightarrow> ConnState \<Rightarrow> 'c \<Rightarrow> string \<Rightarrow> ConnState \<times> 'c \<times> Action list" where
  "handleExecute view s cache portal =
     (if sm_Absorbing s then (s, cache, [ActionSuppress])
      else case view_Get view cache (portalCacheKey portal) of
        (cache1, None) \<Rightarrow>
          (s\<lparr>sm_Absorbing := True\<rparr>, cache1,
           [ActionSynthError ''34000'' (''portal '' @ [CHR 0x22] @ portal @ [CHR 0x22] @ '' does not exist'') []])
      | (cache1, Some _) \<Rightarrow> (s\<lparr>sm_UpstreamDirtySinceSync := True\<rparr>, cache1, [ActionForward]))"

definition handleFlush :: "ConnState \<Rightarrow> ConnState \<times> Action list" where
  "handleFlush s = (if sm_Absorbing s then (s, [ActionSuppress]) else (s, [ActionForward]))"

definition handleClose :: "'c CacheView \<Rightarrow> ConnState \<Rightarrow> 'c \<Rightarrow> char \<Rightarrow> string \<Rightarrow> ConnState \<times> 'c \<times> Action list" where
  "handleClose view s cache objectType name =
     (if sm_Absorbing s then (s, cache, [ActionSuppress])
      else (s\<lparr>sm_UpstreamDirtySinceSync := True\<rparr>,
            if objectType = CHR ''S'' then view_Delete view cache name
            else if objectType = CHR ''P'' then view_Delete view cache (portalCacheKey name)
            else cache,
            [ActionForward]))"

definition handleQuery :: "(string \<Rightarrow> ClassifiedStatement list) \<Rightarrow> RuleSet option \<Rightarrow> ServiceID \<Rightarrow> ConnState \<Rightarrow> string \<Rightarrow> (ConnState \<times> Action list) option" where
  "handleQuery classify rules svc s sql =
     (if sm_Absorbing s then Some (s, [ActionSuppress])
      else case scanStatements rules svc (classify sql) of
        None \<Rightarrow> None
      | Some (ScanApprove d cs) \<Rightarrow> Some (s, [newApproverWaitAction d cs (lookupStatementRule rules (dd_RuleName d))])
      | Some ScanPass \<Rightarrow> Some (s, [ActionForward])
      | Some (ScanDeny d) \<Rightarrow>
          Some (s, DenyRoute s (lookupStatementRule rules (dd_RuleName d)) (renderDenyMessage d) (sqlstateForDecision d)))"

text \<open>\<open>None\<close> stands for a panic of the evaluator, which never happens (\<open>Transition_total\<close> below).\<close>

definition TransitionWithParser :: "'c CacheView \<Rightarrow> (string \<Rightarrow> ClassifiedStatement list) \<Rightarrow> RuleSet option \<Rightarrow> ServiceID \<Rightarrow> ConnState \<Rightarrow> 'c \<Rightarrow> Frame \<Rightarrow> (ConnState \<times> 'c \<times> Action list) option" where
  "TransitionWithParser view classify rules svc s cache frame =
     (case frame of
        SyncFrame \<Rightarrow> (case handleSync s of (s', acts) \<Rightarrow> Some (s', cache, acts))
      | QueryFrame sql \<Rightarrow> map_option (\<lambda>(s', acts). (s', cache, acts)) (handleQuery classify rules svc s sql)
      | ParseFrame name sql \<Rightarrow> handleParse view classify rules svc s cache name sql
      | BindFrame portal statement \<Rightarrow> Some (handleBind view s cache portal statement)
      | DescribeFrame _ _ \<Rightarrow> (case handleDescribe s of (s', acts) \<Rightarrow> Some (s', cache, acts))
      | ExecuteFrame portal \<Rightarrow> Some (handleExecute view s cache portal)
      | FlushFrame \<Rightarrow> (case handleFlush s of (s', acts) \<Rightarrow> Some (s', cache, acts))
      | CloseFrame objectType name \<Rightarrow> Some (handleClose view s cache objectType name)
      | TerminateFrame \<Rightarrow> Some (s, cache, [ActionForward, ActionClose])
      | _ \<Rightarrow> Some (s, cache, [ActionSynthError ''0A000'' ''frame not supported'' [], ActionClose]))"

section \<open>The wire cache as a cache view\<close>

datatype RedactionTier = RedactNone | RedactParametersRedacted | RedactFull

record RedirectMetadata =
  rmd_OriginalClassification :: ClassifiedStatement
  rmd_OriginalSQL :: string
  rmd_OriginalStatementDigest :: string
  rmd_RewrittenStatementDigest :: string
  rmd_Rule :: string
  rmd_SourceRelation :: string
  rmd_TargetRelation :: string
  rmd_PolicyIdentity :: string

record cache_Entry =
  ent_Classification :: ClassifiedStatement
  ent_RedactionTier :: RedactionTier
  ent_CatalogRefreshSearchPath :: bool
  ent_CatalogRefreshSnapshot :: bool
  ent_Redirect :: "RedirectMetadata option"

definition groupIDFromClassification :: "ClassifiedStatement \<Rightarrow> nat" where
  "groupIDFromClassification cs = (case cst_Effects cs of [] \<Rightarrow> 0 | e # _ \<Rightarrow> Group_ID (e_Group e))"

definition verb_only :: "string \<Rightarrow> ClassifiedStatement" where
  "verb_only verb = \<lparr>cst_Effects = [], cst_RawVerb = verb, cst_ParserBackend = ParserBackendUnknown, cst_Error = [],
     cst_SourceStart = 0, cst_SourceEnd = 0, cst_PreparedName = [], cst_BulkOp = BulkOpNone\<rparr>"

definition plain_entry :: "ClassifiedStatement \<Rightarrow> bool \<Rightarrow> bool \<Rightarrow> cache_Entry" where
  "plain_entry cs searchPath snapshot =
     \<lparr>ent_Classification = cs, ent_RedactionTier = RedactNone, ent_CatalogRefreshSearchPath = searchPath,
      ent_CatalogRefreshSnapshot = snapshot, ent_Redirect = None\<rparr>"

definition wireCacheView :: "cache_Entry Cache CacheView" where
  "wireCacheView =
     \<lparr>view_Get = (\<lambda>c name. case cache_Get c name of (c', e) \<Rightarrow>
        (c', map_option (\<lambda>e. \<lparr>cval_Verb = cst_RawVerb (ent_Classification e),
               cval_GroupID = groupIDFromClassification (ent_Classification e), cval_OpaqueID = [],
               cval_CatalogRefreshSearchPath = ent_CatalogRefreshSearchPath e,
               cval_CatalogRefreshSnapshot = ent_CatalogRefreshSnapshot e\<rparr>) e)),
      view_Put = (\<lambda>c name val. cache_Put c name
        (plain_entry (verb_only (cval_Verb val)) (cval_CatalogRefreshSearchPath val) (cval_CatalogRefreshSnapshot val))),
      view_Delete = cache_Delete, view_Clear = cache_Clear\<rparr>"

section \<open>One transition\<close>

definition passes :: "RuleSet option \<Rightarrow> ServiceID \<Rightarrow> ClassifiedStatement \<Rightarrow> bool" where
  "passes rules svc cs \<longleftrightarrow> (\<exists>d. Evaluate cs rules svc = Some d \<and> dd_Verb d \<noteq> VerbApprove \<and> dd_Verb d \<noteq> VerbDeny)"

lemma scanStatements_cases:
  obtains "scanStatements rules svc css = Some ScanPass" "\<forall>cs \<in> set css. passes rules svc cs"
  | d cs where "scanStatements rules svc css = Some (ScanApprove d cs)" "cs \<in> set css" "Evaluate cs rules svc = Some d" "dd_Verb d = VerbApprove"
  | d cs where "scanStatements rules svc css = Some (ScanDeny d)" "cs \<in> set css" "Evaluate cs rules svc = Some d" "dd_Verb d = VerbDeny"
proof (induction css arbitrary: thesis)
  case (Cons cs css)
  obtain d where d: "Evaluate cs rules svc = Some d" using Evaluate_total by blast
  show ?case
  proof (cases "dd_Verb d = VerbApprove \<or> dd_Verb d = VerbDeny")
    case True
    then show ?thesis using d Cons.prems(2) [of d cs] Cons.prems(3) [of d cs] by auto
  next
    case False
    then have skip: "scanStatements rules svc (cs # css) = scanStatements rules svc css" and p: "passes rules svc cs"
      using d by (auto simp: passes_def)
    show ?thesis
    proof (rule Cons.IH)
      assume "scanStatements rules svc css = Some ScanPass" "\<forall>cs \<in> set css. passes rules svc cs"
      with skip p Cons.prems(1) show thesis by simp
    next
      fix d' cs' assume "scanStatements rules svc css = Some (ScanApprove d' cs')" "cs' \<in> set css"
        "Evaluate cs' rules svc = Some d'" "dd_Verb d' = VerbApprove"
      with skip Cons.prems(2) [of d' cs'] show thesis by simp
    next
      fix d' cs' assume "scanStatements rules svc css = Some (ScanDeny d')" "cs' \<in> set css"
        "Evaluate cs' rules svc = Some d'" "dd_Verb d' = VerbDeny"
      with skip Cons.prems(3) [of d' cs'] show thesis by simp
    qed
  qed
qed simp

lemma DenyRoute_no_forward [simp]: "ActionForward \<notin> set (DenyRoute s rule msg st)"
  by (simp add: DenyRoute_def)

lemma newApproverWait_no_forward [simp]: "ActionForward \<noteq> newApproverWaitAction d cs r"
  by (simp add: newApproverWaitAction_def Let_def)

lemma Transition_total: "\<exists>s' c' acts. TransitionWithParser view classify rules svc s c f = Some (s', c', acts)"
proof -
  have "\<exists>r. handleQuery classify rules svc s sql = Some r" for sql
    by (cases rule: scanStatements_cases [of rules svc "classify sql"]) (auto simp: handleQuery_def)
  moreover have "\<exists>r. handleParse view classify rules svc s c name sql = Some r" for name sql
    by (cases rule: scanStatements_cases [of rules svc "classify sql"]) (auto simp: handleParse_def Let_def)
  ultimately show ?thesis
    by (cases f) (auto simp: TransitionWithParser_def split: prod.splits, (metis surj_pair)+)
qed

text \<open>What has to hold for a frame to be forwarded.\<close>

definition may_forward :: "'c CacheView \<Rightarrow> (string \<Rightarrow> ClassifiedStatement list) \<Rightarrow> RuleSet option \<Rightarrow> ServiceID \<Rightarrow> ConnState \<Rightarrow> 'c \<Rightarrow> Frame \<Rightarrow> bool" where
  "may_forward view classify rules svc s c f \<longleftrightarrow>
     (case f of
        QueryFrame sql \<Rightarrow> \<not> sm_Absorbing s \<and> list_all (passes rules svc) (classify sql)
      | ParseFrame _ sql \<Rightarrow> \<not> sm_Absorbing s \<and> list_all (passes rules svc) (classify sql)
      | BindFrame _ statement \<Rightarrow> \<not> sm_Absorbing s \<and> snd (view_Get view c statement) \<noteq> None
      | ExecuteFrame portal \<Rightarrow> \<not> sm_Absorbing s \<and> snd (view_Get view c (portalCacheKey portal)) \<noteq> None
      | SyncFrame \<Rightarrow> sm_Absorbing s \<longrightarrow> sm_UpstreamDirtySinceSync s
      | TerminateFrame \<Rightarrow> True
      | DescribeFrame _ _ \<Rightarrow> \<not> sm_Absorbing s
      | FlushFrame \<Rightarrow> \<not> sm_Absorbing s
      | CloseFrame _ _ \<Rightarrow> \<not> sm_Absorbing s
      | _ \<Rightarrow> False)"

lemma Transition_forward:
  assumes "TransitionWithParser view classify rules svc s c f = Some (s', c', acts)"
  shows "ActionForward \<in> set acts \<longleftrightarrow> may_forward view classify rules svc s c f"
proof (cases f)
  case (QueryFrame sql)
  then show ?thesis using assms
    by (cases rule: scanStatements_cases [of rules svc "classify sql"])
      (auto simp: TransitionWithParser_def handleQuery_def may_forward_def list_all_iff passes_def split: if_splits)
next
  case (ParseFrame name sql)
  then show ?thesis using assms
    by (cases rule: scanStatements_cases [of rules svc "classify sql"])
      (auto simp: TransitionWithParser_def handleParse_def may_forward_def list_all_iff passes_def Let_def split: if_splits)
qed (use assms in \<open>auto simp: TransitionWithParser_def handleSync_def handleBind_def handleDescribe_def handleExecute_def
    handleFlush_def handleClose_def may_forward_def split: if_splits prod.splits option.splits\<close>)

end
