(* ===== verification/DbEvents.thy ===== *)
theory DbEvents
  imports DbStateMachine
begin

text \<open>
  The statement events of the PostgreSQL proxy (\<^verbatim>\<open>eventbuilder.go\<close> of \<^verbatim>\<open>internal/db/proxy/postgres\<close>, \<^verbatim>\<open>event.go\<close> of
  \<^verbatim>\<open>internal/db/events\<close>): what the handlers pass to \<^verbatim>\<open>buildStatementEvent\<close> and the event it builds. The normalization of SQL texts
  comes from the PostgreSQL parser library and is a parameter, with the hash, the identifier and the clock. The two numbers of an
  event that only measure the transport, \<^verbatim>\<open>BytesOut\<close> and \<^verbatim>\<open>LatencyMs\<close>, are left out.
\<close>

section \<open>Arguments\<close>

record redirectEventArgs =
  rea_Redirected :: bool
  rea_Rule :: string
  rea_RewrittenSQL :: string
  rea_RewrittenStatementDigest :: string
  rea_SourceRelation :: string
  rea_TargetRelation :: string
  rea_RuntimeStatus :: string
  rea_RejectionReason :: string

definition zero_redirectEventArgs :: redirectEventArgs where
  "zero_redirectEventArgs = \<lparr>rea_Redirected = False, rea_Rule = [], rea_RewrittenSQL = [], rea_RewrittenStatementDigest = [],
     rea_SourceRelation = [], rea_TargetRelation = [], rea_RuntimeStatus = [], rea_RejectionReason = []\<rparr>"

text \<open>
  \<^verbatim>\<open>buildArgs\<close> without the connection's data, its tier and the parser, which are the same for all events of a connection and are
  arguments of \<open>buildStatementEvent\<close>; the protocol state, which changes, stays.
\<close>

record buildArgs =
  ba_Stmt :: ClassifiedStatement
  ba_StmtIndex :: nat
  ba_BatchTotal :: nat
  ba_Decision :: DbDecision
  ba_SQL :: string
  ba_smState :: ConnState
  ba_BytesIn :: nat
  ba_RowsReturned :: "int option"
  ba_RowsAffected :: "int option"
  ba_UpstreamErrCode :: string
  ba_DenyAction :: string
  ba_IsDeniedBySibling :: bool
  ba_BatchSHA :: string
  ba_Redirect :: redirectEventArgs

record connIdentity =
  cn_dbService :: string
  cn_agentSessionID :: string
  cn_dbUser :: string
  cn_database :: string
  cn_appName :: string
  cn_clientIdentity :: string
  cn_sniHostname :: string
  cn_redactionTier :: RedactionTier
  cn_tlsMode :: string

section \<open>Events\<close>

datatype Redaction = RedactionNone | RedactionParametersRedacted | RedactionFull

record EventDecision =
  evd_Verb :: string
  evd_RuleKind :: string
  evd_RuleName :: string
  evd_MatchingEffectIndex :: int
  evd_MatchingEffectGroup :: string
  evd_Reason :: string
  evd_ContributingAuditRules :: "string list"

record EventResult =
  evr_RowsReturned :: "int option"
  evr_RowsAffected :: "int option"
  evr_BytesIn :: nat
  evr_ErrorCode :: string

record EventTxContext =
  evt_InTransaction :: bool
  evt_TxStartedAt :: "int option"
  evt_DenyAction :: string

record DBEvent =
  ev_EventID :: string
  ev_SessionID :: string
  ev_CommandID :: string
  ev_Timestamp :: int
  ev_DBService :: string
  ev_DBFamily :: string
  ev_DBDialect :: string
  ev_DBUser :: string
  ev_Database :: string
  ev_ApplicationName :: string
  ev_ClientIdentity :: string
  ev_Effects :: "Effect list"
  ev_OperationGroup :: string
  ev_OperationGroupID :: nat
  ev_OperationSubtype :: string
  ev_RawVerb :: string
  ev_ObjectResolution :: string
  ev_ObjectResolutionReason :: string
  ev_StatementDigest :: string
  ev_StatementText :: string
  ev_StatementRedaction :: Redaction
  ev_Redirected :: bool
  ev_RedirectRule :: string
  ev_RewrittenStatementDigest :: string
  ev_RedirectSourceRelation :: string
  ev_RedirectTargetRelation :: string
  ev_RedirectRuntimeStatus :: string
  ev_RedirectRejectionReason :: string
  ev_ParserBackend :: ParserBackend
  ev_TLSMode :: string
  ev_ClientSNI :: string
  ev_Decision :: EventDecision
  ev_Result :: EventResult
  ev_TxContext :: EventTxContext
  ev_HasFilter :: bool

section \<open>Building an event\<close>

text \<open>\<open>Normalize\<close> yields a text and whether it failed.\<close>

record eventLib =
  lib_Normalize :: "string \<Rightarrow> string \<times> bool"
  lib_sha256hex :: "string \<Rightarrow> string"
  lib_newEventID :: string
  lib_timeNow :: int

definition normalizeStatement :: "eventLib \<Rightarrow> string \<Rightarrow> string \<times> bool" where
  "normalizeStatement lib sql =
     (case lib_Normalize lib sql of (normalized, err) \<Rightarrow> (if err \<or> normalized = [] then TrimSpace sql else normalized, err))"

definition statementDigest :: "eventLib \<Rightarrow> string \<Rightarrow> string" where
  "statementDigest lib sql =
     (case normalizeStatement lib sql of (normalized, err) \<Rightarrow>
        ''sha256:'' @ lib_sha256hex lib (if err \<or> normalized = [] then TrimSpace sql else normalized))"

definition eventSessionID :: "string \<Rightarrow> string \<Rightarrow> string" where
  "eventSessionID agentSessionID clientIdentity = (if agentSessionID \<noteq> [] then agentSessionID else clientIdentity)"

definition operationFromStatement :: "ClassifiedStatement \<Rightarrow> string \<times> nat \<times> string" where
  "operationFromStatement stmt =
     (case Primary stmt of
        None \<Rightarrow> ([], 0, [])
      | Some p \<Rightarrow> (Group_String (e_Group p), Group_ID (e_Group p), Subtype_String (e_Subtype p)))"

definition DecisionVerb_String :: "DecisionVerb \<Rightarrow> string" where
  "DecisionVerb_String v =
     (case v of VerbAllow \<Rightarrow> ''allow'' | VerbAudit \<Rightarrow> ''audit'' | VerbRedirect \<Rightarrow> ''redirect'' | VerbApprove \<Rightarrow> ''approve'' | VerbDeny \<Rightarrow> ''deny'')"

definition RuleKind_String :: "RuleKind \<Rightarrow> string" where
  "RuleKind_String k = (case k of RuleKindStatement \<Rightarrow> ''statement'' | RuleKindConnection \<Rightarrow> ''connection'' | RuleKindCancel \<Rightarrow> ''cancel'')"

definition buildDecision :: "DbDecision \<Rightarrow> bool \<Rightarrow> EventDecision" where
  "buildDecision d deniedBySibling =
     (if deniedBySibling then
        \<lparr>evd_Verb = ''deny'', evd_RuleKind = ''statement'', evd_RuleName = [], evd_MatchingEffectIndex = 0, evd_MatchingEffectGroup = [],
         evd_Reason = ''denied by sibling statement'', evd_ContributingAuditRules = []\<rparr>
      else
        \<lparr>evd_Verb = (if DecisionVerb_String (dd_Verb d) = [] then ''deny'' else DecisionVerb_String (dd_Verb d)),
         evd_RuleKind = RuleKind_String (dd_RuleKind d), evd_RuleName = dd_RuleName d, evd_MatchingEffectIndex = dd_MatchingEffectIndex d,
         evd_MatchingEffectGroup = (if dd_MatchingEffectGroup d \<noteq> GroupUnknown then Group_String (dd_MatchingEffectGroup d) else []),
         evd_Reason = dd_Reason d, evd_ContributingAuditRules = dd_ContributingAuditRules d\<rparr>)"

definition perStmtSlice :: "string \<Rightarrow> ClassifiedStatement \<Rightarrow> string" where
  "perStmtSlice sql stmt =
     (let start = cst_SourceStart stmt; stop = cst_SourceEnd stmt in
      if start = 0 \<and> stop = 0 then TrimSpace sql
      else if stop > int (length sql) \<or> start < 0 \<or> start > stop then TrimSpace sql
      else drop (nat start) (take (nat stop) sql))"

definition firstResolutionReason :: "ClassifiedStatement \<Rightarrow> string" where
  "firstResolutionReason stmt =
     (case List.find (\<lambda>r. ro_UnresolvedReason r \<noteq> []) (concat (map e_ResolvedObjects (cst_Effects stmt))) of
        None \<Rightarrow> [] | Some r \<Rightarrow> ro_UnresolvedReason r)"

definition connInTx :: "ConnState \<Rightarrow> bool" where
  "connInTx s \<longleftrightarrow> sm_LastUpstreamRFQ s = CHR ''T'' \<or> sm_LastUpstreamRFQ s = CHR ''E''"

definition buildStatementEvent :: "eventLib \<Rightarrow> connIdentity \<Rightarrow> buildArgs \<Rightarrow> DBEvent" where
  "buildStatementEvent lib conn a =
     (let slice = perStmtSlice (ba_SQL a) (ba_Stmt a);
          normalized = fst (normalizeStatement lib slice);
          r = ba_Redirect a;
          rewrittenDigest = (if rea_RewrittenStatementDigest r = [] \<and> rea_RewrittenSQL r \<noteq> [] then statementDigest lib (rea_RewrittenSQL r)
                             else rea_RewrittenStatementDigest r);
          result = (if ba_IsDeniedBySibling a then
                      \<lparr>evr_RowsReturned = None, evr_RowsAffected = None, evr_BytesIn = ba_BytesIn a, evr_ErrorCode = ''DENIED_BY_SIBLING''\<rparr>
                    else \<lparr>evr_RowsReturned = ba_RowsReturned a, evr_RowsAffected = ba_RowsAffected a, evr_BytesIn = ba_BytesIn a,
                          evr_ErrorCode = ba_UpstreamErrCode a\<rparr>)
      in case operationFromStatement (ba_Stmt a) of (opGroup, opGroupID, opSubtype) \<Rightarrow>
        \<lparr>ev_EventID = lib_newEventID lib, ev_SessionID = eventSessionID (cn_agentSessionID conn) (cn_clientIdentity conn),
         ev_CommandID = ba_BatchSHA a @ '':'' @ Itoa (int (ba_StmtIndex a)), ev_Timestamp = lib_timeNow lib,
         ev_DBService = cn_dbService conn, ev_DBFamily = ''postgres'', ev_DBDialect = ''postgres'', ev_DBUser = cn_dbUser conn,
         ev_Database = cn_database conn, ev_ApplicationName = cn_appName conn, ev_ClientIdentity = cn_clientIdentity conn,
         ev_Effects = cst_Effects (ba_Stmt a), ev_OperationGroup = opGroup, ev_OperationGroupID = opGroupID, ev_OperationSubtype = opSubtype,
         ev_RawVerb = cst_RawVerb (ba_Stmt a), ev_ObjectResolution = Resolution_String (FoldResolution (ba_Stmt a)),
         ev_ObjectResolutionReason = firstResolutionReason (ba_Stmt a), ev_StatementDigest = statementDigest lib slice,
         ev_StatementText = (case cn_redactionTier conn of RedactFull \<Rightarrow> slice | RedactParametersRedacted \<Rightarrow> normalized | RedactNone \<Rightarrow> []),
         ev_StatementRedaction = (case cn_redactionTier conn of RedactFull \<Rightarrow> RedactionFull
           | RedactParametersRedacted \<Rightarrow> RedactionParametersRedacted | RedactNone \<Rightarrow> RedactionNone),
         ev_Redirected = rea_Redirected r, ev_RedirectRule = rea_Rule r, ev_RewrittenStatementDigest = rewrittenDigest,
         ev_RedirectSourceRelation = rea_SourceRelation r, ev_RedirectTargetRelation = rea_TargetRelation r,
         ev_RedirectRuntimeStatus = rea_RuntimeStatus r, ev_RedirectRejectionReason = rea_RejectionReason r,
         ev_ParserBackend = cst_ParserBackend (ba_Stmt a), ev_TLSMode = cn_tlsMode conn, ev_ClientSNI = cn_sniHostname conn,
         ev_Decision = buildDecision (ba_Decision a) (ba_IsDeniedBySibling a), ev_Result = result,
         ev_TxContext = \<lparr>evt_InTransaction = connInTx (ba_smState a), evt_TxStartedAt = sm_TxStartedAt (ba_smState a), evt_DenyAction = ba_DenyAction a\<rparr>,
         ev_HasFilter = False\<rparr>)"

end
