(* ===== verification/DbCatalog.thy ===== *)
theory DbCatalog
  imports DbPolicyLoad
begin

text \<open>
  Catalog resolution: the snapshot of a database's relations and functions (\<^verbatim>\<open>internal/db/catalog\<close>: types, snapshot,
  resolve) and how the proxy resolves the objects of classified statements against it
  (\<^verbatim>\<open>internal/db/proxy/postgres/resolve_runtime.go\<close>). The queries that fill a snapshot are not modelled; a snapshot is
  built from any lists of relations and functions. A Go map is a HOL map, and a result struct with a reason is a sum.
\<close>

section \<open>Catalog data\<close>

type_synonym OID = nat

record cat_Name =
  nam_Schema :: string
  nam_Name :: string

datatype RelationKind =
    RelationNone | RelationTable | RelationPartitionedTable | RelationView | RelationMaterializedView | RelationForeignTable
  | RelationSequence

fun RelationKind_String :: "RelationKind \<Rightarrow> string" where
  "RelationKind_String RelationTable = ''table''"
| "RelationKind_String RelationPartitionedTable = ''partitioned_table''"
| "RelationKind_String RelationView = ''view''"
| "RelationKind_String RelationMaterializedView = ''materialized_view''"
| "RelationKind_String RelationForeignTable = ''foreign_table''"
| "RelationKind_String RelationSequence = ''sequence''"
| "RelationKind_String RelationNone = []"

datatype FunctionVolatility = VolatilityNone | VolatilityImmutable | VolatilityStable | VolatilityVolatile

record cat_Column =
  col_Name :: string
  col_TypeOID :: OID
  col_NotNull :: bool
  col_Position :: int

record cat_Relation =
  rel_OID :: OID
  rel_Name :: cat_Name
  rel_Kind :: RelationKind
  rel_Owner :: string
  rel_Columns :: "cat_Column list"

record cat_Function =
  fn_OID :: OID
  fn_Name :: cat_Name
  fn_IdentityArgs :: string
  fn_Volatility :: FunctionVolatility
  fn_Strict :: bool
  fn_ReturnTypeOID :: OID

datatype UnresolvedReason = UnresolvedMissing | UnresolvedAmbiguous | UnresolvedUnsupported | UnresolvedCatalogError

fun UnresolvedReason_String :: "UnresolvedReason \<Rightarrow> string" where
  "UnresolvedReason_String UnresolvedMissing = ''missing''"
| "UnresolvedReason_String UnresolvedAmbiguous = ''ambiguous''"
| "UnresolvedReason_String UnresolvedUnsupported = ''unsupported''"
| "UnresolvedReason_String UnresolvedCatalogError = ''catalog_error''"

section \<open>Snapshots\<close>

record Snapshot =
  snap_relationsByOID :: "OID \<rightharpoonup> cat_Relation"
  snap_relationsByName :: "cat_Name \<rightharpoonup> cat_Relation"
  snap_relationsByBare :: "string \<Rightarrow> cat_Relation list"
  snap_functionsByOID :: "OID \<rightharpoonup> cat_Function"
  snap_functionsByName :: "cat_Name \<Rightarrow> cat_Function list"

definition zero_Snapshot :: Snapshot where
  "zero_Snapshot = \<lparr>snap_relationsByOID = Map.empty, snap_relationsByName = Map.empty, snap_relationsByBare = (\<lambda>_. []),
     snap_functionsByOID = Map.empty, snap_functionsByName = (\<lambda>_. [])\<rparr>"

definition addRelation :: "Snapshot \<Rightarrow> cat_Relation \<Rightarrow> Snapshot" where
  "addRelation s rel =
     s\<lparr>snap_relationsByOID := (snap_relationsByOID s)(rel_OID rel \<mapsto> rel),
       snap_relationsByName := (snap_relationsByName s)(rel_Name rel \<mapsto> rel),
       snap_relationsByBare := (snap_relationsByBare s)(nam_Name (rel_Name rel) := snap_relationsByBare s (nam_Name (rel_Name rel)) @ [rel])\<rparr>"

definition addFunction :: "Snapshot \<Rightarrow> cat_Function \<Rightarrow> Snapshot" where
  "addFunction s f =
     s\<lparr>snap_functionsByOID := (snap_functionsByOID s)(fn_OID f \<mapsto> f),
       snap_functionsByName := (snap_functionsByName s)(fn_Name f := snap_functionsByName s (fn_Name f) @ [f])\<rparr>"

definition NewSnapshot :: "cat_Relation list \<Rightarrow> cat_Function list \<Rightarrow> Snapshot" where
  "NewSnapshot relations functions = foldl addFunction (foldl addRelation zero_Snapshot relations) functions"

definition RelationByName :: "Snapshot \<Rightarrow> cat_Name \<Rightarrow> cat_Relation option" where
  "RelationByName s name = snap_relationsByName s name"

definition RelationsByUnqualifiedName :: "Snapshot \<Rightarrow> string \<Rightarrow> cat_Relation list" where
  "RelationsByUnqualifiedName s name = snap_relationsByBare s name"

definition FunctionByOID :: "Snapshot \<Rightarrow> OID \<Rightarrow> cat_Function option" where
  "FunctionByOID s oid = snap_functionsByOID s oid"

fun searchRelation :: "Snapshot \<Rightarrow> string \<Rightarrow> string list \<Rightarrow> cat_Relation option" where
  "searchRelation snap name [] = None"
| "searchRelation snap name (schema # rest) =
     (case RelationByName snap \<lparr>nam_Schema = schema, nam_Name = name\<rparr> of
        Some rel \<Rightarrow> Some rel
      | None \<Rightarrow> searchRelation snap name rest)"

definition ResolveRelation :: "Snapshot \<Rightarrow> cat_Name \<Rightarrow> string list \<Rightarrow> UnresolvedReason + cat_Relation" where
  "ResolveRelation snap name searchPath =
     (if nam_Schema name \<noteq> [] then
        (case RelationByName snap name of None \<Rightarrow> Inl UnresolvedMissing | Some rel \<Rightarrow> Inr rel)
      else case searchRelation snap (nam_Name name) searchPath of
        Some rel \<Rightarrow> Inr rel
      | None \<Rightarrow> if length (RelationsByUnqualifiedName snap (nam_Name name)) > 1 then Inl UnresolvedAmbiguous else Inl UnresolvedMissing)"

definition ResolveFunctionByOID :: "Snapshot \<Rightarrow> OID \<Rightarrow> UnresolvedReason + cat_Function" where
  "ResolveFunctionByOID snap oid = (case FunctionByOID snap oid of None \<Rightarrow> Inl UnresolvedMissing | Some f \<Rightarrow> Inr f)"

section \<open>Resolution of statements\<close>

record catalogRuntimeContext =
  cc_Snapshot :: Snapshot
  cc_SearchPath :: "string list"
  cc_UnavailableReason :: string

definition catalogSessionStateChangedReason :: string where
  "catalogSessionStateChangedReason = ''session_state_changed''"

definition isCatalogRelationObject :: "ObjectKind \<Rightarrow> bool" where
  "isCatalogRelationObject k \<longleftrightarrow> k = ObjectTable \<or> k = ObjectView \<or> k = ObjectSequence"

definition hasCatalogRelationObject :: "ObjectRef list \<Rightarrow> bool" where
  "hasCatalogRelationObject objs = list_ex (\<lambda>ob. isCatalogRelationObject (o_Kind ob)) objs"

definition unresolvedRef :: "string \<Rightarrow> OID \<Rightarrow> string \<Rightarrow> string \<Rightarrow> string \<Rightarrow> ResolvedObjectRef" where
  "unresolvedRef kind oid schema name reason =
     \<lparr>ro_Source = ResolvedObjectSourceCatalog, ro_Kind = kind, ro_OID = oid, ro_Schema = schema, ro_Name = name, ro_RelationKind = [],
      ro_FunctionIdentityArgs = [], ro_FunctionVolatility = [], ro_UnresolvedReason = reason\<rparr>"

definition relationRef :: "cat_Relation \<Rightarrow> ResolvedObjectRef" where
  "relationRef rel =
     \<lparr>ro_Source = ResolvedObjectSourceCatalog, ro_Kind = ResolvedObjectRelation, ro_OID = rel_OID rel,
      ro_Schema = nam_Schema (rel_Name rel), ro_Name = nam_Name (rel_Name rel), ro_RelationKind = RelationKind_String (rel_Kind rel),
      ro_FunctionIdentityArgs = [], ro_FunctionVolatility = [], ro_UnresolvedReason = []\<rparr>"

definition resolveObjectCatalog :: "catalogRuntimeContext \<Rightarrow> ObjectRef \<Rightarrow> ResolvedObjectRef" where
  "resolveObjectCatalog ctx obj =
     (if \<not> isCatalogRelationObject (o_Kind obj) then
        unresolvedRef ResolvedObjectRelation 0 (o_Schema obj) (o_Name obj) ''unsupported''
      else if cc_UnavailableReason ctx \<noteq> [] then
        unresolvedRef ResolvedObjectRelation 0 (o_Schema obj) (o_Name obj) (cc_UnavailableReason ctx)
      else case ResolveRelation (cc_Snapshot ctx) \<lparr>nam_Schema = o_Schema obj, nam_Name = o_Name obj\<rparr> (cc_SearchPath ctx) of
        Inl reason \<Rightarrow> unresolvedRef ResolvedObjectRelation 0 (o_Schema obj) (o_Name obj) (UnresolvedReason_String reason)
      | Inr rel \<Rightarrow> relationRef rel)"

fun functionVolatilityString :: "FunctionVolatility \<Rightarrow> string" where
  "functionVolatilityString VolatilityImmutable = ''immutable''"
| "functionVolatilityString VolatilityStable = ''stable''"
| "functionVolatilityString VolatilityVolatile = ''volatile''"
| "functionVolatilityString VolatilityNone = []"

definition uint32_of :: "int \<Rightarrow> nat" where
  "uint32_of i = nat (i mod 2 ^ 32)"

definition functionRef :: "cat_Function \<Rightarrow> ResolvedObjectRef" where
  "functionRef f =
     \<lparr>ro_Source = ResolvedObjectSourceCatalog, ro_Kind = ResolvedObjectFunction, ro_OID = fn_OID f,
      ro_Schema = nam_Schema (fn_Name f), ro_Name = nam_Name (fn_Name f), ro_RelationKind = [],
      ro_FunctionIdentityArgs = fn_IdentityArgs f, ro_FunctionVolatility = functionVolatilityString (fn_Volatility f),
      ro_UnresolvedReason = []\<rparr>"

definition resolveFunctionOIDCatalog :: "catalogRuntimeContext \<Rightarrow> int \<Rightarrow> ResolvedObjectRef" where
  "resolveFunctionOIDCatalog ctx oid =
     (if cc_UnavailableReason ctx \<noteq> [] then
        unresolvedRef ResolvedObjectFunction (uint32_of oid) [] [] (cc_UnavailableReason ctx)
      else case ResolveFunctionByOID (cc_Snapshot ctx) (uint32_of oid) of
        Inl reason \<Rightarrow> unresolvedRef ResolvedObjectFunction (uint32_of oid) [] [] (UnresolvedReason_String reason)
      | Inr f \<Rightarrow> functionRef f)"

definition catalogResolution :: "catalogRuntimeContext \<Rightarrow> bool \<Rightarrow> Resolution" where
  "catalogResolution ctx allResolved =
     (if cc_UnavailableReason ctx \<noteq> [] then ResolutionCatalogUnavailable
      else if allResolved then ResolutionCatalogResolved
      else ResolutionCatalogUnresolved)"

text \<open>The objects an effect resolves: when one of them is a relation, the others are skipped.\<close>

definition catalogObjects :: "Effect \<Rightarrow> ObjectRef list" where
  "catalogObjects eff =
     (if hasCatalogRelationObject (e_Objects eff) then filter (\<lambda>ob. isCatalogRelationObject (o_Kind ob)) (e_Objects eff)
      else e_Objects eff)"

definition resolveEffectCatalog :: "catalogRuntimeContext \<Rightarrow> Effect \<Rightarrow> Effect" where
  "resolveEffectCatalog ctx eff =
     (let objs = map (resolveObjectCatalog ctx) (catalogObjects eff);
          out = eff\<lparr>e_ResolvedObjects := objs\<rparr>;
          out = (if objs = [] then out
                 else out\<lparr>e_Resolution := catalogResolution ctx (list_all (\<lambda>r. ro_UnresolvedReason r = []) objs)\<rparr>)
      in case e_FunctionOID eff of
           None \<Rightarrow> out
         | Some oid \<Rightarrow>
             (let resolved = resolveFunctionOIDCatalog ctx oid
              in out\<lparr>e_ResolvedObjects := e_ResolvedObjects out @ [resolved],
                    e_Resolution := catalogResolution ctx (ro_UnresolvedReason resolved = [])\<rparr>))"

definition resolveStatementCatalog :: "catalogRuntimeContext \<Rightarrow> ClassifiedStatement \<Rightarrow> ClassifiedStatement" where
  "resolveStatementCatalog ctx stmt = stmt\<lparr>cst_Effects := map (resolveEffectCatalog ctx) (cst_Effects stmt)\<rparr>"

definition effectHasGUC :: "Effect \<Rightarrow> string \<Rightarrow> bool" where
  "effectHasGUC eff name = list_ex (\<lambda>ob. o_Kind ob = ObjectGUC \<and> ToLower (o_Name ob) = ToLower name) (e_Objects eff)"

definition effectHasAnyGUC :: "Effect \<Rightarrow> string list \<Rightarrow> bool" where
  "effectHasAnyGUC eff names = list_ex (effectHasGUC eff) names"

definition transactionCanRestoreLocalSearchPath :: "string \<Rightarrow> bool" where
  "transactionCanRestoreLocalSearchPath rawVerb \<longleftrightarrow> rawVerb \<in> set [''COMMIT'', ''ROLLBACK'', ''ROLLBACK_TO'', ''END'']"

definition effectCatalogRefreshNeeds :: "Effect \<Rightarrow> string \<Rightarrow> bool \<times> bool" where
  "effectCatalogRefreshNeeds eff rawVerb =
     (let st = e_Subtype eff in
      if st \<in> set [SubtypeSetSearchPath, SubtypeResetAll, SubtypeDiscardAll, SubtypeSetRole, SubtypeSetSessionAuthorization] then (True, False)
      else if st \<in> set [SubtypeSetLocal, SubtypeReset] \<and> effectHasAnyGUC eff [''search_path'', ''role'', ''session_authorization''] then (True, False)
      else if st = SubtypeDiscardTemp then (True, True)
      else if st = SubtypeCreateTable then (if Contains rawVerb ''TEMP'' then (True, True) else (False, True))
      else if st \<in> set [SubtypeCreateIndex, SubtypeCreateView, SubtypeCreateSchema, SubtypeCreateFunction, SubtypeCreateMaterializedView,
           SubtypeCreateExtension, SubtypeDropTable, SubtypeDropSchema, SubtypeDropIndex, SubtypeDropView, SubtypeDropFunction] then (False, True)
      else if e_Group eff = GroupTransaction \<and> transactionCanRestoreLocalSearchPath rawVerb then (True, False)
      else (False, False))"

definition effectInvalidatesCatalogContext :: "Effect \<Rightarrow> string \<Rightarrow> bool" where
  "effectInvalidatesCatalogContext eff rawVerb = (case effectCatalogRefreshNeeds eff rawVerb of (p, s) \<Rightarrow> p \<or> s)"

definition statementInvalidatesCatalogContext :: "ClassifiedStatement \<Rightarrow> bool" where
  "statementInvalidatesCatalogContext stmt = list_ex (\<lambda>eff. effectInvalidatesCatalogContext eff (cst_RawVerb stmt)) (cst_Effects stmt)"

definition statementsNeedCatalogRefresh :: "ClassifiedStatement list \<Rightarrow> bool \<times> bool" where
  "statementsNeedCatalogRefresh stmts =
     foldl (\<lambda>acc stmt. foldl (\<lambda>(p, s) eff. case effectCatalogRefreshNeeds eff (cst_RawVerb stmt) of (p', s') \<Rightarrow> (p \<or> p', s \<or> s')) acc (cst_Effects stmt))
       (False, False) stmts"

fun resolveStatementsCatalog :: "catalogRuntimeContext \<Rightarrow> ClassifiedStatement list \<Rightarrow> ClassifiedStatement list" where
  "resolveStatementsCatalog ctx [] = []"
| "resolveStatementsCatalog ctx (stmt # stmts) =
     resolveStatementCatalog ctx stmt #
     resolveStatementsCatalog
       (if statementInvalidatesCatalogContext stmt
        then ctx\<lparr>cc_UnavailableReason := catalogSessionStateChangedReason, cc_SearchPath := []\<rparr> else ctx) stmts"

section \<open>What a resolved effect means\<close>

lemma fold_addFunction_relations: "snap_relationsByName (foldl addFunction s fns) = snap_relationsByName s"
  by (induction fns arbitrary: s) (simp_all add: addFunction_def)

lemma fold_addRelation_name:
  "snap_relationsByName (foldl addRelation s rels) n =
     (case find (\<lambda>r. rel_Name r = n) (rev rels) of None \<Rightarrow> snap_relationsByName s n | Some r \<Rightarrow> Some r)"
proof (induction rels rule: rev_induct)
  case (snoc r rels)
  then show ?case by (simp add: addRelation_def)
qed simp

lemma RelationByName_NewSnapshot: "RelationByName (NewSnapshot rels fns) n = find (\<lambda>r. rel_Name r = n) (rev rels)"
  by (simp add: RelationByName_def NewSnapshot_def fold_addFunction_relations fold_addRelation_name zero_Snapshot_def split: option.splits)

text \<open>The relation a name denotes: by its schema, or in the first schema of the search path that has it.\<close>

definition denotes :: "(cat_Name \<Rightarrow> cat_Relation option) \<Rightarrow> string list \<Rightarrow> ObjectRef \<Rightarrow> cat_Relation \<Rightarrow> bool" where
  "denotes look path obj rel \<longleftrightarrow>
     (if o_Schema obj \<noteq> [] then look \<lparr>nam_Schema = o_Schema obj, nam_Name = o_Name obj\<rparr> = Some rel
      else \<exists>i < length path. look \<lparr>nam_Schema = path ! i, nam_Name = o_Name obj\<rparr> = Some rel
             \<and> (\<forall>j < i. look \<lparr>nam_Schema = path ! j, nam_Name = o_Name obj\<rparr> = None))"

lemma searchRelation_Some:
  "searchRelation snap name path = Some rel \<longleftrightarrow>
     (\<exists>i < length path. RelationByName snap \<lparr>nam_Schema = path ! i, nam_Name = name\<rparr> = Some rel
        \<and> (\<forall>j < i. RelationByName snap \<lparr>nam_Schema = path ! j, nam_Name = name\<rparr> = None))" (is "_ \<longleftrightarrow> ?P path")
proof (induction path)
  case (Cons schema path)
  then show ?case by (cases "RelationByName snap \<lparr>nam_Schema = schema, nam_Name = name\<rparr>") (simp_all add: Ex_less_Suc2 All_less_Suc2)
qed simp

lemma ResolveRelation_Inr:
  "ResolveRelation snap \<lparr>nam_Schema = o_Schema obj, nam_Name = o_Name obj\<rparr> path = Inr rel \<longleftrightarrow> denotes (RelationByName snap) path obj rel"
  by (auto simp: ResolveRelation_def denotes_def searchRelation_Some [symmetric] split: option.splits if_splits)


lemma resolveObject_resolved:
  "ro_UnresolvedReason (resolveObjectCatalog ctx obj) = [] \<longleftrightarrow>
     isCatalogRelationObject (o_Kind obj) \<and> cc_UnavailableReason ctx = [] \<and> (\<exists>rel. denotes (RelationByName (cc_Snapshot ctx)) (cc_SearchPath ctx) obj rel)"
  "denotes (RelationByName (cc_Snapshot ctx)) (cc_SearchPath ctx) obj rel \<Longrightarrow> isCatalogRelationObject (o_Kind obj) \<Longrightarrow>
     cc_UnavailableReason ctx = [] \<Longrightarrow> resolveObjectCatalog ctx obj = relationRef rel"
proof -
  have ne: "UnresolvedReason_String r \<noteq> []" for r by (cases r) simp_all
  show "ro_UnresolvedReason (resolveObjectCatalog ctx obj) = [] \<longleftrightarrow>
     isCatalogRelationObject (o_Kind obj) \<and> cc_UnavailableReason ctx = [] \<and> (\<exists>rel. denotes (RelationByName (cc_Snapshot ctx)) (cc_SearchPath ctx) obj rel)"
    by (auto simp: resolveObjectCatalog_def unresolvedRef_def relationRef_def ne ResolveRelation_Inr [symmetric] split: sum.splits)
  show "denotes (RelationByName (cc_Snapshot ctx)) (cc_SearchPath ctx) obj rel \<Longrightarrow> isCatalogRelationObject (o_Kind obj) \<Longrightarrow>
     cc_UnavailableReason ctx = [] \<Longrightarrow> resolveObjectCatalog ctx obj = relationRef rel"
    by (simp add: resolveObjectCatalog_def ResolveRelation_Inr [symmetric])
qed

lemma catalogObjects_ne: "e_Objects eff \<noteq> [] \<Longrightarrow> catalogObjects eff \<noteq> []"
  by (auto simp: catalogObjects_def hasCatalogRelationObject_def list_ex_iff filter_empty_conv)

definition relationObjects :: "Effect \<Rightarrow> ObjectRef list" where
  "relationObjects eff = filter (\<lambda>ob. isCatalogRelationObject (o_Kind ob)) (e_Objects eff)"

lemma catalogObjects_relations:
  assumes "\<forall>ob \<in> set (catalogObjects eff). isCatalogRelationObject (o_Kind ob)" "e_Objects eff \<noteq> []"
  shows "catalogObjects eff = relationObjects eff \<and> relationObjects eff \<noteq> []"
proof (cases "hasCatalogRelationObject (e_Objects eff)")
  case True
  then have "catalogObjects eff = relationObjects eff" by (simp add: catalogObjects_def relationObjects_def)
  with catalogObjects_ne [OF assms(2)] show ?thesis by simp
next
  case False
  then have "catalogObjects eff = e_Objects eff" by (simp add: catalogObjects_def)
  with assms have "isCatalogRelationObject (o_Kind (hd (e_Objects eff)))" "hd (e_Objects eff) \<in> set (e_Objects eff)" by simp_all
  with False show ?thesis unfolding hasCatalogRelationObject_def list_ex_iff by blast
qed

lemma resolved_effect_names:
  assumes "e_Objects eff \<noteq> []" "e_FunctionOID eff = None" "e_Resolution (resolveEffectCatalog ctx eff) = ResolutionCatalogResolved"
  defines "look \<equiv> RelationByName (cc_Snapshot ctx)"
  shows "cc_UnavailableReason ctx = [] \<and> relationObjects eff \<noteq> []
    \<and> list_all2 (\<lambda>obj r. \<exists>rel. denotes look (cc_SearchPath ctx) obj rel \<and> r = relationRef rel) (relationObjects eff)
        (e_ResolvedObjects (resolveEffectCatalog ctx eff))"
proof -
  let ?objs = "map (resolveObjectCatalog ctx) (catalogObjects eff)"
  have ne: "?objs \<noteq> []" using catalogObjects_ne [OF assms(1)] by simp
  then have e: "e_ResolvedObjects (resolveEffectCatalog ctx eff) = ?objs"
      "e_Resolution (resolveEffectCatalog ctx eff) = catalogResolution ctx (list_all (\<lambda>r. ro_UnresolvedReason r = []) ?objs)"
    using assms(2) by (simp_all add: resolveEffectCatalog_def Let_def)
  have a: "cc_UnavailableReason ctx = []" and all: "list_all (\<lambda>r. ro_UnresolvedReason r = []) ?objs"
    using assms(3) e(2) by (auto simp: catalogResolution_def split: if_splits)
  then have r: "\<forall>obj \<in> set (catalogObjects eff). isCatalogRelationObject (o_Kind obj) \<and> (\<exists>rel. denotes look (cc_SearchPath ctx) obj rel)"
    by (auto simp: list_all_iff resolveObject_resolved(1) look_def)
  then have c: "catalogObjects eff = relationObjects eff" "relationObjects eff \<noteq> []"
    using catalogObjects_relations [OF _ assms(1)] by blast+
  have "list_all2 (\<lambda>obj r. \<exists>rel. denotes look (cc_SearchPath ctx) obj rel \<and> r = relationRef rel) (catalogObjects eff) ?objs"
    using r a resolveObject_resolved(2) [of ctx] unfolding look_def list.rel_map
    by (intro list.rel_refl_strong) (blast)
  with a c e(1) show ?thesis by simp
qed


section \<open>Batches\<close>

lemma resolveStatement_unavailable:
  assumes "cc_UnavailableReason ctx \<noteq> []"
  shows "list_all (\<lambda>e. list_all (\<lambda>r. ro_UnresolvedReason r \<noteq> []) (e_ResolvedObjects e)) (cst_Effects (resolveStatementCatalog ctx stmt))"
proof -
  have "ro_UnresolvedReason (resolveObjectCatalog ctx ob) \<noteq> []" for ob
    using assms by (simp add: resolveObject_resolved)
  moreover have "ro_UnresolvedReason (resolveFunctionOIDCatalog ctx oid) \<noteq> []" for oid
    using assms by (simp add: resolveFunctionOIDCatalog_def unresolvedRef_def)
  ultimately show ?thesis
    by (auto simp: resolveStatementCatalog_def resolveEffectCatalog_def Let_def list_all_iff split: option.splits)
qed

lemma resolveStatements_unavailable:
  assumes "cc_UnavailableReason ctx \<noteq> []" "j < length stmts"
  shows "list_all (\<lambda>e. list_all (\<lambda>r. ro_UnresolvedReason r \<noteq> []) (e_ResolvedObjects e)) (cst_Effects (resolveStatementsCatalog ctx stmts ! j))"
  using assms
proof (induction stmts arbitrary: ctx j)
  case (Cons stmt stmts)
  let ?ctx = "if statementInvalidatesCatalogContext stmt
        then ctx\<lparr>cc_UnavailableReason := catalogSessionStateChangedReason, cc_SearchPath := []\<rparr> else ctx"
  have "cc_UnavailableReason ?ctx \<noteq> []" using Cons.prems(1) by (simp add: catalogSessionStateChangedReason_def)
  from Cons.IH [OF this] resolveStatement_unavailable [OF Cons.prems(1)] Cons.prems(2) show ?case
    by (cases j) simp_all
qed simp


section \<open>A concrete catalog\<close>

definition users_rel :: cat_Relation where
  "users_rel = \<lparr>rel_OID = 7, rel_Name = \<lparr>nam_Schema = ''public'', nam_Name = ''users''\<rparr>, rel_Kind = RelationTable, rel_Owner = ''app'', rel_Columns = []\<rparr>"

definition sample_catalog :: catalogRuntimeContext where
  "sample_catalog = \<lparr>cc_Snapshot = NewSnapshot [users_rel] [], cc_SearchPath = [''app'', ''public''], cc_UnavailableReason = []\<rparr>"


definition set_search_path :: ClassifiedStatement where
  "set_search_path = (simple_stmt ''SET'' GroupSession)\<lparr>cst_Effects := [(simple_effect GroupSession)\<lparr>e_Subtype := SubtypeSetSearchPath, e_Objects := []\<rparr>]\<rparr>"


end
