(* ===== verification/DbUpstream.thy ===== *)
theory DbUpstream
  imports DbEvents DbCatalog
begin

text \<open>
  One connection of the PostgreSQL proxy and what it reads from the database: the connection record of \<^verbatim>\<open>proxyconn.go\<close>, the
  relay of upstream messages (\<^verbatim>\<open>upstreamread.go\<close>), the COPY loops (\<^verbatim>\<open>copyframes.go\<close>) and the refresh of the catalog context
  (\<^verbatim>\<open>catalog_runtime.go\<close>), in \<^verbatim>\<open>internal/db/proxy/postgres\<close>.

  The messages the database will send are a list in the connection, so that a run may have any reply; reading past its end
  is the error of a closed connection. What the proxy writes is recorded: frames to the database in \<open>pc_sent\<close>, messages to
  the client in \<open>pc_out\<close>, statement events in \<open>pc_events\<close>. Of the counters of \<^verbatim>\<open>upstreamResult\<close> the size of
  the frames relayed and the latency are left out; they only reach the events. The catalog loader is an interface in the code
  and a parameter here; its own queries are not part of \<open>pc_sent\<close>.
\<close>

section \<open>Connections\<close>

datatype BackendMessage =
    DataRow string
  | CommandComplete string
  | ErrorResponse string
  | CopyInResponse
  | CopyOutResponse
  | CopyData string
  | CopyDone
  | ReadyForQuery char
  | OtherMessage string

datatype ClientMessage =
    SynthError (synth_state: string) (synth_message: string) (synth_severity: string)
  | SynthReady char
  | SynthParseComplete
  | SynthBindComplete
  | Relayed BackendMessage

datatype proxy_error =
    errInTxTerminate | errFrameTooLargeClose | errUnsupportedFrame | errReceive | errContext | errCopyFrame | errUnknownAction
  | errPanic | connectionDone

record catalogSnapshotEntry =
  cse_Snapshot :: Snapshot
  cse_UnavailableReason :: string

record proxyConn =
  pc_sm :: ConnState
  pc_wire :: "cache_Entry Cache"
  pc_sql :: "cache_Entry Cache"
  pc_pendingRedirectExec :: "cache_Entry list"
  pc_catalog :: catalogRuntimeContext
  pc_catalogRefreshPending :: bool
  pc_catalogSnapshotRefreshPending :: bool
  pc_store :: "catalogSnapshotEntry option"
  pc_up :: "BackendMessage list"
  pc_sent :: "Frame list"
  pc_out :: "ClientMessage list"
  pc_events :: "buildArgs list"

definition newProxyConn :: proxyConn where
  "newProxyConn = \<lparr>pc_sm = zero_ConnState, pc_wire = cache_New 0, pc_sql = cache_New 0, pc_pendingRedirectExec = [],
     pc_catalog = \<lparr>cc_Snapshot = zero_Snapshot, cc_SearchPath = [], cc_UnavailableReason = []\<rparr>, pc_catalogRefreshPending = False,
     pc_catalogSnapshotRefreshPending = False, pc_store = None, pc_up = [], pc_sent = [], pc_out = [], pc_events = []\<rparr>"

definition send :: "Frame \<Rightarrow> proxyConn \<Rightarrow> proxyConn" where
  "send f pc = pc\<lparr>pc_sent := pc_sent pc @ [f]\<rparr>"

definition reply :: "ClientMessage \<Rightarrow> proxyConn \<Rightarrow> proxyConn" where
  "reply m pc = pc\<lparr>pc_out := pc_out pc @ [m]\<rparr>"

text \<open>The arguments of an event carry the protocol state at that time, a part of \<^verbatim>\<open>Conn\<close>.\<close>

definition emit :: "buildArgs list \<Rightarrow> proxyConn \<Rightarrow> proxyConn" where
  "emit evs pc = pc\<lparr>pc_events := pc_events pc @ map (\<lambda>a. a\<lparr>ba_smState := pc_sm pc\<rparr>) evs\<rparr>"

section \<open>Relaying upstream messages\<close>

record upstreamResult =
  ur_BytesIn :: nat
  ur_RowsByStmt :: "int option list"
  ur_AffectedByStmt :: "int option list"
  ur_ErrorCode :: string
  ur_YieldedToCopyIn :: bool
  ur_YieldedToCopyOut :: bool

definition zero_upstreamResult :: upstreamResult where
  "zero_upstreamResult = \<lparr>ur_BytesIn = 0, ur_RowsByStmt = [], ur_AffectedByStmt = [], ur_ErrorCode = [], ur_YieldedToCopyIn = False,
     ur_YieldedToCopyOut = False\<rparr>"

text \<open>\<^verbatim>\<open>parseCommandTag\<close>; \<^verbatim>\<open>ParseInt\<close> in base ten with 64 bits accepts what \<^verbatim>\<open>Atoi\<close> does.\<close>

definition parseCommandTag :: "string \<Rightarrow> int option \<times> int option" where
  "parseCommandTag tag =
     (case Fields tag of
        [] \<Rightarrow> (None, None)
      | verb # args \<Rightarrow>
          if verb = ''SELECT'' then (case args of n # _ \<Rightarrow> (Atoi n, None) | [] \<Rightarrow> (None, None))
          else if verb = ''INSERT'' then (case args of _ # n # _ \<Rightarrow> (None, Atoi n) | _ \<Rightarrow> (None, None))
          else if verb \<in> {''UPDATE'', ''DELETE'', ''MOVE'', ''FETCH'', ''COPY''} then (case args of n # _ \<Rightarrow> (None, Atoi n) | [] \<Rightarrow> (None, None))
          else (None, None))"

definition noteError :: "upstreamResult \<Rightarrow> string \<Rightarrow> upstreamResult" where
  "noteError r code = (if ur_ErrorCode r = [] then r\<lparr>ur_ErrorCode := code\<rparr> else r)"

definition observeRFQ :: "int \<Rightarrow> char \<Rightarrow> ConnState \<Rightarrow> ConnState" where
  "observeRFQ now status s =
     (let prev = sm_LastUpstreamRFQ s;
          s = s\<lparr>sm_LastUpstreamRFQ := status\<rparr>;
          s = (if status = CHR ''I'' then s\<lparr>sm_Phase := PhaseIdle, sm_TxStartedAt := None\<rparr>
               else if status = CHR ''T'' then
                 (if prev \<noteq> CHR ''T'' then s\<lparr>sm_Phase := PhaseInTx, sm_TxStartedAt := Some now\<rparr> else s\<lparr>sm_Phase := PhaseInTx\<rparr>)
               else if status = CHR ''E'' then s\<lparr>sm_Phase := PhaseInTxError\<rparr>
               else s)
      in s\<lparr>sm_UpstreamDirtySinceSync := False\<rparr>)"

text \<open>
  The loop over the messages the database sends. \<open>curRows\<close> counts the rows since the last completed statement, \<open>None\<close> before the
  first. The end of the list is the end of the connection.
\<close>

definition completeStatement :: "string \<Rightarrow> int option \<Rightarrow> upstreamResult \<Rightarrow> upstreamResult" where
  "completeStatement tag curRows r =
     (case parseCommandTag tag of (rows, aff) \<Rightarrow>
        r\<lparr>ur_RowsByStmt := ur_RowsByStmt r @ [if rows = None then curRows else rows], ur_AffectedByStmt := ur_AffectedByStmt r @ [aff]\<rparr>)"

fun relayLoop :: "int \<Rightarrow> BackendMessage list \<Rightarrow> proxyConn \<Rightarrow> upstreamResult \<Rightarrow> int option \<Rightarrow> proxyConn \<times> upstreamResult \<times> proxy_error option" where
  "relayLoop now [] pc r curRows = (pc\<lparr>pc_up := []\<rparr>, r, Some errReceive)"
| "relayLoop now (m # ms) pc r curRows =
     (let pc = reply (Relayed m) pc in
      case m of
        DataRow _ \<Rightarrow> relayLoop now ms pc r (Some (case curRows of None \<Rightarrow> 1 | Some n \<Rightarrow> n + 1))
      | CommandComplete tag \<Rightarrow> relayLoop now ms pc (completeStatement tag curRows r) None
      | ErrorResponse code \<Rightarrow> relayLoop now ms pc (noteError r code) curRows
      | CopyInResponse \<Rightarrow>
          (pc\<lparr>pc_up := ms, pc_sm := (pc_sm pc)\<lparr>sm_Phase := PhaseInCopyIn\<rparr>\<rparr>, r\<lparr>ur_YieldedToCopyIn := True\<rparr>, None)
      | CopyOutResponse \<Rightarrow>
          (pc\<lparr>pc_up := ms, pc_sm := (pc_sm pc)\<lparr>sm_Phase := PhaseInCopyOut\<rparr>\<rparr>, r\<lparr>ur_YieldedToCopyOut := True\<rparr>, None)
      | ReadyForQuery status \<Rightarrow> (pc\<lparr>pc_up := ms, pc_sm := observeRFQ now status (pc_sm pc)\<rparr>, r, None)
      | _ \<Rightarrow> relayLoop now ms pc r curRows)"

definition forwardUpstreamUntilRFQ :: "int \<Rightarrow> proxyConn \<Rightarrow> proxyConn \<times> upstreamResult \<times> proxy_error option" where
  "forwardUpstreamUntilRFQ now pc = relayLoop now (pc_up pc) pc zero_upstreamResult None"

section \<open>COPY\<close>

definition mergeCopyDrain :: "int \<Rightarrow> proxyConn \<Rightarrow> upstreamResult \<Rightarrow> proxyConn \<times> upstreamResult \<times> proxy_error option" where
  "mergeCopyDrain now pc r =
     (case forwardUpstreamUntilRFQ now pc of
        (pc', drained, err) \<Rightarrow>
          (pc', r\<lparr>ur_BytesIn := ur_BytesIn r + ur_BytesIn drained, ur_RowsByStmt := ur_RowsByStmt r @ ur_RowsByStmt drained,
                 ur_AffectedByStmt := ur_AffectedByStmt r @ ur_AffectedByStmt drained,
                 ur_ErrorCode := (if ur_ErrorCode drained \<noteq> [] then ur_ErrorCode drained else ur_ErrorCode r)\<rparr>, err))"

text \<open>The frames the client sends while the copy runs are a list as well.\<close>

fun copyInLoop :: "int \<Rightarrow> Frame list \<Rightarrow> proxyConn \<Rightarrow> upstreamResult \<Rightarrow> proxyConn \<times> upstreamResult \<times> proxy_error option" where
  "copyInLoop now [] pc r = (pc, r, Some errReceive)"
| "copyInLoop now (f # fs) pc r =
     (case f of
        CopyDataFrame dat \<Rightarrow> copyInLoop now fs (send f pc) (r\<lparr>ur_BytesIn := ur_BytesIn r + length dat\<rparr>)
      | CopyDoneFrame \<Rightarrow> mergeCopyDrain now (send f pc) r
      | CopyFailFrame _ \<Rightarrow> mergeCopyDrain now (send f pc) r
      | TerminateFrame \<Rightarrow> (send (CopyFailFrame ''client terminated mid-copy'') pc, r, Some errInTxTerminate)
      | _ \<Rightarrow> (pc, r, Some errCopyFrame))"

fun copyOutLoop :: "int \<Rightarrow> BackendMessage list \<Rightarrow> proxyConn \<Rightarrow> upstreamResult \<Rightarrow> proxyConn \<times> upstreamResult \<times> proxy_error option" where
  "copyOutLoop now [] pc r = (pc\<lparr>pc_up := []\<rparr>, r, Some errReceive)"
| "copyOutLoop now (m # ms) pc r =
     (let pc = reply (Relayed m) pc in
      case m of
        CopyDone \<Rightarrow> mergeCopyDrain now (pc\<lparr>pc_up := ms\<rparr>) r
      | ErrorResponse code \<Rightarrow> mergeCopyDrain now (pc\<lparr>pc_up := ms\<rparr>) (noteError r code)
      | _ \<Rightarrow> copyOutLoop now ms pc r)"

definition runCopyInLoop :: "int \<Rightarrow> Frame list \<Rightarrow> proxyConn \<Rightarrow> proxyConn \<times> upstreamResult \<times> proxy_error option" where
  "runCopyInLoop now frames pc = copyInLoop now frames (pc\<lparr>pc_sm := (pc_sm pc)\<lparr>sm_Phase := PhaseInCopyIn\<rparr>\<rparr>) zero_upstreamResult"

definition runCopyOutLoop :: "int \<Rightarrow> proxyConn \<Rightarrow> proxyConn \<times> upstreamResult \<times> proxy_error option" where
  "runCopyOutLoop now pc =
     copyOutLoop now (pc_up pc) (pc\<lparr>pc_sm := (pc_sm pc)\<lparr>sm_Phase := PhaseInCopyOut\<rparr>\<rparr>) zero_upstreamResult"

section \<open>The catalog context\<close>

text \<open>A load reads upstream messages; it yields a reason or the data, and the status of the last \<^verbatim>\<open>ReadyForQuery\<close> it saw.\<close>

record catalogRuntimeLoader =
  ld_SearchPath :: "BackendMessage list \<Rightarrow> (string + string list) \<times> char option \<times> BackendMessage list"
  ld_Snapshot :: "BackendMessage list \<Rightarrow> (string + Snapshot) \<times> char option \<times> BackendMessage list"

definition afterLoad :: "char option \<Rightarrow> BackendMessage list \<Rightarrow> proxyConn \<Rightarrow> proxyConn" where
  "afterLoad status ms pc =
     pc\<lparr>pc_up := ms, pc_sm := (case status of None \<Rightarrow> pc_sm pc | Some c \<Rightarrow> (pc_sm pc)\<lparr>sm_LastUpstreamRFQ := c\<rparr>)\<rparr>"

definition loadSearchPath :: "catalogRuntimeLoader \<Rightarrow> proxyConn \<Rightarrow> proxyConn \<times> string list \<times> string" where
  "loadSearchPath ld pc =
     (case ld_SearchPath ld (pc_up pc) of
        (Inl reason, status, ms) \<Rightarrow> (afterLoad status ms pc, [], if reason = [] then ''search_path_unavailable'' else reason)
      | (Inr path, status, ms) \<Rightarrow> (afterLoad status ms pc, path, []))"

definition loadSnapshot :: "catalogRuntimeLoader \<Rightarrow> proxyConn \<Rightarrow> proxyConn \<times> catalogSnapshotEntry" where
  "loadSnapshot ld pc =
     (case ld_Snapshot ld (pc_up pc) of
        (Inl reason, status, ms) \<Rightarrow>
          (afterLoad status ms pc, \<lparr>cse_Snapshot = zero_Snapshot, cse_UnavailableReason = (if reason = [] then ''catalog_error'' else reason)\<rparr>)
      | (Inr snap, status, ms) \<Rightarrow> (afterLoad status ms pc, \<lparr>cse_Snapshot = snap, cse_UnavailableReason = []\<rparr>))"

definition loadOrGetSnapshot :: "catalogRuntimeLoader \<Rightarrow> proxyConn \<Rightarrow> proxyConn \<times> catalogSnapshotEntry" where
  "loadOrGetSnapshot ld pc =
     (case pc_store pc of
        Some entry \<Rightarrow> (pc, entry)
      | None \<Rightarrow> (case loadSnapshot ld pc of (pc', entry) \<Rightarrow> (pc'\<lparr>pc_store := Some entry\<rparr>, entry)))"

definition runtimeContextFromSnapshot :: "catalogSnapshotEntry \<Rightarrow> string list \<Rightarrow> string \<Rightarrow> catalogRuntimeContext" where
  "runtimeContextFromSnapshot entry searchPath searchPathReason =
     \<lparr>cc_Snapshot = cse_Snapshot entry, cc_SearchPath = searchPath,
      cc_UnavailableReason = (if searchPathReason \<noteq> [] then searchPathReason else cse_UnavailableReason entry)\<rparr>"

definition store_refresh :: "catalogRuntimeLoader \<Rightarrow> proxyConn \<Rightarrow> proxyConn \<times> catalogRuntimeContext" where
  "store_refresh ld pc =
     (case loadSearchPath ld pc of (pc1, path, reason) \<Rightarrow>
      case loadSnapshot ld pc1 of (pc2, entry) \<Rightarrow>
        (pc2\<lparr>pc_store := Some entry\<rparr>, runtimeContextFromSnapshot entry path reason))"

definition store_refreshSearchPath :: "catalogRuntimeLoader \<Rightarrow> proxyConn \<Rightarrow> proxyConn \<times> catalogRuntimeContext" where
  "store_refreshSearchPath ld pc =
     (case loadSearchPath ld pc of (pc1, path, reason) \<Rightarrow>
      case loadOrGetSnapshot ld pc1 of (pc2, entry) \<Rightarrow> (pc2, runtimeContextFromSnapshot entry path reason))"

definition refreshCatalogContext :: "catalogRuntimeLoader \<Rightarrow> bool \<Rightarrow> proxyConn \<Rightarrow> proxyConn" where
  "refreshCatalogContext ld refreshSnapshot pc =
     (case (if refreshSnapshot then store_refresh ld pc else store_refreshSearchPath ld pc) of
        (pc', ctx) \<Rightarrow> pc'\<lparr>pc_catalog := ctx, pc_catalogRefreshPending := False, pc_catalogSnapshotRefreshPending := False\<rparr>)"

definition catalogSnapshotRefreshMustWait :: "proxyConn \<Rightarrow> bool" where
  "catalogSnapshotRefreshMustWait pc \<longleftrightarrow> sm_LastUpstreamRFQ (pc_sm pc) = CHR ''T'' \<or> sm_LastUpstreamRFQ (pc_sm pc) = CHR ''E''"

definition staleContext :: "proxyConn \<Rightarrow> proxyConn" where
  "staleContext pc = pc\<lparr>pc_catalog := (pc_catalog pc)\<lparr>cc_UnavailableReason := catalogSessionStateChangedReason, cc_SearchPath := []\<rparr>\<rparr>"

definition markCatalogRefreshPendingForNeeds :: "bool \<Rightarrow> bool \<Rightarrow> proxyConn \<Rightarrow> proxyConn" where
  "markCatalogRefreshPendingForNeeds searchPath snapshot pc =
     (if \<not> searchPath \<and> \<not> snapshot then pc
      else staleContext (pc\<lparr>pc_catalogRefreshPending := True,
             pc_catalogSnapshotRefreshPending := pc_catalogSnapshotRefreshPending pc \<or> snapshot\<rparr>))"

definition refreshPendingCatalogContext :: "catalogRuntimeLoader \<Rightarrow> proxyConn \<Rightarrow> proxyConn" where
  "refreshPendingCatalogContext ld pc =
     (if \<not> pc_catalogRefreshPending pc then pc
      else let refreshSnapshot = pc_catalogSnapshotRefreshPending pc in
        if refreshSnapshot \<and> catalogSnapshotRefreshMustWait pc then staleContext pc
        else refreshCatalogContext ld refreshSnapshot
               (pc\<lparr>pc_catalogRefreshPending := False, pc_catalogSnapshotRefreshPending := False\<rparr>))"

definition refreshCatalogForStatements :: "catalogRuntimeLoader \<Rightarrow> ClassifiedStatement list \<Rightarrow> proxyConn \<Rightarrow> proxyConn" where
  "refreshCatalogForStatements ld stmts pc =
     (case statementsNeedCatalogRefresh stmts of (searchPath, snapshot) \<Rightarrow>
       let snapshot = (snapshot \<or> pc_catalogSnapshotRefreshPending pc) in
       if \<not> searchPath \<and> \<not> snapshot then pc
       else if snapshot \<and> catalogSnapshotRefreshMustWait pc then markCatalogRefreshPendingForNeeds searchPath True pc
       else refreshCatalogContext ld snapshot pc)"

definition refreshCatalogAfterSuccessfulStatements :: "catalogRuntimeLoader \<Rightarrow> ClassifiedStatement list \<Rightarrow> upstreamResult \<Rightarrow> proxyConn \<Rightarrow> proxyConn" where
  "refreshCatalogAfterSuccessfulStatements ld stmts result pc =
     (let completed = min (length (ur_RowsByStmt result)) (length stmts) in
      if completed = 0 then pc else refreshCatalogForStatements ld (take completed stmts) pc)"

end
