(* ===== verification/DbProxy.thy ===== *)
theory DbProxy
  imports DbUpstream
begin

text \<open>
  The dispatcher of the PostgreSQL proxy (\<^verbatim>\<open>internal/db/proxy/postgres\<close>): the handlers of client frames of \<^verbatim>\<open>simplequery.go\<close>,
  \<^verbatim>\<open>extquery.go\<close> and \<^verbatim>\<open>funccall.go\<close>, approvals (\<^verbatim>\<open>approvalwait.go\<close>), SQL-level prepared statements (\<^verbatim>\<open>sqlprepared.go\<close>) and
  redirects (\<^verbatim>\<open>redirect_runtime.go\<close>).

  The environment of a step holds what the handlers get from elsewhere: the policy snapshot, the base classifier with the
  options the policy gives it (its second result is the error flag), the redirect planner of the dialect, what the event
  builder calls, the event that ends an approval wait, the frames the client sends during a COPY, and the clock. A handler maps a
  connection to a connection and an error, \<open>None\<close> for nil. Write errors, lifecycle events and the drain of the client socket
  before closing are not modelled.
\<close>

section \<open>Environments\<close>

datatype approval_event = ApprovalContextDone | ApprovalDecided bool bool Duration | ApprovalTimerFired

record redirectAction =
  ra_RuleName :: string
  ra_SourceRelation :: string
  ra_TargetRelation :: string

record proxyEnv =
  env_rules :: "RuleSet option"
  env_svc :: ServiceID
  env_base :: "RuleSet option \<Rightarrow> string \<Rightarrow> ClassifiedStatement list \<times> bool"
  env_planner :: "(string \<Rightarrow> ClassifiedStatement \<Rightarrow> redirectAction \<Rightarrow> string + string) option"
  env_events :: eventLib
  env_approval :: approval_event
  env_MaxQueryBytes :: nat
  env_loader :: catalogRuntimeLoader
  env_copy :: "Frame list"
  env_now :: int

definition classifyBatch :: "proxyEnv \<Rightarrow> proxyConn \<Rightarrow> string \<Rightarrow> ClassifiedStatement list \<times> bool" where
  "classifyBatch env pc sql =
     (case env_base env (env_rules env) sql of (stmts, failed) \<Rightarrow>
        if failed then (stmts, True) else (resolveStatementsCatalog (pc_catalog pc) stmts, False))"

abbreviation (input) evaluate :: "proxyEnv \<Rightarrow> ClassifiedStatement \<Rightarrow> DbDecision option" where
  "evaluate env cs \<equiv> Evaluate cs (env_rules env) (env_svc env)"

section \<open>Approvals\<close>

record approvalOutcome =
  ao_approved :: bool
  ao_denyAction :: string
  ao_err :: bool

definition waitForApproval :: "approval_event \<Rightarrow> Duration \<Rightarrow> approvalOutcome" where
  "waitForApproval ev timeout0 =
     (let timeout = (if timeout0 = 0 then 60 * 1000000000 else timeout0) in
      case ev of
        ApprovalContextDone \<Rightarrow> \<lparr>ao_approved = False, ao_denyAction = ''cancelled_during_approval'', ao_err = True\<rparr>
      | ApprovalDecided approved failed elapsed \<Rightarrow>
          (if failed \<or> \<not> approved then
             (if elapsed \<ge> timeout then \<lparr>ao_approved = False, ao_denyAction = ''approval_timeout'', ao_err = False\<rparr>
              else \<lparr>ao_approved = False, ao_denyAction = ''approval_denied'', ao_err = False\<rparr>)
           else \<lparr>ao_approved = True, ao_denyAction = ''none'', ao_err = False\<rparr>)
      | ApprovalTimerFired \<Rightarrow> \<lparr>ao_approved = False, ao_denyAction = ''approval_timeout'', ao_err = False\<rparr>)"

definition approvalTimeout :: "DbDecision \<Rightarrow> StatementRule \<Rightarrow> Duration" where
  "approvalTimeout d rule =
     (if stm_Timeout rule \<noteq> 0 then stm_Timeout rule
      else case dd_Approval d of
        Some a \<Rightarrow> if ar_Timeout a \<noteq> 0 then ar_Timeout a else 60 * 1000000000
      | None \<Rightarrow> 60 * 1000000000)"

definition approvalDecision :: "DecisionVerb \<Rightarrow> StatementRule \<Rightarrow> string \<Rightarrow> DbDecision" where
  "approvalDecision verb rule reason =
     \<lparr>dd_Verb = verb, dd_RuleKind = RuleKindStatement, dd_RuleName = stm_Name rule, dd_MatchingEffectIndex = 0,
      dd_MatchingEffectGroup = GroupUnknown, dd_Reason = reason, dd_ContributingAuditRules = [], dd_Approval = None, dd_Redirect = None\<rparr>"

definition approvalReason :: "string \<Rightarrow> string" where
  "approvalReason denyAction =
     (if denyAction = ''approval_timeout'' then ''approval timeout''
      else if denyAction = ''cancelled_during_approval'' then ''cancelled during approval''
      else ''approval denied'')"

definition decisionsWithApprovalDeny :: "DbDecision list \<Rightarrow> nat \<Rightarrow> string \<Rightarrow> DbDecision list" where
  "decisionsWithApprovalDeny ds i reason =
     (if i < length ds then ds[i := (ds ! i)\<lparr>dd_Verb := VerbDeny, dd_Reason := reason\<rparr>] else ds)"

text \<open>The arguments every event has; the protocol state is filled in when the event is emitted.\<close>

definition statementEvent :: "ClassifiedStatement \<Rightarrow> string \<Rightarrow> DbDecision \<Rightarrow> string \<Rightarrow> string \<Rightarrow> buildArgs" where
  "statementEvent cs sql d denyAction batchSHA =
     \<lparr>ba_Stmt = cs, ba_StmtIndex = 0, ba_BatchTotal = 1, ba_Decision = d, ba_SQL = sql, ba_smState = zero_ConnState,
      ba_BytesIn = length sql, ba_RowsReturned = None, ba_RowsAffected = None, ba_UpstreamErrCode = [], ba_DenyAction = denyAction,
      ba_IsDeniedBySibling = False, ba_BatchSHA = batchSHA, ba_Redirect = zero_redirectEventArgs\<rparr>"

definition nth_or_nil :: "int option list \<Rightarrow> nat \<Rightarrow> int option" where
  "nth_or_nil xs i = (if i < length xs then xs ! i else None)"

definition frameSQL :: "Frame \<Rightarrow> string" where
  "frameSQL f = (case f of QueryFrame sql \<Rightarrow> sql | ParseFrame _ sql \<Rightarrow> sql | _ \<Rightarrow> [])"

definition refreshEntry :: "ClassifiedStatement list \<Rightarrow> ClassifiedStatement \<Rightarrow> cache_Entry" where
  "refreshEntry stmts cs = (case statementsNeedCatalogRefresh stmts of (p, s) \<Rightarrow> plain_entry cs p s)"

definition cacheApprovedParse :: "string \<Rightarrow> ClassifiedStatement \<Rightarrow> proxyConn \<Rightarrow> proxyConn" where
  "cacheApprovedParse name stmt pc =
     pc\<lparr>pc_wire := cache_Put (pc_wire pc) name (refreshEntry [stmt] stmt), pc_sm := (pc_sm pc)\<lparr>sm_UpstreamDirtySinceSync := True\<rparr>\<rparr>"

section \<open>Executing actions\<close>

definition redirectEvents :: "cache_Entry list \<Rightarrow> upstreamResult \<Rightarrow> buildArgs list" where
  "redirectEvents pending result = concat (map (\<lambda>i. case ent_Redirect (pending ! i) of
       None \<Rightarrow> []
     | Some r \<Rightarrow>
         [(statementEvent (rmd_OriginalClassification r) (rmd_OriginalSQL r)
             ((approvalDecision VerbRedirect zero_StatementRule [])\<lparr>dd_RuleName := rmd_Rule r, dd_MatchingEffectGroup := GroupNone\<rparr>)
             ''none'' (rmd_OriginalStatementDigest r))
            \<lparr>ba_StmtIndex := i, ba_BatchTotal := length pending, ba_BytesIn := 0, ba_RowsReturned := nth_or_nil (ur_RowsByStmt result) i,
             ba_RowsAffected := nth_or_nil (ur_AffectedByStmt result) i, ba_UpstreamErrCode := ur_ErrorCode result,
             ba_Redirect := \<lparr>rea_Redirected = True, rea_Rule = rmd_Rule r, rea_RewrittenSQL = [],
               rea_RewrittenStatementDigest = rmd_RewrittenStatementDigest r, rea_SourceRelation = rmd_SourceRelation r,
               rea_TargetRelation = rmd_TargetRelation r, rea_RuntimeStatus = ''executed'', rea_RejectionReason = []\<rparr>\<rparr>]) [0 ..< length pending])"

definition emitPendingRedirectExecuteEvents :: "upstreamResult \<Rightarrow> proxyConn \<Rightarrow> proxyConn" where
  "emitPendingRedirectExecuteEvents result pc =
     emit (redirectEvents (pc_pendingRedirectExec pc) result) (pc\<lparr>pc_pendingRedirectExec := []\<rparr>)"

definition executeIO :: "proxyEnv \<Rightarrow> Frame \<Rightarrow> proxyConn \<Rightarrow> Action \<Rightarrow> proxyConn \<times> proxy_error option" where
  "executeIO env orig pc a =
     (case a of
        ActionForward \<Rightarrow> (send orig pc, None)
      | ActionSynthError st msg sev \<Rightarrow> (reply (SynthError st msg (if sev = [] then ''ERROR'' else sev)) pc, None)
      | ActionSynthReadyForQuery c \<Rightarrow> (reply (SynthReady c) pc, None)
      | ActionSynthParseComplete \<Rightarrow> (reply SynthParseComplete pc, None)
      | ActionSynthBindComplete \<Rightarrow> (reply SynthBindComplete pc, None)
      | ActionSuppress \<Rightarrow> (pc, None)
      | ActionInjectRollback \<Rightarrow> (send (QueryFrame ''ROLLBACK'') pc, None)
      | ActionDrainUntilRFQ \<Rightarrow>
          (case forwardUpstreamUntilRFQ (env_now env) pc of
             (pc', _, Some e) \<Rightarrow> (pc', Some e)
           | (pc', result, None) \<Rightarrow> (refreshPendingCatalogContext (env_loader env) (emitPendingRedirectExecuteEvents result pc'), None))
      | ActionClose \<Rightarrow> (pc, Some errInTxTerminate)
      | ActionTrackUpstreamRFQ c \<Rightarrow> (pc\<lparr>pc_sm := (pc_sm pc)\<lparr>sm_LastUpstreamRFQ := c\<rparr>\<rparr>, None)
      | ActionApproverWait _ _ _ \<Rightarrow> (pc, Some errUnknownAction))"

fun runActions :: "(proxyConn \<Rightarrow> Action \<Rightarrow> proxyConn \<times> proxy_error option) \<Rightarrow> proxyConn \<Rightarrow> Action list \<Rightarrow> proxyConn \<times> proxy_error option" where
  "runActions act pc [] = (pc, None)"
| "runActions act pc (a # as) = (case act pc a of (pc', None) \<Rightarrow> runActions act pc' as | (pc', Some e) \<Rightarrow> (pc', Some e))"

text \<open>
  \<^verbatim>\<open>runApprovalWait\<close> calls back into \<^verbatim>\<open>executeActions\<close>, with the actions of a deny route: these contain no approval wait
  (lemma \<open>DenyRoute_execute\<close> of \<^verbatim>\<open>DbQuerySafety\<close>), so the callback runs the actions without that case.
\<close>

definition runApprovalWait :: "proxyEnv \<Rightarrow> Frame \<Rightarrow> proxyConn \<Rightarrow> Duration \<Rightarrow> ClassifiedStatement \<Rightarrow> StatementRule \<Rightarrow> proxyConn \<times> proxy_error option" where
  "runApprovalWait env orig pc timeout stmt rule =
     (let out = waitForApproval (env_approval env) timeout;
          event = (\<lambda>d da. emit [statementEvent stmt (frameSQL orig) d da (lib_sha256hex (env_events env) (frameSQL orig))])
      in if ao_err out then
           (event (approvalDecision VerbDeny rule ''cancelled during approval'') (ao_denyAction out) pc, Some errContext)
         else if ao_approved out then
           (let pc1 = event (approvalDecision VerbApprove rule []) ''none'' pc;
                pc2 = (case orig of ParseFrame name _ \<Rightarrow> cacheApprovedParse name stmt pc1 | _ \<Rightarrow> pc1)
            in (send orig pc2, None))
         else
           (let pc1 = event (approvalDecision VerbDeny rule (approvalReason (ao_denyAction out))) (ao_denyAction out) pc
            in runActions (executeIO env orig) pc1
                 (DenyRoute (pc_sm pc1) rule (''denied by AgentSH policy: '' @ approvalReason (ao_denyAction out)) ''42501'')))"

definition executeAction :: "proxyEnv \<Rightarrow> Frame \<Rightarrow> proxyConn \<Rightarrow> Action \<Rightarrow> proxyConn \<times> proxy_error option" where
  "executeAction env orig pc a =
     (case a of ActionApproverWait timeout stmt rule \<Rightarrow> runApprovalWait env orig pc timeout stmt rule | _ \<Rightarrow> executeIO env orig pc a)"

definition executeActions :: "proxyEnv \<Rightarrow> Frame \<Rightarrow> proxyConn \<Rightarrow> Action list \<Rightarrow> proxyConn \<times> proxy_error option" where
  "executeActions env orig pc as = runActions (executeAction env orig) pc as"

section \<open>Redirect plans\<close>

record redirectRuntimePlan =
  rrp_RewrittenSQL :: string
  rrp_RewrittenStatements :: "ClassifiedStatement list"
  rrp_OriginalStatementDigest :: string
  rrp_RewrittenStatementDigest :: string
  rrp_Rule :: string
  rrp_SourceRelation :: string
  rrp_TargetRelation :: string
  rrp_RuntimeStatus :: string
  rrp_RejectionReason :: string

definition zero_plan :: redirectRuntimePlan where
  "zero_plan = \<lparr>rrp_RewrittenSQL = [], rrp_RewrittenStatements = [], rrp_OriginalStatementDigest = [], rrp_RewrittenStatementDigest = [],
     rrp_Rule = [], rrp_SourceRelation = [], rrp_TargetRelation = [], rrp_RuntimeStatus = [], rrp_RejectionReason = []\<rparr>"

definition redirectActionFromRuntimeInput :: "DbDecision \<Rightarrow> StatementRule \<Rightarrow> string + redirectAction" where
  "redirectActionFromRuntimeInput d rule =
     (let ruleName = (if dd_RuleName d = [] then stm_Name rule else dd_RuleName d) in
      case dd_Redirect d of
        Some rd \<Rightarrow> Inr \<lparr>ra_RuleName = ruleName, ra_SourceRelation = rd_SourceRelation rd, ra_TargetRelation = rd_TargetRelation rd\<rparr>
      | None \<Rightarrow>
          (case (stm_Relations rule, stm_Redirect rule) of
             ([source], Some target) \<Rightarrow> Inr \<lparr>ra_RuleName = ruleName, ra_SourceRelation = source, ra_TargetRelation = target\<rparr>
           | _ \<Rightarrow> Inl ''missing_redirect_action''))"

definition PlanRedirect :: "proxyEnv \<Rightarrow> string \<Rightarrow> ClassifiedStatement \<Rightarrow> DbDecision \<Rightarrow> StatementRule \<Rightarrow> string + redirectRuntimePlan" where
  "PlanRedirect env sql stmt d rule =
     (case env_planner env of
        None \<Rightarrow> Inl ''unsupported_redirect_dialect''
      | Some plan \<Rightarrow>
          sum_bind (redirectActionFromRuntimeInput d rule) (\<lambda>action.
          sum_bind (plan sql stmt action) (\<lambda>rewritten.
            Inr (zero_plan\<lparr>rrp_RewrittenSQL := rewritten, rrp_Rule := ra_RuleName action,
                   rrp_SourceRelation := ra_SourceRelation action, rrp_TargetRelation := ra_TargetRelation action\<rparr>))))"

definition statementIsReadOnly :: "ClassifiedStatement \<Rightarrow> bool" where
  "statementIsReadOnly stmt \<longleftrightarrow> cst_Effects stmt \<noteq> [] \<and> list_all (\<lambda>e. e_Group e = GroupRead) (cst_Effects stmt)"

definition rejectPlan :: "string \<Rightarrow> redirectRuntimePlan \<Rightarrow> redirectRuntimePlan" where
  "rejectPlan reason plan = plan\<lparr>rrp_RejectionReason := reason, rrp_RuntimeStatus := ''rejected''\<rparr>"

text \<open>\<open>Inl\<close> a rejected plan, \<open>Inr\<close> one to execute.\<close>

definition planRuntimeRedirect :: "proxyEnv \<Rightarrow> proxyConn \<Rightarrow> string \<Rightarrow> ClassifiedStatement \<Rightarrow> DbDecision \<Rightarrow> redirectRuntimePlan + redirectRuntimePlan" where
  "planRuntimeRedirect env pc sql stmt d =
     (case PlanRedirect env sql stmt d (lookupStatementRule (env_rules env) (dd_RuleName d)) of
        Inl reason \<Rightarrow> Inl (rejectPlan reason zero_plan)
      | Inr plan0 \<Rightarrow>
          (let plan = (if rrp_Rule plan0 = [] then plan0\<lparr>rrp_Rule := dd_RuleName d\<rparr> else plan0) in
           if rrp_RewrittenSQL plan = [] then Inl (rejectPlan ''empty_rewritten_statement'' plan)
           else case classifyBatch env pc (rrp_RewrittenSQL plan) of
             ([cs], False) \<Rightarrow>
               (if \<not> statementIsReadOnly cs then Inl (rejectPlan ''rewritten_statement_not_read_only'' plan)
                else Inr (plan\<lparr>rrp_RewrittenStatements := [cs], rrp_OriginalStatementDigest := statementDigest (env_events env) sql,
                       rrp_RewrittenStatementDigest := statementDigest (env_events env) (rrp_RewrittenSQL plan), rrp_RuntimeStatus := ''planned''\<rparr>))
           | _ \<Rightarrow> Inl (rejectPlan ''rewritten_statement_unclassifiable'' plan)))"

definition redirectEventFromPlan :: "redirectRuntimePlan \<Rightarrow> string \<Rightarrow> redirectEventArgs" where
  "redirectEventFromPlan plan status =
     \<lparr>rea_Redirected = True, rea_Rule = rrp_Rule plan, rea_RewrittenSQL = rrp_RewrittenSQL plan,
      rea_RewrittenStatementDigest = rrp_RewrittenStatementDigest plan, rea_SourceRelation = rrp_SourceRelation plan,
      rea_TargetRelation = rrp_TargetRelation plan, rea_RuntimeStatus = (if status = [] then rrp_RuntimeStatus plan else status),
      rea_RejectionReason = rrp_RejectionReason plan\<rparr>"

definition redirectAllowEvent :: "proxyEnv \<Rightarrow> ClassifiedStatement \<Rightarrow> string \<Rightarrow> DbDecision \<Rightarrow> redirectRuntimePlan \<Rightarrow> upstreamResult \<Rightarrow> buildArgs" where
  "redirectAllowEvent env stmt sql d plan result =
     (statementEvent stmt sql d ''none'' (lib_sha256hex (env_events env) sql))
       \<lparr>ba_RowsReturned := nth_or_nil (ur_RowsByStmt result) 0, ba_RowsAffected := nth_or_nil (ur_AffectedByStmt result) 0,
        ba_UpstreamErrCode := ur_ErrorCode result, ba_Redirect := redirectEventFromPlan plan ''executed''\<rparr>"

definition redirectRejectedEvent :: "proxyEnv \<Rightarrow> ClassifiedStatement \<Rightarrow> string \<Rightarrow> DbDecision \<Rightarrow> redirectRuntimePlan \<Rightarrow> buildArgs" where
  "redirectRejectedEvent env stmt sql d plan =
     (statementEvent stmt sql d ''none'' (lib_sha256hex (env_events env) sql))
       \<lparr>ba_UpstreamErrCode := ''0A000'', ba_Redirect := redirectEventFromPlan plan ''rejected''\<rparr>"

definition multiStatementPlan :: "DbDecision \<Rightarrow> redirectRuntimePlan" where
  "multiStatementPlan d =
     (let plan = zero_plan\<lparr>rrp_Rule := dd_RuleName d, rrp_RuntimeStatus := ''rejected'', rrp_RejectionReason := ''multi_statement_redirect_unsupported''\<rparr>
      in case dd_Redirect d of
           None \<Rightarrow> plan
         | Some r \<Rightarrow> plan\<lparr>rrp_SourceRelation := rd_SourceRelation r, rrp_TargetRelation := rd_TargetRelation r\<rparr>)"

definition firstVerb :: "DecisionVerb \<Rightarrow> DbDecision list \<Rightarrow> nat option" where
  "firstVerb v ds = List.find (\<lambda>i. dd_Verb (ds ! i) = v) [0 ..< length ds]"

section \<open>The extended protocol\<close>

definition frameFromPgproto :: "Frame \<Rightarrow> Frame option" where
  "frameFromPgproto f =
     (case f of FunctionCallFrame _ \<Rightarrow> None | CopyDataFrame _ \<Rightarrow> None | CopyDoneFrame \<Rightarrow> None | CopyFailFrame _ \<Rightarrow> None | _ \<Rightarrow> Some f)"

definition actionsCanForward :: "Action list \<Rightarrow> bool" where
  "actionsCanForward as = list_ex (\<lambda>a. a = ActionForward) as"

text \<open>\<open>None\<close>: the parse is left to the state machine.\<close>

definition tryHandleRedirectParse :: "proxyEnv \<Rightarrow> proxyConn \<Rightarrow> string \<Rightarrow> string \<Rightarrow> ClassifiedStatement list \<Rightarrow> (proxyConn \<times> proxy_error option) option" where
  "tryHandleRedirectParse env pc name sql stmts =
     (case those (map (evaluate env) stmts) of
        None \<Rightarrow> Some (pc, Some errPanic)
      | Some ds \<Rightarrow>
          if list_ex (\<lambda>d. dd_Verb d = VerbDeny \<or> dd_Verb d = VerbApprove) ds then None
          else case firstVerb VerbRedirect ds of
            None \<Rightarrow> None
          | Some i \<Rightarrow>
              if length stmts \<noteq> 1 \<or> i \<noteq> 0 then
                (let pc1 = emit [redirectRejectedEvent env (stmts ! i) sql (ds ! i) (multiStatementPlan (ds ! i))] pc in
                 Some (executeActions env (ParseFrame name sql) pc1 (DenyRoute (pc_sm pc1) zero_StatementRule
                   ''redirect rejected by AgentSH policy: multi-statement redirect unsupported'' ''0A000'')))
              else case planRuntimeRedirect env pc sql (stmts ! 0) (ds ! 0) of
                Inl plan \<Rightarrow>
                  (let pc1 = emit [redirectRejectedEvent env (stmts ! 0) sql (ds ! 0) plan] pc;
                       actions = DenyRoute (pc_sm pc1) zero_StatementRule (''redirect rejected by AgentSH policy: '' @ rrp_RejectionReason plan) ''0A000'';
                       pc2 = (if containsClose actions then pc1 else pc1\<lparr>pc_sm := (pc_sm pc1)\<lparr>sm_Absorbing := True\<rparr>\<rparr>)
                   in Some (executeActions env (ParseFrame name sql) pc2 actions))
              | Inr plan \<Rightarrow>
                  (let entry = (refreshEntry (rrp_RewrittenStatements plan) (rrp_RewrittenStatements plan ! 0))
                         \<lparr>ent_Redirect := Some \<lparr>rmd_OriginalClassification = stmts ! 0, rmd_OriginalSQL = sql,
                            rmd_OriginalStatementDigest = rrp_OriginalStatementDigest plan,
                            rmd_RewrittenStatementDigest = rrp_RewrittenStatementDigest plan, rmd_Rule = rrp_Rule plan,
                            rmd_SourceRelation = rrp_SourceRelation plan, rmd_TargetRelation = rrp_TargetRelation plan,
                            rmd_PolicyIdentity = dd_RuleName (ds ! 0)\<rparr>\<rparr>;
                       pc1 = send (ParseFrame name (rrp_RewrittenSQL plan)) (pc\<lparr>pc_wire := cache_Put (pc_wire pc) name entry\<rparr>)
                   in Some (pc1\<lparr>pc_sm := (pc_sm pc1)\<lparr>sm_UpstreamDirtySinceSync := True\<rparr>\<rparr>, None)))"

definition preserveRedirectPortalMetadata :: "string \<Rightarrow> string \<Rightarrow> proxyConn \<Rightarrow> proxyConn" where
  "preserveRedirectPortalMetadata portal statement pc =
     (case cache_Get (pc_wire pc) statement of
        (c, Some entry) \<Rightarrow>
          pc\<lparr>pc_wire := (if ent_Redirect entry = None then c else cache_Put c (portalCacheKey portal) entry)\<rparr>
      | (c, None) \<Rightarrow> pc\<lparr>pc_wire := c\<rparr>)"

definition markCatalogRefreshPendingForExecute :: "string \<Rightarrow> Action list \<Rightarrow> proxyConn \<Rightarrow> proxyConn" where
  "markCatalogRefreshPendingForExecute portal actions pc =
     (if \<not> actionsCanForward actions then pc
      else case cache_Get (pc_wire pc) (portalCacheKey portal) of
        (c, None) \<Rightarrow> pc\<lparr>pc_wire := c\<rparr>
      | (c, Some entry) \<Rightarrow>
          (let pc1 = pc\<lparr>pc_wire := c\<rparr>;
               pc2 = (if ent_Redirect entry = None then pc1 else pc1\<lparr>pc_pendingRedirectExec := pc_pendingRedirectExec pc1 @ [entry]\<rparr>)
           in markCatalogRefreshPendingForNeeds (ent_CatalogRefreshSearchPath entry) (ent_CatalogRefreshSnapshot entry) pc2))"

text \<open>The part of \<^verbatim>\<open>handleExtendedFrame\<close> between the transition and its actions.\<close>

definition afterTransition :: "Frame \<Rightarrow> ClassifiedStatement list \<Rightarrow> Action list \<Rightarrow> proxyConn \<Rightarrow> proxyConn" where
  "afterTransition f stmts actions pc =
     (case f of
        ParseFrame name _ \<Rightarrow>
          (if stmts \<noteq> [] \<and> actionsCanForward actions
           then pc\<lparr>pc_wire := cache_Put (pc_wire pc) name (refreshEntry stmts (stmts ! 0))\<rparr> else pc)
      | BindFrame portal statement \<Rightarrow> (if actionsCanForward actions then preserveRedirectPortalMetadata portal statement pc else pc)
      | ExecuteFrame portal \<Rightarrow> markCatalogRefreshPendingForExecute portal actions pc
      | _ \<Rightarrow> pc)"

definition runTransition :: "proxyEnv \<Rightarrow> proxyConn \<Rightarrow> Frame \<Rightarrow> ClassifiedStatement list \<Rightarrow> proxyConn \<times> proxy_error option" where
  "runTransition env pc f stmts =
     (case TransitionWithParser wireCacheView (\<lambda>sql. fst (classifyBatch env pc sql)) (env_rules env) (env_svc env) (pc_sm pc) (pc_wire pc) f of
        None \<Rightarrow> (pc, Some errPanic)
      | Some (s', c', actions) \<Rightarrow>
          executeActions env f (afterTransition f stmts actions (pc\<lparr>pc_sm := s', pc_wire := c'\<rparr>)) actions)"

definition handleExtendedFrame :: "proxyEnv \<Rightarrow> proxyConn \<Rightarrow> Frame \<Rightarrow> proxyConn \<times> proxy_error option" where
  "handleExtendedFrame env pc f =
     (case f of
        ParseFrame name sql \<Rightarrow>
          (let stmts = fst (classifyBatch env pc sql) in
           case (if stmts = [] then None else tryHandleRedirectParse env pc name sql stmts) of
             Some r \<Rightarrow> r
           | None \<Rightarrow> runTransition env pc f stmts)
      | _ \<Rightarrow> runTransition env pc f [])"

section \<open>SQL-level prepared statements\<close>

definition Intercept :: "RuleSet option \<Rightarrow> ClassifiedStatement list \<Rightarrow> DbDecision list \<Rightarrow> cache_Entry Cache \<Rightarrow> ConnState
    \<Rightarrow> ClassifiedStatement list \<times> cache_Entry Cache \<times> Action list option" where
  "Intercept rs stmts ds cache s =
     (case stmts of
        [] \<Rightarrow> ([], cache, None)
      | first # rest \<Rightarrow>
          if HasPrefix (cst_RawVerb first) ''PREPARE'' then
            (if ds \<noteq> [] \<and> dd_Verb (ds ! 0) = VerbDeny then
               (stmts, cache, Some (DenyRoute s (lookupStatementRule rs (dd_RuleName (ds ! 0))) (''denied by AgentSH policy: '' @ dd_RuleName (ds ! 0)) ''42501''))
             else (stmts, cache_Put cache (cst_PreparedName first)
                     (plain_entry (first\<lparr>cst_RawVerb := TrimPrefix (cst_RawVerb first) ''PREPARE_'', cst_PreparedName := []\<rparr>) False False), None))
          else if cst_RawVerb first = ''EXECUTE'' then
            (case cache_Get cache (cst_PreparedName first) of
               (c, None) \<Rightarrow>
                 (stmts, c, Some [ActionSynthError ''26000'' (''SQL_PREPARED_CACHE_MISS: prepared statement '' @ [CHR 0x22] @ cst_PreparedName first
                    @ [CHR 0x22] @ '' does not exist in AgentSH proxy cache'') [], ActionSynthReadyForQuery (CHR ''I'')])
             | (c, Some e) \<Rightarrow> (first\<lparr>cst_Effects := cst_Effects (ent_Classification e), cst_Error := []\<rparr> # rest, c, None))
          else if cst_RawVerb first = ''DEALLOCATE'' then
            (stmts, if cst_PreparedName first = [] then cache_Clear cache else cache_Delete cache (cst_PreparedName first), None)
          else if cst_RawVerb first = ''DISCARD'' then
            (stmts, case cst_Effects first of
                      e # _ \<Rightarrow> if e_Subtype e = SubtypeDiscardAll \<or> e_Subtype e = SubtypeDiscardPlans then cache_Clear cache else cache
                    | [] \<Rightarrow> cache, None)
          else (stmts, cache, None))"

section \<open>Simple queries\<close>

definition synthErrorAndRFQ :: "string \<Rightarrow> string \<Rightarrow> proxyConn \<Rightarrow> proxyConn" where
  "synthErrorAndRFQ sqlstate msg pc = reply (SynthReady (CHR ''I'')) (reply (SynthError sqlstate msg ''ERROR'') pc)"

definition pickDenySynth :: "DbDecision list \<Rightarrow> string \<times> string" where
  "pickDenySynth ds =
     (case List.find (\<lambda>d. dd_Verb d = VerbDeny) ds of
        Some d \<Rightarrow> (renderDenyMessage d, if dd_RuleKind d = RuleKindConnection then ''28000'' else ''42501'')
      | None \<Rightarrow> (''denied by AgentSH policy'', ''42501''))"

definition denyActionForState :: "ConnState \<Rightarrow> StatementRule \<Rightarrow> string" where
  "denyActionForState s rule =
     (if sm_LastUpstreamRFQ s = CHR ''T'' \<or> sm_LastUpstreamRFQ s = CHR ''E'' then
        (if stm_DenyModeInTx rule = ''rollback_then_continue'' then ''rollback_injected'' else ''connection_terminated'')
      else ''none'')"

definition denyEvents :: "proxyEnv \<Rightarrow> string \<Rightarrow> string \<Rightarrow> ClassifiedStatement list \<Rightarrow> DbDecision list \<Rightarrow> buildArgs list" where
  "denyEvents env sql denyAction stmts ds =
     map (\<lambda>i. (statementEvent (stmts ! i) sql (ds ! i) denyAction (lib_sha256hex (env_events env) sql))
         \<lparr>ba_StmtIndex := i, ba_BatchTotal := length stmts, ba_IsDeniedBySibling := dd_Verb (ds ! i) \<noteq> VerbDeny\<rparr>) [0 ..< length stmts]"

definition allowEvents :: "proxyEnv \<Rightarrow> string \<Rightarrow> ClassifiedStatement list \<Rightarrow> DbDecision list \<Rightarrow> upstreamResult \<Rightarrow> buildArgs list" where
  "allowEvents env sql stmts ds r =
     map (\<lambda>i. (statementEvent (stmts ! i) sql (ds ! i) ''none'' (lib_sha256hex (env_events env) sql))
         \<lparr>ba_StmtIndex := i, ba_BatchTotal := length stmts,
          ba_RowsReturned := (if i < length (ur_RowsByStmt r) then ur_RowsByStmt r ! i else None),
          ba_RowsAffected := (if i < length (ur_RowsByStmt r) then ur_AffectedByStmt r ! i else None),
          ba_UpstreamErrCode := (if i < length (ur_RowsByStmt r) then (if i = 0 then ur_ErrorCode r else [])
                                 else ''STATEMENT_ABORTED_BY_PRIOR_ERROR'')\<rparr>) [0 ..< length stmts]"

definition denyingRule :: "RuleSet option \<Rightarrow> DbDecision list \<Rightarrow> StatementRule" where
  "denyingRule rs ds =
     (case List.find (\<lambda>d. dd_Verb d = VerbDeny) ds of Some d \<Rightarrow> lookupStatementRule rs (dd_RuleName d) | None \<Rightarrow> zero_StatementRule)"

definition runSimpleQueryRedirect :: "proxyEnv \<Rightarrow> proxyConn \<Rightarrow> string \<Rightarrow> ClassifiedStatement list \<Rightarrow> DbDecision list \<Rightarrow> nat \<Rightarrow> proxyConn \<times> proxy_error option" where
  "runSimpleQueryRedirect env pc sql stmts ds i =
     (if length stmts \<noteq> 1 \<or> i \<noteq> 0 then
        (synthErrorAndRFQ ''0A000'' ''redirect rejected by AgentSH policy: multi-statement redirect unsupported''
           (emit [redirectRejectedEvent env (stmts ! i) sql (ds ! i) (multiStatementPlan (ds ! i))] pc), None)
      else case planRuntimeRedirect env pc sql (stmts ! i) (ds ! i) of
        Inl plan \<Rightarrow>
          (synthErrorAndRFQ ''0A000'' (''redirect rejected by AgentSH policy: '' @ rrp_RejectionReason plan)
             (emit [redirectRejectedEvent env (stmts ! i) sql (ds ! i) plan] pc), None)
      | Inr plan \<Rightarrow>
          (case forwardUpstreamUntilRFQ (env_now env) (send (QueryFrame (rrp_RewrittenSQL plan)) pc) of
             (pc1, result, err) \<Rightarrow>
               (refreshCatalogAfterSuccessfulStatements (env_loader env) (rrp_RewrittenStatements plan) result
                  (emit [redirectAllowEvent env (stmts ! i) sql (ds ! i) plan result] pc1), err)))"

definition runSimpleQueryApproval :: "proxyEnv \<Rightarrow> proxyConn \<Rightarrow> string \<Rightarrow> ClassifiedStatement list \<Rightarrow> DbDecision list \<Rightarrow> nat \<Rightarrow> proxyConn \<times> proxy_error option" where
  "runSimpleQueryApproval env pc sql stmts ds i =
     (let rule = lookupStatementRule (env_rules env) (dd_RuleName (ds ! i));
          out = waitForApproval (env_approval env) (approvalTimeout (ds ! i) rule)
      in if ao_err out then
           (emit (denyEvents env sql (ao_denyAction out) stmts (decisionsWithApprovalDeny ds i ''cancelled during approval'')) pc, Some errContext)
         else if ao_approved out then
           (case forwardUpstreamUntilRFQ (env_now env) (send (QueryFrame sql) pc) of
              (pc1, result, err) \<Rightarrow>
                (refreshCatalogAfterSuccessfulStatements (env_loader env) stmts result (emit (allowEvents env sql stmts ds result) pc1), err))
         else
           (let pc1 = emit (denyEvents env sql (ao_denyAction out) stmts (decisionsWithApprovalDeny ds i (approvalReason (ao_denyAction out)))) pc
            in executeActions env (QueryFrame sql) pc1
                 (DenyRoute (pc_sm pc1) rule (''denied by AgentSH policy: '' @ approvalReason (ao_denyAction out)) ''42501'')))"

definition runSimpleQueryAllow :: "proxyEnv \<Rightarrow> proxyConn \<Rightarrow> string \<Rightarrow> ClassifiedStatement list \<Rightarrow> DbDecision list \<Rightarrow> proxyConn \<times> proxy_error option" where
  "runSimpleQueryAllow env pc sql stmts ds =
     (case forwardUpstreamUntilRFQ (env_now env) (send (QueryFrame sql) pc) of
        (pc1, result1, err1) \<Rightarrow>
          (case (if err1 = None \<and> (ur_YieldedToCopyIn result1 \<or> ur_YieldedToCopyOut result1) then
                   (case (if ur_YieldedToCopyOut result1 then runCopyOutLoop (env_now env) pc1 else runCopyInLoop (env_now env) (env_copy env) pc1) of
                      (pc2, copyResult, cerr) \<Rightarrow>
                        (pc2, result1\<lparr>ur_BytesIn := ur_BytesIn result1 + ur_BytesIn copyResult, ur_RowsByStmt := ur_RowsByStmt result1 @ ur_RowsByStmt copyResult,
                                     ur_AffectedByStmt := ur_AffectedByStmt result1 @ ur_AffectedByStmt copyResult,
                                     ur_ErrorCode := (if ur_ErrorCode copyResult \<noteq> [] then ur_ErrorCode copyResult else ur_ErrorCode result1)\<rparr>, cerr))
                 else (pc1, result1, err1)) of
             (pc2, result, err) \<Rightarrow>
               (refreshCatalogAfterSuccessfulStatements (env_loader env) stmts result (emit (allowEvents env sql stmts ds result) pc2), err)))"

definition runSimpleQueryDeny :: "proxyEnv \<Rightarrow> proxyConn \<Rightarrow> string \<Rightarrow> ClassifiedStatement list \<Rightarrow> DbDecision list \<Rightarrow> proxyConn \<times> proxy_error option" where
  "runSimpleQueryDeny env pc sql stmts ds =
     (let rule = denyingRule (env_rules env) ds;
          pc1 = emit (denyEvents env sql (denyActionForState (pc_sm pc) rule) stmts ds) pc
      in case pickDenySynth ds of (rendered, sqlstate) \<Rightarrow>
           executeActions env (QueryFrame sql) pc1 (DenyRoute (pc_sm pc1) rule rendered sqlstate))"

definition dispatchQuery :: "proxyEnv \<Rightarrow> proxyConn \<Rightarrow> string \<Rightarrow> ClassifiedStatement list \<Rightarrow> DbDecision list \<Rightarrow> proxyConn \<times> proxy_error option" where
  "dispatchQuery env pc sql stmts ds =
     (if list_ex (\<lambda>d. dd_Verb d = VerbDeny) ds then runSimpleQueryDeny env pc sql stmts ds
      else case firstVerb VerbRedirect ds of
        Some i \<Rightarrow> runSimpleQueryRedirect env pc sql stmts ds i
      | None \<Rightarrow>
          (case firstVerb VerbApprove ds of
             Some i \<Rightarrow> runSimpleQueryApproval env pc sql stmts ds i
           | None \<Rightarrow> runSimpleQueryAllow env pc sql stmts ds))"

definition isPrepare :: "ClassifiedStatement list \<Rightarrow> bool" where
  "isPrepare stmts \<longleftrightarrow> stmts \<noteq> [] \<and> HasPrefix (cst_RawVerb (stmts ! 0)) ''PREPARE''"

definition handleSimpleQuery :: "proxyEnv \<Rightarrow> proxyConn \<Rightarrow> string \<Rightarrow> proxyConn \<times> proxy_error option" where
  "handleSimpleQuery env pc sql =
     (if length sql > env_MaxQueryBytes env then
        (synthErrorAndRFQ ''54000'' (''statement too large for AgentSH proxy: '' @ Itoa (int (length sql)) @ '' bytes > '' @ Itoa (int (env_MaxQueryBytes env)) @ '' cap'') pc,
         Some errFrameTooLargeClose)
      else let stmts0 = fst (classifyBatch env pc sql) in
        case (if isPrepare stmts0 then (stmts0, pc_sql pc, None) else Intercept (env_rules env) stmts0 [] (pc_sql pc) (pc_sm pc)) of
          (stmts, c, Some actions) \<Rightarrow> executeActions env (QueryFrame sql) (pc\<lparr>pc_sql := c\<rparr>) actions
        | (stmts, c, None) \<Rightarrow>
            (let pc1 = pc\<lparr>pc_sql := c\<rparr> in
             case those (map (evaluate env) stmts) of
               None \<Rightarrow> (pc1, Some errPanic)
             | Some ds \<Rightarrow>
                 (case (if isPrepare stmts then Intercept (env_rules env) stmts ds (pc_sql pc1) (pc_sm pc1) else (stmts, pc_sql pc1, None)) of
                    (_, c', Some actions) \<Rightarrow>
                      (let pc2 = emit (denyEvents env sql (denyActionForState (pc_sm pc1) (denyingRule (env_rules env) ds)) stmts ds) (pc1\<lparr>pc_sql := c'\<rparr>)
                       in executeActions env (QueryFrame sql) pc2 actions)
                  | (_, c', None) \<Rightarrow> dispatchQuery env (pc1\<lparr>pc_sql := c'\<rparr>) sql stmts ds)))"

section \<open>Function calls and other frames\<close>

definition int32_of :: "nat \<Rightarrow> int" where
  "int32_of n = (let m = int n mod 2 ^ 32 in if m < 2 ^ 31 then m else m - 2 ^ 32)"

definition functionCallStatement :: "nat \<Rightarrow> ClassifiedStatement" where
  "functionCallStatement oid =
     \<lparr>cst_Effects = [\<lparr>e_Group = GroupProcedural, e_Subtype = SubtypeFunctionCallProtocol, e_Objects = [], e_ResolvedObjects = [],
        e_Resolution = ResolutionQualified, e_HasWhere = False, e_FunctionOID = Some (int32_of oid)\<rparr>],
      cst_RawVerb = ''FUNCTION_CALL'', cst_ParserBackend = ParserBackendUnknown, cst_Error = [],
      cst_SourceStart = 0, cst_SourceEnd = 0, cst_PreparedName = [], cst_BulkOp = BulkOpNone\<rparr>"

definition allowsFunctionCalls :: "RuleSet option \<Rightarrow> ServiceID \<Rightarrow> bool" where
  "allowsFunctionCalls rs svc =
     (case rs of None \<Rightarrow> False
      | Some rs \<Rightarrow> (case map_of (rset_services rs) svc of None \<Rightarrow> False | Some s \<Rightarrow> db_AllowFunctionCallProtocol s))"

definition forwardFunctionCall :: "proxyEnv \<Rightarrow> proxyConn \<Rightarrow> Frame \<Rightarrow> ClassifiedStatement \<Rightarrow> DbDecision \<Rightarrow> proxyConn \<times> proxy_error option" where
  "forwardFunctionCall env pc f cs d =
     (case forwardUpstreamUntilRFQ (env_now env) (send f pc) of (pc1, _, err) \<Rightarrow> (emit [statementEvent cs [] d ''none'' []] pc1, err))"

definition handleFunctionCall :: "proxyEnv \<Rightarrow> proxyConn \<Rightarrow> nat \<Rightarrow> proxyConn \<times> proxy_error option" where
  "handleFunctionCall env pc oid =
     (if \<not> allowsFunctionCalls (env_rules env) (env_svc env) then
        (reply (SynthError ''42501'' ''FunctionCall sub-protocol denied by AgentSH policy'' ''FATAL'') pc, Some errUnsupportedFrame)
      else let cs = resolveStatementCatalog (pc_catalog pc) (functionCallStatement oid); f = FunctionCallFrame oid in
        case evaluate env cs of
          None \<Rightarrow> (pc, Some errPanic)
        | Some d \<Rightarrow>
            (let rule = lookupStatementRule (env_rules env) (dd_RuleName d) in
             if dd_Verb d = VerbApprove then
               (let out = waitForApproval (env_approval env) (approvalTimeout d rule);
                    denied = d\<lparr>dd_Verb := VerbDeny, dd_Reason := approvalReason (ao_denyAction out)\<rparr>
                in if ao_err out then (emit [statementEvent cs [] denied (ao_denyAction out) []] pc, Some errContext)
                   else if ao_approved out then forwardFunctionCall env pc f cs d
                   else executeActions env f (emit [statementEvent cs [] denied (ao_denyAction out) []] pc)
                          (DenyRoute (pc_sm pc) rule (renderDenyMessage denied) ''42501''))
             else if dd_Verb d = VerbDeny then
               executeActions env f (emit [statementEvent cs [] d (denyActionForState (pc_sm pc) rule) []] pc)
                 (DenyRoute (pc_sm pc) rule (renderDenyMessage d) ''42501'')
             else forwardFunctionCall env pc f cs d))"

definition handleUnsupportedFrame :: "proxyEnv \<Rightarrow> proxyConn \<Rightarrow> Frame \<Rightarrow> proxyConn \<times> proxy_error option" where
  "handleUnsupportedFrame env pc f =
     (case f of
        FunctionCallFrame oid \<Rightarrow> handleFunctionCall env pc oid
      | _ \<Rightarrow> (reply (SynthError ''0A000'' ''Extended Query / COPY / FunctionCall not supported in AgentSH proxy phase 1'' ''FATAL'') pc,
              Some errUnsupportedFrame))"

text \<open>
  One iteration of \<^verbatim>\<open>simpleQueryLoop\<close>. The loop ends when an iteration returns an error, after a \<^verbatim>\<open>Terminate\<close> frame, and after
  any frame of the last case, where the code returns the handler's result whatever it is.
\<close>

definition simpleQueryStep :: "proxyEnv \<Rightarrow> proxyConn \<Rightarrow> Frame \<Rightarrow> proxyConn \<times> proxy_error option" where
  "simpleQueryStep env pc f =
     (case f of
        QueryFrame sql \<Rightarrow> handleSimpleQuery env pc sql
      | TerminateFrame \<Rightarrow> (send f pc, Some connectionDone)
      | FunctionCallFrame _ \<Rightarrow> (case handleUnsupportedFrame env pc f of (pc', e) \<Rightarrow> (pc', Some (case e of Some e \<Rightarrow> e | None \<Rightarrow> connectionDone)))
      | CopyDataFrame _ \<Rightarrow> handleUnsupportedFrame env pc f
      | CopyDoneFrame \<Rightarrow> handleUnsupportedFrame env pc f
      | CopyFailFrame _ \<Rightarrow> handleUnsupportedFrame env pc f
      | _ \<Rightarrow> handleExtendedFrame env pc f)"

text \<open>
  The loop over the frames the client sends, each with the environment of its step. The end of the list is the end of the
  client's stream.
\<close>

primrec simpleQueryLoop :: "(proxyEnv \<times> Frame) list \<Rightarrow> proxyConn \<Rightarrow> proxyConn \<times> proxy_error" where
  "simpleQueryLoop [] pc = (pc, errReceive)"
| "simpleQueryLoop (x # xs) pc =
     (case simpleQueryStep (fst x) pc (snd x) of (pc', Some e) \<Rightarrow> (pc', e) | (pc', None) \<Rightarrow> simpleQueryLoop xs pc')"

end
