(* ===== verification/DbQuerySafety.thy ===== *)
theory DbQuerySafety
  imports DbProxy
begin

text \<open>
  What the handlers of \<^verbatim>\<open>DbProxy\<close> send to the database while they serve a simple query. \<open>sends P pc pc'\<close> says that \<open>pc'\<close> was
  reached from \<open>pc\<close> sending only frames that satisfy \<open>P\<close>, with the wire cache as it was; the lemmas compose along the code.
  \<open>queryFrame\<close> is the condition the policy puts on a frame sent in answer to a query. The last section is about the statement
  events: \<open>records\<close> says that every statement of a query has its event.
\<close>

section \<open>What reading from the database leaves alone\<close>

named_theorems quiet

text \<open>
  The relay of upstream messages and the refresh of the catalog write to a few fields of the connection. A view of the
  connection that ignores those fields is the same before and after.
\<close>

locale upstream_blind =
  fixes view :: "proxyConn \<Rightarrow> 'v"
  assumes blind_sm: "view (pc\<lparr>pc_sm := s\<rparr>) = view pc"
    and blind_up: "view (pc\<lparr>pc_up := ms\<rparr>) = view pc"
    and blind_out: "view (pc\<lparr>pc_out := ys\<rparr>) = view pc"
    and blind_store: "view (pc\<lparr>pc_store := e\<rparr>) = view pc"
    and blind_catalog: "view (pc\<lparr>pc_catalog := ctx\<rparr>) = view pc"
    and blind_pending: "view (pc\<lparr>pc_catalogRefreshPending := x\<rparr>) = view pc"
    and blind_snapshot_pending: "view (pc\<lparr>pc_catalogSnapshotRefreshPending := x\<rparr>) = view pc"
begin

lemmas blind [quiet] = blind_sm blind_up blind_out blind_store blind_catalog blind_pending blind_snapshot_pending

lemma blind_basic [quiet]:
  "view (reply m pc) = view pc" "view (staleContext pc) = view pc" "view (afterLoad c ms pc) = view pc"
  "view (markCatalogRefreshPendingForNeeds p s pc) = view pc" "view (synthErrorAndRFQ st msg pc) = view pc"
  by (simp_all add: blind reply_def staleContext_def afterLoad_def markCatalogRefreshPendingForNeeds_def synthErrorAndRFQ_def)

lemma blind_relayLoop [quiet]: "view (fst (relayLoop now ms pc r cur)) = view pc"
proof (induction ms arbitrary: pc r cur)
  case (Cons m ms)
  show ?case by (cases m) (simp_all add: Let_def Cons.IH blind blind_basic)
qed (simp add: blind)

lemma blind_forward [quiet]: "view (fst (forwardUpstreamUntilRFQ now pc)) = view pc"
  by (simp add: forwardUpstreamUntilRFQ_def blind_relayLoop)

lemma blind_mergeCopyDrain [quiet]: "view (fst (mergeCopyDrain now pc r)) = view pc"
  by (simp add: mergeCopyDrain_def case_prod_beta blind_forward)

lemma blind_copyOutLoop [quiet]: "view (fst (copyOutLoop now ms pc r)) = view pc"
proof (induction ms arbitrary: pc r)
  case (Cons m ms)
  show ?case by (cases m) (simp_all add: Let_def Cons.IH blind blind_basic blind_mergeCopyDrain)
qed (simp add: blind)

lemma blind_load [quiet]: "view (fst (loadSearchPath ld pc)) = view pc" "view (fst (loadSnapshot ld pc)) = view pc"
  by (simp_all add: loadSearchPath_def loadSnapshot_def blind_basic split: prod.splits sum.splits)

lemma blind_get [quiet]: "view (fst (loadOrGetSnapshot ld pc)) = view pc"
  by (simp add: loadOrGetSnapshot_def case_prod_beta blind blind_load split: option.splits)

lemma blind_refresh [quiet]: "view (refreshCatalogContext ld x pc) = view pc"
proof -
  have "view (fst (store_refresh ld pc)) = view pc"
    using blind_load(1) [of ld pc] blind_load(2) [of ld "fst (loadSearchPath ld pc)"] by (simp add: store_refresh_def blind case_prod_beta)
  moreover have "view (fst (store_refreshSearchPath ld pc)) = view pc"
    using blind_load(1) [of ld pc] blind_get [of ld "fst (loadSearchPath ld pc)"] by (simp add: store_refreshSearchPath_def case_prod_beta)
  ultimately show ?thesis by (simp add: refreshCatalogContext_def blind case_prod_beta)
qed

lemma blind_refreshes [quiet]:
  "view (refreshPendingCatalogContext ld pc) = view pc" "view (refreshCatalogForStatements ld stmts pc) = view pc"
  "view (refreshCatalogAfterSuccessfulStatements ld stmts r pc) = view pc"
  by (simp_all add: refreshPendingCatalogContext_def refreshCatalogAfterSuccessfulStatements_def refreshCatalogForStatements_def Let_def
      blind_refresh blind_basic blind split: prod.splits)

end

text \<open>What the proxy wrote to the database, with the wire cache, is such a view; so are the statement events.\<close>

definition footprint :: "proxyConn \<Rightarrow> Frame list \<times> cache_Entry Cache" where
  "footprint pc = (pc_sent pc, pc_wire pc)"

interpretation fp: upstream_blind footprint
  by unfold_locales (simp_all add: footprint_def)

interpretation ev: upstream_blind pc_events
  by unfold_locales simp_all

lemma footprint_events [quiet]:
  "footprint (emit evs pc) = footprint pc" "footprint (emitPendingRedirectExecuteEvents r pc) = footprint pc"
  "footprint (pc\<lparr>pc_sql := c\<rparr>) = footprint pc" "footprint (pc\<lparr>pc_pendingRedirectExec := es\<rparr>) = footprint pc"
  by (simp_all add: footprint_def emit_def emitPendingRedirectExecuteEvents_def)

section \<open>What a handler sends\<close>

text \<open>\<open>sends P pc pc'\<close>: from \<open>pc\<close> to \<open>pc'\<close> only frames with \<open>P\<close> were sent, and the wire cache is the same.\<close>

definition sends :: "(Frame \<Rightarrow> bool) \<Rightarrow> proxyConn \<Rightarrow> proxyConn \<Rightarrow> bool" where
  "sends P pc pc' \<longleftrightarrow> pc_wire pc' = pc_wire pc \<and> (\<exists>gs. pc_sent pc' = pc_sent pc @ gs \<and> list_all P gs)"

lemma sends_quiet: "footprint pc' = footprint pc \<Longrightarrow> sends P pc pc'"
  by (simp add: sends_def footprint_def)

lemma sends_trans: "sends P pc pc1 \<Longrightarrow> sends P pc1 pc2 \<Longrightarrow> sends P pc pc2"
  unfolding sends_def by (metis append_assoc list_all_append)

lemma sends_then: "sends P pc pc1 \<Longrightarrow> footprint pc2 = footprint pc1 \<Longrightarrow> sends P pc pc2"
  by (simp add: sends_def footprint_def)

lemma sends_after: "footprint pc1 = footprint pc \<Longrightarrow> sends P pc1 pc2 \<Longrightarrow> sends P pc pc2"
  by (simp add: sends_def footprint_def)

lemma sends_mono: "sends P pc pc' \<Longrightarrow> (\<And>g. P g \<Longrightarrow> Q g) \<Longrightarrow> sends Q pc pc'"
  unfolding sends_def by (auto simp: list_all_iff)

lemma sends_send: "P f \<Longrightarrow> sends P pc (send f pc)"
  by (simp add: sends_def send_def)

lemma sends_refl: "sends P pc pc"
  by (simp add: sends_def)

definition copyFrame :: "Frame \<Rightarrow> bool" where
  "copyFrame g = (case g of CopyDataFrame _ \<Rightarrow> True | CopyDoneFrame \<Rightarrow> True | CopyFailFrame _ \<Rightarrow> True | _ \<Rightarrow> False)"

lemma copyFrame_simps [simp]: "copyFrame (CopyDataFrame x)" "copyFrame CopyDoneFrame" "copyFrame (CopyFailFrame x)"
  by (simp_all add: copyFrame_def)

lemma copyInLoop_sends: "sends copyFrame pc (fst (copyInLoop now fs pc r))"
proof (induction fs arbitrary: pc r)
  case (Cons f fs)
  show ?case
    by (cases f) (auto simp: sends_refl intro: sends_trans [OF sends_send Cons.IH] sends_send sends_then [OF sends_send fp.blind_mergeCopyDrain])
qed (simp add: sends_refl)

section \<open>Actions\<close>

definition rollback :: Frame where "rollback = QueryFrame ''ROLLBACK''"

lemma executeIO_sends:
  "sends (\<lambda>g. a = ActionForward \<and> g = orig \<or> a = ActionInjectRollback \<and> g = rollback) pc (fst (executeIO env orig pc a))"
proof (cases "a = ActionForward \<or> a = ActionInjectRollback")
  case True
  then show ?thesis by (auto simp: executeIO_def rollback_def intro!: sends_send)
next
  case False
  have d: "footprint (fst (case forwardUpstreamUntilRFQ now pc of
             (pc', _, Some e) \<Rightarrow> (pc', Some e)
           | (pc', result, None) \<Rightarrow> (refreshPendingCatalogContext ld (emitPendingRedirectExecuteEvents result pc'), None))) = footprint pc" for now ld
    using fp.blind_forward [of now pc] by (cases "forwardUpstreamUntilRFQ now pc") (simp add: quiet split: option.splits)
  have "footprint (fst (executeIO env orig pc a)) = footprint pc"
    using False d by (cases a) (simp_all add: executeIO_def quiet)
  then show ?thesis by (rule sends_quiet)
qed

lemma runIO_sends:
  "sends (\<lambda>g. ActionForward \<in> set as \<and> g = orig \<or> ActionInjectRollback \<in> set as \<and> g = rollback) pc (fst (runActions (executeIO env orig) pc as))"
    (is "sends (?P as) _ _")
proof (induction as arbitrary: pc)
  case (Cons a as)
  obtain pc1 e where a: "executeIO env orig pc a = (pc1, e)" by fastforce
  have 1: "sends (?P (a # as)) pc pc1" using executeIO_sends [of a orig pc env] a by (auto elim: sends_mono)
  have 2: "sends (?P (a # as)) pc1 (fst (runActions (executeIO env orig) pc1 as))" by (rule sends_mono [OF Cons.IH]) auto
  show ?case using a 1 sends_trans [OF 1 2] by (cases e) auto
qed (simp add: sends_refl)

lemma executeActions_IO:
  assumes "\<And>t cs r. ActionApproverWait t cs r \<notin> set as"
  shows "executeActions env orig pc as = runActions (executeIO env orig) pc as"
  unfolding executeActions_def using assms
proof (induction as arbitrary: pc)
  case (Cons a as)
  have "executeAction env orig pc a = executeIO env orig pc a" using Cons.prems by (cases a) (auto simp: executeAction_def)
  moreover have "\<And>t cs r. ActionApproverWait t cs r \<notin> set as" using Cons.prems by simp
  ultimately show ?case using Cons.IH by (simp split: prod.splits option.splits)
qed simp

lemma DenyRoute_actions:
  "ActionApproverWait t cs r \<notin> set (DenyRoute s rule msg st)"
  "ActionInjectRollback \<in> set (DenyRoute s rule msg st) \<Longrightarrow> sm_LastUpstreamRFQ s = CHR ''T'' \<or> sm_LastUpstreamRFQ s = CHR ''E''"
  by (auto simp: DenyRoute_def split: if_splits)

lemma DenyRoute_execute: "executeActions env orig pc (DenyRoute s rule msg st) = runActions (executeIO env orig) pc (DenyRoute s rule msg st)"
  by (rule executeActions_IO) (rule DenyRoute_actions)

definition in_tx :: "proxyConn \<Rightarrow> bool" where
  "in_tx pc \<longleftrightarrow> sm_LastUpstreamRFQ (pc_sm pc) = CHR ''T'' \<or> sm_LastUpstreamRFQ (pc_sm pc) = CHR ''E''"

lemma deny_sends: "sends (\<lambda>g. in_tx pc' \<and> g = rollback) pc (fst (runActions (executeIO env orig) pc (DenyRoute (pc_sm pc') rule msg st)))"
proof (rule sends_mono [OF runIO_sends])
  fix g assume "ActionForward \<in> set (DenyRoute (pc_sm pc') rule msg st) \<and> g = orig
    \<or> ActionInjectRollback \<in> set (DenyRoute (pc_sm pc') rule msg st) \<and> g = rollback"
  then show "in_tx pc' \<and> g = rollback" using DenyRoute_actions(2) DenyRoute_no_forward unfolding in_tx_def by blast
qed

section \<open>Queries\<close>

definition consent :: "proxyEnv \<Rightarrow> bool" where
  "consent env = (case env_approval env of ApprovalDecided approved failed _ \<Rightarrow> approved \<and> \<not> failed | _ \<Rightarrow> False)"

lemma waitForApproval_approved:
  "ao_approved (waitForApproval (env_approval env) t) \<longleftrightarrow> consent env"
  by (simp add: waitForApproval_def consent_def Let_def split: approval_event.splits)

lemma runSimpleQueryDeny_sends: "sends (\<lambda>g. in_tx pc \<and> g = rollback) pc (fst (runSimpleQueryDeny env pc sql stmts ds))"
proof -
  let ?pc1 = "emit (denyEvents env sql (denyActionForState (pc_sm pc) (denyingRule (env_rules env) ds)) stmts ds) pc"
  have "pc_sm ?pc1 = pc_sm pc" by (simp add: emit_def)
  then show ?thesis
    using sends_after [OF footprint_events(1) deny_sends [of pc ?pc1]]
    by (simp add: runSimpleQueryDeny_def Let_def DenyRoute_execute split: prod.splits)
qed

lemma planRuntimeRedirect_Inr:
  assumes "planRuntimeRedirect env pc sql stmt d = Inr plan"
  shows "\<exists>cs. classifyBatch env pc (rrp_RewrittenSQL plan) = ([cs], False) \<and> statementIsReadOnly cs"
  using assms
  by (auto simp: planRuntimeRedirect_def Let_def split: sum.splits if_splits prod.splits list.splits bool.splits)

lemma runSimpleQueryRedirect_sends:
  "sends (\<lambda>g. \<exists>sql' cs. g = QueryFrame sql' \<and> length stmts = 1 \<and> i = 0 \<and> classifyBatch env pc sql' = ([cs], False) \<and> statementIsReadOnly cs) pc
     (fst (runSimpleQueryRedirect env pc sql stmts ds i))"
proof (cases "length stmts \<noteq> 1 \<or> i \<noteq> 0")
  case True
  then show ?thesis by (auto simp: runSimpleQueryRedirect_def quiet intro: sends_quiet)
next
  case single: False
  show ?thesis
  proof (cases "planRuntimeRedirect env pc sql (stmts ! i) (ds ! i)")
    case (Inl plan)
    with single show ?thesis by (simp add: runSimpleQueryRedirect_def sends_quiet quiet)
  next
    case (Inr plan)
    obtain pc1 r e where f: "forwardUpstreamUntilRFQ (env_now env) (send (QueryFrame (rrp_RewrittenSQL plan)) pc) = (pc1, r, e)" by (metis prod_cases3)
    from fp.blind_forward [of "env_now env" "send (QueryFrame (rrp_RewrittenSQL plan)) pc"] f
    have fp: "footprint pc1 = footprint (send (QueryFrame (rrp_RewrittenSQL plan)) pc)" by simp
    from planRuntimeRedirect_Inr [OF Inr] single Inr
    show ?thesis by (auto simp: runSimpleQueryRedirect_def f intro!: sends_then [OF sends_send] simp: quiet fp)
  qed
qed

lemma runSimpleQueryApproval_sends:
  "sends (\<lambda>g. in_tx pc \<and> g = rollback \<or> g = QueryFrame sql \<and> consent env) pc (fst (runSimpleQueryApproval env pc sql stmts ds i))"
proof -
  define Q where "Q = (\<lambda>g. in_tx pc \<and> g = rollback \<or> g = QueryFrame sql \<and> consent env)"
  define rule where "rule = lookupStatementRule (env_rules env) (dd_RuleName (ds ! i))"
  define out where "out = waitForApproval (env_approval env) (approvalTimeout (ds ! i) rule)"
  have app: "ao_approved out \<longleftrightarrow> consent env" by (simp add: out_def waitForApproval_approved)
  obtain pc1 r e where f: "forwardUpstreamUntilRFQ (env_now env) (send (QueryFrame sql) pc) = (pc1, r, e)" by (metis prod_cases3)
  from fp.blind_forward [of "env_now env" "send (QueryFrame sql) pc"] f have fp: "footprint pc1 = footprint (send (QueryFrame sql) pc)" by simp
  let ?pc2 = "emit (denyEvents env sql (ao_denyAction out) stmts (decisionsWithApprovalDeny ds i (approvalReason (ao_denyAction out)))) pc"
  have deny: "sends Q pc
     (fst (runActions (executeIO env (QueryFrame sql)) ?pc2 (DenyRoute (pc_sm ?pc2) rule msg st)))" for msg st
  proof -
    have "pc_sm ?pc2 = pc_sm pc" by (simp add: emit_def)
    then have "sends (\<lambda>g. in_tx pc \<and> g = rollback) ?pc2 (fst (runActions (executeIO env (QueryFrame sql)) ?pc2 (DenyRoute (pc_sm ?pc2) rule msg st)))"
      using deny_sends [of pc ?pc2 env "QueryFrame sql" rule msg st] by simp
    from sends_mono [OF sends_after [OF footprint_events(1) this]] show ?thesis by (simp add: Q_def)
  qed
  have sent: "sends Q pc pc1" if "consent env"
    by (rule sends_then [OF sends_send fp]) (simp add: that Q_def)
  show ?thesis
    unfolding runSimpleQueryApproval_def Let_def rule_def [symmetric] out_def [symmetric] f DenyRoute_execute app Q_def [symmetric]
    using deny sends_then [OF sent] by (simp add: sends_quiet quiet)
qed

lemma runSimpleQueryAllow_sends:
  "sends (\<lambda>g. g = QueryFrame sql \<or> copyFrame g) pc (fst (runSimpleQueryAllow env pc sql stmts ds))"
proof -
  obtain pc1 r e where f: "forwardUpstreamUntilRFQ (env_now env) (send (QueryFrame sql) pc) = (pc1, r, e)" by (metis prod_cases3)
  from fp.blind_forward [of "env_now env" "send (QueryFrame sql) pc"] f have fp: "footprint pc1 = footprint (send (QueryFrame sql) pc)" by simp
  have 1: "sends (\<lambda>g. g = QueryFrame sql \<or> copyFrame g) pc pc1" by (rule sends_then [OF sends_send fp]) simp
  obtain pco ro eo where o: "runCopyOutLoop (env_now env) pc1 = (pco, ro, eo)" by (metis prod_cases3)
  have "footprint (fst (runCopyOutLoop (env_now env) pc1)) = footprint pc1" by (simp add: runCopyOutLoop_def quiet)
  with o have fo: "footprint pco = footprint pc1" by simp
  obtain pci ri ei where i: "runCopyInLoop (env_now env) (env_copy env) pc1 = (pci, ri, ei)" by (metis prod_cases3)
  have "sends copyFrame pc1 (fst (runCopyInLoop (env_now env) (env_copy env) pc1))"
    unfolding runCopyInLoop_def by (rule sends_after [OF _ copyInLoop_sends]) (simp add: quiet)
  with i have si: "sends (\<lambda>g. g = QueryFrame sql \<or> copyFrame g) pc1 pci" by (auto elim: sends_mono)
  show ?thesis
    using sends_then [OF 1 fo] sends_trans [OF 1 si] 1
    by (auto simp: runSimpleQueryAllow_def f o i quiet intro: sends_then)
qed

definition verbIn :: "proxyEnv \<Rightarrow> DecisionVerb list \<Rightarrow> ClassifiedStatement \<Rightarrow> bool" where
  "verbIn env vs cs = (case evaluate env cs of None \<Rightarrow> False | Some d \<Rightarrow> dd_Verb d \<in> set vs)"

lemma those_list_all2: "those (map f xs) = Some ys \<longleftrightarrow> list_all2 (\<lambda>x y. f x = Some y) xs ys"
proof (induction xs arbitrary: ys)
  case (Cons x xs)
  show ?case by (cases ys) (auto simp: Cons.IH [symmetric] split: option.splits)
qed auto

lemma evaluate_all: "\<exists>ds. those (map (evaluate env) stmts) = Some ds"
proof (induction stmts)
  case (Cons cs stmts)
  then show ?case using Evaluate_total [of cs "env_rules env" "env_svc env"] by auto
qed simp

lemma verbs_of_decisions:
  assumes "list_all2 (\<lambda>cs d. evaluate env cs = Some d) stmts ds" "\<forall>d \<in> set ds. dd_Verb d \<in> set vs"
  shows "list_all (verbIn env vs) stmts"
  using assms by (induction rule: list_all2_induct) (simp_all add: verbIn_def)

lemma firstVerb_None: "firstVerb v ds = None \<longleftrightarrow> (\<forall>d \<in> set ds. dd_Verb d \<noteq> v)"
  by (simp add: firstVerb_def find_None_iff all_set_conv_all_nth)

lemma firstVerb_Some: "firstVerb v ds = Some i \<Longrightarrow> i < length ds \<and> dd_Verb (ds ! i) = v"
  unfolding firstVerb_def by (drule find_SomeD) simp

text \<open>The statements a simple query is judged by: an \<^verbatim>\<open>EXECUTE\<close> stands for the statement prepared under its name.\<close>

definition judged :: "proxyEnv \<Rightarrow> proxyConn \<Rightarrow> string \<Rightarrow> ClassifiedStatement list" where
  "judged env pc sql =
     (let stmts = fst (classifyBatch env pc sql)
      in if isPrepare stmts then stmts else fst (Intercept (env_rules env) stmts [] (pc_sql pc) (pc_sm pc)))"

definition rewritten :: "proxyEnv \<Rightarrow> proxyConn \<Rightarrow> ClassifiedStatement list \<Rightarrow> string \<Rightarrow> bool" where
  "rewritten env pc stmts sql' \<longleftrightarrow> length stmts = 1 \<and> list_all (verbIn env [VerbRedirect]) stmts
     \<and> (case classifyBatch env pc sql' of ([cs], False) \<Rightarrow> statementIsReadOnly cs | _ \<Rightarrow> False)"

definition queryFrame :: "proxyEnv \<Rightarrow> proxyConn \<Rightarrow> string \<Rightarrow> ClassifiedStatement list \<Rightarrow> Frame \<Rightarrow> bool" where
  "queryFrame env pc sql stmts g \<longleftrightarrow>
     in_tx pc \<and> g = rollback
   \<or> (g = QueryFrame sql \<or> copyFrame g) \<and> list_all (verbIn env [VerbAllow, VerbAudit]) stmts
   \<or> g = QueryFrame sql \<and> consent env \<and> list_all (verbIn env [VerbAllow, VerbAudit, VerbApprove]) stmts
   \<or> (case g of QueryFrame sql' \<Rightarrow> rewritten env pc stmts sql' | _ \<Rightarrow> False)"

lemma dispatchQuery_sends:
  assumes ds: "list_all2 (\<lambda>cs d. evaluate env cs = Some d) stmts ds"
  shows "sends (queryFrame env pc sql stmts) pc (fst (dispatchQuery env pc sql stmts ds))"
proof (cases "list_ex (\<lambda>d. dd_Verb d = VerbDeny) ds")
  case True
  then show ?thesis using sends_mono [OF runSimpleQueryDeny_sends [of pc env sql stmts ds]] by (simp add: dispatchQuery_def queryFrame_def)
next
  case nodeny: False
  then have nd: "\<forall>d \<in> set ds. dd_Verb d \<noteq> VerbDeny" by (simp add: list_ex_iff)
  show ?thesis
  proof (cases "firstVerb VerbRedirect ds")
    case (Some i)
    have "rewritten env pc stmts sql'" if "length stmts = 1" "i = 0" "classifyBatch env pc sql' = ([cs], False)" "statementIsReadOnly cs" for sql' cs
    proof -
      have "length ds = 1" using ds that(1) list_all2_lengthD by metis
      with firstVerb_Some [OF Some] that(2) have "\<forall>d \<in> set ds. dd_Verb d \<in> set [VerbRedirect]" by (auto simp: length_Suc_conv)
      from verbs_of_decisions [OF ds this] that show ?thesis by (simp add: rewritten_def)
    qed
    then have "sends (queryFrame env pc sql stmts) pc (fst (runSimpleQueryRedirect env pc sql stmts ds i))"
      by (intro sends_mono [OF runSimpleQueryRedirect_sends]) (auto simp: queryFrame_def)
    with nodeny Some show ?thesis by (simp add: dispatchQuery_def)
  next
    case nr: None
    then have nr': "\<forall>d \<in> set ds. dd_Verb d \<noteq> VerbRedirect" by (simp add: firstVerb_None)
    show ?thesis
    proof (cases "firstVerb VerbApprove ds")
      case (Some i)
      have "dd_Verb d \<in> set [VerbAllow, VerbAudit, VerbApprove]" if "d \<in> set ds" for d
        using nd nr' that by (cases "dd_Verb d") auto
      from verbs_of_decisions [OF ds] this have "list_all (verbIn env [VerbAllow, VerbAudit, VerbApprove]) stmts" by blast
      with sends_mono [OF runSimpleQueryApproval_sends [of pc sql env stmts ds i], of "queryFrame env pc sql stmts"] nodeny nr Some
      show ?thesis by (auto simp: dispatchQuery_def queryFrame_def)
    next
      case None
      then have na: "\<forall>d \<in> set ds. dd_Verb d \<noteq> VerbApprove" by (simp add: firstVerb_None)
      have "dd_Verb d \<in> set [VerbAllow, VerbAudit]" if "d \<in> set ds" for d
        using nd nr' na that by (cases "dd_Verb d") auto
      from verbs_of_decisions [OF ds] this have "list_all (verbIn env [VerbAllow, VerbAudit]) stmts" by blast
      with sends_mono [OF runSimpleQueryAllow_sends [of sql pc env stmts ds], of "queryFrame env pc sql stmts"] nodeny nr None
      show ?thesis by (auto simp: dispatchQuery_def queryFrame_def)
    qed
  qed
qed

lemma queryFrame_cong:
  assumes "pc_catalog pc' = pc_catalog pc" "pc_sm pc' = pc_sm pc"
  shows "queryFrame env pc' sql stmts g = queryFrame env pc sql stmts g"
proof -
  have "rewritten env pc' stmts sql' = rewritten env pc stmts sql'" for sql'
    unfolding rewritten_def classifyBatch_def assms ..
  then show ?thesis using assms by (cases g) (simp_all add: queryFrame_def in_tx_def)
qed

lemma Intercept_actions:
  assumes "Intercept rs stmts ds c s = (stmts', c', Some acts)"
  shows "(\<exists>rule msg st. acts = DenyRoute s rule msg st) \<or> (\<exists>st msg sev r. acts = [ActionSynthError st msg sev, ActionSynthReadyForQuery r])"
  using assms by (auto simp: Intercept_def split: list.splits if_splits prod.splits option.splits)

lemma Intercept_sends:
  assumes "Intercept rs stmts ds c s = (stmts', c', Some acts)" "s = pc_sm pc"
  shows "sends (\<lambda>g. in_tx pc \<and> g = rollback) pc' (fst (executeActions env orig pc' acts))"
  using Intercept_actions [OF assms(1)]
proof (elim disjE exE)
  fix rule msg st assume "acts = DenyRoute s rule msg st"
  then show ?thesis using deny_sends [of pc pc'] assms(2) by (simp add: DenyRoute_execute)
next
  fix st msg sev r assume a: "acts = [ActionSynthError st msg sev, ActionSynthReadyForQuery r]"
  show ?thesis unfolding a by (rule sends_quiet) (simp add: executeActions_def executeAction_def executeIO_def quiet)
qed

lemma queryTail_sends:
  assumes "those (map (evaluate env) stmts) = Some ds"
  shows "sends (queryFrame env pc sql stmts) pc
    (fst (case (if isPrepare stmts then Intercept (env_rules env) stmts ds (pc_sql pc) (pc_sm pc) else (stmts, pc_sql pc, None)) of
       (_, c', Some actions) \<Rightarrow> executeActions env (QueryFrame sql) (emit evs (pc\<lparr>pc_sql := c'\<rparr>)) actions
     | (_, c', None) \<Rightarrow> dispatchQuery env (pc\<lparr>pc_sql := c'\<rparr>) sql stmts ds))"
proof -
  have ds: "list_all2 (\<lambda>cs d. evaluate env cs = Some d) stmts ds" using assms by (simp add: those_list_all2)
  have dispatch: "sends (queryFrame env pc sql stmts) pc (fst (dispatchQuery env (pc\<lparr>pc_sql := c\<rparr>) sql stmts ds))" for c
  proof (rule sends_after)
    show "footprint (pc\<lparr>pc_sql := c\<rparr>) = footprint pc" by (simp add: quiet)
    have "queryFrame env (pc\<lparr>pc_sql := c\<rparr>) sql stmts = queryFrame env pc sql stmts" by (rule ext, rule queryFrame_cong) simp_all
    then show "sends (queryFrame env pc sql stmts) (pc\<lparr>pc_sql := c\<rparr>) (fst (dispatchQuery env (pc\<lparr>pc_sql := c\<rparr>) sql stmts ds))"
      using dispatchQuery_sends [OF ds, of "pc\<lparr>pc_sql := c\<rparr>" sql] by simp
  qed
  show ?thesis
  proof (cases "isPrepare stmts")
    case True
    obtain ss c' a where I: "Intercept (env_rules env) stmts ds (pc_sql pc) (pc_sm pc) = (ss, c', a)" by (metis prod_cases3)
    show ?thesis
    proof (cases a)
      case None
      with True I dispatch show ?thesis by simp
    next
      case (Some acts)
      have "sends (\<lambda>g. in_tx pc \<and> g = rollback) pc (fst (executeActions env (QueryFrame sql) (emit evs (pc\<lparr>pc_sql := c'\<rparr>)) acts))"
        by (rule sends_after [OF _ Intercept_sends [OF I [unfolded Some] refl]]) (simp add: quiet)
      with True I Some show ?thesis by (auto simp: queryFrame_def elim: sends_mono)
    qed
  next
    case False
    with dispatch [of "pc_sql pc"] show ?thesis by simp
  qed
qed

lemma handleSimpleQuery_sends:
  "sends (\<lambda>g. length sql \<le> env_MaxQueryBytes env \<and> queryFrame env pc sql (judged env pc sql) g) pc (fst (handleSimpleQuery env pc sql))"
proof (cases "length sql > env_MaxQueryBytes env")
  case True
  then show ?thesis by (auto simp: handleSimpleQuery_def quiet intro: sends_quiet)
next
  case short: False
  let ?stmts0 = "fst (classifyBatch env pc sql)"
  define I where "I = (if isPrepare ?stmts0 then (?stmts0, pc_sql pc, None) else Intercept (env_rules env) ?stmts0 [] (pc_sql pc) (pc_sm pc))"
  obtain stmts c a where Ieq: "I = (stmts, c, a)" by (metis prod_cases3)
  have j: "judged env pc sql = stmts" using Ieq by (auto simp: I_def judged_def Let_def split: if_splits)
  have "sends (queryFrame env pc sql stmts) pc (fst (handleSimpleQuery env pc sql))"
  proof (cases a)
    case (Some acts)
    then have "Intercept (env_rules env) ?stmts0 [] (pc_sql pc) (pc_sm pc) = (stmts, c, Some acts)"
      using Ieq by (auto simp: I_def split: if_splits)
    from sends_after [OF _ Intercept_sends [OF this refl, of "pc\<lparr>pc_sql := c\<rparr>" env "QueryFrame sql"], of pc]
    have "sends (\<lambda>g. in_tx pc \<and> g = rollback) pc (fst (executeActions env (QueryFrame sql) (pc\<lparr>pc_sql := c\<rparr>) acts))" by (simp add: quiet)
    moreover have "handleSimpleQuery env pc sql = executeActions env (QueryFrame sql) (pc\<lparr>pc_sql := c\<rparr>) acts"
      using short Ieq Some by (simp add: handleSimpleQuery_def Let_def I_def)
    ultimately show ?thesis by (auto simp: queryFrame_def elim: sends_mono)
  next
    case None
    let ?pc1 = "pc\<lparr>pc_sql := c\<rparr>"
    obtain ds where ds: "those (map (evaluate env) stmts) = Some ds" using evaluate_all by blast
    have q: "queryFrame env ?pc1 sql stmts = queryFrame env pc sql stmts" by (rule ext, rule queryFrame_cong) simp_all
    from queryTail_sends [OF ds, of ?pc1 sql "denyEvents env sql (denyActionForState (pc_sm ?pc1) (denyingRule (env_rules env) ds)) stmts ds"]
    have "sends (queryFrame env pc sql stmts) ?pc1 (fst (handleSimpleQuery env pc sql))"
      by (simp only: handleSimpleQuery_def Let_def I_def [symmetric] Ieq None ds prod.case option.case short if_False q)
    from sends_after [OF _ this, of pc] show ?thesis by (simp add: quiet)
  qed
  with short j show ?thesis by (auto elim: sends_mono)
qed

section \<open>What a handler records\<close>

text \<open>
  The event of a statement carries the decision that was evaluated for it, or the denial that an approval ended in. A
  handler may append further events, those of redirected statements that were waiting for the end of their round trip.
\<close>

definition logged :: "proxyEnv \<Rightarrow> string \<Rightarrow> ClassifiedStatement \<Rightarrow> buildArgs \<Rightarrow> bool" where
  "logged env sql cs e \<longleftrightarrow> ba_Stmt e = cs \<and> ba_SQL e = sql \<and>
     (case evaluate env cs of None \<Rightarrow> False
      | Some d \<Rightarrow> ba_Decision e = d \<or> dd_Verb d = VerbApprove \<and> dd_Verb (ba_Decision e) = VerbDeny)"

definition records :: "proxyEnv \<Rightarrow> string \<Rightarrow> ClassifiedStatement list \<Rightarrow> proxyConn \<Rightarrow> proxyConn \<Rightarrow> bool" where
  "records env sql stmts pc pc' \<longleftrightarrow> (\<exists>evs rest. pc_events pc' = pc_events pc @ evs @ rest \<and> list_all2 (logged env sql) stmts evs)"

lemma events_emit: "pc_events (emit evs pc) = pc_events pc @ map (\<lambda>a. a\<lparr>ba_smState := pc_sm pc\<rparr>) evs"
  by (simp add: emit_def)

lemma logged_state: "list_all2 (logged env sql) stmts evs \<Longrightarrow> list_all2 (logged env sql) stmts (map (\<lambda>a. a\<lparr>ba_smState := s\<rparr>) evs)"
proof -
  have "logged env sql cs (a\<lparr>ba_smState := s\<rparr>) = logged env sql cs a" for cs a by (simp add: logged_def split: option.split)
  then show "list_all2 (logged env sql) stmts evs \<Longrightarrow> list_all2 (logged env sql) stmts (map (\<lambda>a. a\<lparr>ba_smState := s\<rparr>) evs)" by (simp add: list.rel_map)
qed

lemma records_emit: "list_all2 (logged env sql) stmts evs \<Longrightarrow> pc_events pc' = pc_events (emit evs pc) @ rest \<Longrightarrow> records env sql stmts pc pc'"
  unfolding records_def events_emit using logged_state by fastforce

lemma records_after: "pc_events pc1 = pc_events pc \<Longrightarrow> records env sql stmts pc1 pc' \<Longrightarrow> records env sql stmts pc pc'"
  by (simp add: records_def)

lemma records_refresh:
  "list_all2 (logged env sql) stmts evs \<Longrightarrow> pc_events pc1 = pc_events pc \<Longrightarrow>
     records env sql stmts pc (refreshCatalogAfterSuccessfulStatements ld ss r (emit evs pc1))"
  by (rule records_after, assumption, rule records_emit [where rest = "[]"]) (simp_all add: ev.blind_refreshes)

lemma events_send [simp]: "pc_events (send f pc) = pc_events pc"
  by (simp add: send_def)

lemma runIO_events: "\<exists>rest. pc_events (fst (runActions (executeIO env orig) pc as)) = pc_events pc @ rest"
proof (induction as arbitrary: pc)
  case (Cons a as)
  obtain pc1 e where a: "executeIO env orig pc a = (pc1, e)" by fastforce
  have "\<exists>rest. pc_events (fst (executeIO env orig pc a)) = pc_events pc @ rest"
  proof (cases a)
    case ActionDrainUntilRFQ
    obtain pc2 r e' where f: "forwardUpstreamUntilRFQ (env_now env) pc = (pc2, r, e')" by (metis prod_cases3)
    with ev.blind_forward [of "env_now env" pc] show ?thesis using ActionDrainUntilRFQ
      by (cases e') (simp_all add: executeIO_def ev.blind_refreshes emitPendingRedirectExecuteEvents_def emit_def)
  qed (simp_all add: executeIO_def ev.blind_basic)
  with a obtain r1 where "pc_events pc1 = pc_events pc @ r1" by auto
  with Cons.IH [of pc1] a show ?case by (cases e) auto
qed simp

lemma allowEvents_logged:
  assumes "list_all2 (\<lambda>cs d. evaluate env cs = Some d) stmts ds"
  shows "list_all2 (logged env sql) stmts (allowEvents env sql stmts ds r)"
  using assms by (auto simp: list_all2_conv_all_nth allowEvents_def logged_def statementEvent_def)

lemma denyEvents_logged:
  assumes "list_all2 (\<lambda>cs d. evaluate env cs = Some d) stmts ds"
    and "list_all2 (\<lambda>d d'. d' = d \<or> dd_Verb d = VerbApprove \<and> dd_Verb d' = VerbDeny) ds ds'"
  shows "list_all2 (logged env sql) stmts (denyEvents env sql da stmts ds')"
  using assms by (fastforce simp: list_all2_conv_all_nth denyEvents_def logged_def statementEvent_def)

lemma approvalDeny_logged:
  "i < length ds \<Longrightarrow> dd_Verb (ds ! i) = VerbApprove \<Longrightarrow>
     list_all2 (\<lambda>d d'. d' = d \<or> dd_Verb d = VerbApprove \<and> dd_Verb d' = VerbDeny) ds (decisionsWithApprovalDeny ds i reason)"
  by (auto simp: list_all2_conv_all_nth decisionsWithApprovalDeny_def nth_list_update)

lemma firstVerb_at: "firstVerb v ds = Some i \<Longrightarrow> i < length ds \<and> dd_Verb (ds ! i) = v"
  by (auto simp: firstVerb_def find_Some_iff)

lemma runSimpleQueryAllow_records:
  assumes "list_all2 (\<lambda>cs d. evaluate env cs = Some d) stmts ds"
  shows "records env sql stmts pc (fst (runSimpleQueryAllow env pc sql stmts ds))"
proof -
  obtain pc1 r e where f: "forwardUpstreamUntilRFQ (env_now env) (send (QueryFrame sql) pc) = (pc1, r, e)" by (metis prod_cases3)
  with ev.blind_forward [of "env_now env" "send (QueryFrame sql) pc"] have 1: "pc_events pc1 = pc_events pc" by simp
  have in_loop: "pc_events (fst (copyInLoop now fs p r)) = pc_events p" for now fs p r
  proof (induction fs arbitrary: p r)
    case (Cons g fs)
    then show ?case by (cases g) (simp_all add: ev.blind_mergeCopyDrain)
  qed simp
  obtain pco ro eo where o: "runCopyOutLoop (env_now env) pc1 = (pco, ro, eo)" by (metis prod_cases3)
  have "pc_events (fst (runCopyOutLoop (env_now env) pc1)) = pc_events pc1" by (simp add: runCopyOutLoop_def ev.blind_copyOutLoop ev.blind)
  with o 1 have fo: "pc_events pco = pc_events pc" by simp
  obtain pci ri ei where i: "runCopyInLoop (env_now env) (env_copy env) pc1 = (pci, ri, ei)" by (metis prod_cases3)
  have "pc_events (fst (runCopyInLoop (env_now env) (env_copy env) pc1)) = pc_events pc1" by (simp add: runCopyInLoop_def in_loop ev.blind)
  with i 1 have fi: "pc_events pci = pc_events pc" by simp
  show ?thesis
    using records_refresh [OF allowEvents_logged [OF assms]] 1 fo fi by (simp add: runSimpleQueryAllow_def f o i)
qed

lemma runSimpleQueryApproval_records:
  assumes ds: "list_all2 (\<lambda>cs d. evaluate env cs = Some d) stmts ds" and i: "firstVerb VerbApprove ds = Some i"
  shows "records env sql stmts pc (fst (runSimpleQueryApproval env pc sql stmts ds i))"
proof -
  obtain pc1 r e where f: "forwardUpstreamUntilRFQ (env_now env) (send (QueryFrame sql) pc) = (pc1, r, e)" by (metis prod_cases3)
  with ev.blind_forward [of "env_now env" "send (QueryFrame sql) pc"] have 1: "pc_events pc1 = pc_events pc" by simp
  have d: "list_all2 (logged env sql) stmts (denyEvents env sql da stmts (decisionsWithApprovalDeny ds i reason))" for da reason
    using denyEvents_logged [OF ds approvalDeny_logged] firstVerb_at [OF i] by simp
  have deny: "records env sql stmts pc (fst (executeActions env f (emit (denyEvents env sql da stmts (decisionsWithApprovalDeny ds i reason)) pc) (DenyRoute s rule msg st)))"
    for f da reason s rule msg st
    unfolding DenyRoute_execute
    using runIO_events [of env f "emit (denyEvents env sql da stmts (decisionsWithApprovalDeny ds i reason)) pc" "DenyRoute s rule msg st"] records_emit [OF d] by blast
  have err: "records env sql stmts pc (emit (denyEvents env sql da stmts (decisionsWithApprovalDeny ds i reason)) pc)" for da reason
    by (rule records_emit [OF d, where rest = "[]"]) simp
  have ok: "records env sql stmts pc (refreshCatalogAfterSuccessfulStatements (env_loader env) stmts r (emit (allowEvents env sql stmts ds r) pc1))"
    by (rule records_refresh [OF allowEvents_logged [OF ds] 1])
  show ?thesis unfolding runSimpleQueryApproval_def Let_def f prod.case using deny err ok by simp
qed

lemma runSimpleQueryDeny_records:
  assumes "list_all2 (\<lambda>cs d. evaluate env cs = Some d) stmts ds"
  shows "records env sql stmts pc (fst (runSimpleQueryDeny env pc sql stmts ds))"
proof -
  have d: "list_all2 (logged env sql) stmts (denyEvents env sql da stmts ds)" for da
    by (rule denyEvents_logged [OF assms]) (simp add: list_all2_refl)
  obtain rendered st where p: "pickDenySynth ds = (rendered, st)" by fastforce
  let ?pc1 = "emit (denyEvents env sql (denyActionForState (pc_sm pc) (denyingRule (env_rules env) ds)) stmts ds) pc"
  show ?thesis
    unfolding runSimpleQueryDeny_def Let_def p DenyRoute_execute prod.case
    using runIO_events [of env "QueryFrame sql" ?pc1] records_emit [OF d] by blast
qed

lemma runSimpleQueryRedirect_records:
  assumes "list_all2 (\<lambda>cs d. evaluate env cs = Some d) stmts ds" "length stmts = 1" "firstVerb VerbRedirect ds = Some i"
  shows "records env sql stmts pc (fst (runSimpleQueryRedirect env pc sql stmts ds i))"
proof -
  from assms firstVerb_at [OF assms(3)] obtain cs d where s: "stmts = [cs]" "ds = [d]" "i = 0" "evaluate env cs = Some d"
    by (cases stmts; cases ds) (auto simp: list_all2_lengthD)
  then have l: "list_all2 (logged env sql) stmts [redirectRejectedEvent env (stmts ! i) sql (ds ! i) plan]"
      "list_all2 (logged env sql) stmts [redirectAllowEvent env (stmts ! i) sql (ds ! i) plan r]" for plan r
    by (simp_all add: logged_def redirectRejectedEvent_def redirectAllowEvent_def statementEvent_def)
  show ?thesis
  proof (cases "planRuntimeRedirect env pc sql (stmts ! i) (ds ! i)")
    case (Inl plan)
    have "records env sql stmts pc (synthErrorAndRFQ st msg (emit [redirectRejectedEvent env (stmts ! i) sql (ds ! i) plan] pc))" for st msg
      by (rule records_emit [OF l(1), where rest = "[]"]) (simp add: ev.blind_basic)
    with Inl s show ?thesis by (simp add: runSimpleQueryRedirect_def)
  next
    case (Inr plan)
    obtain pc1 r e where f: "forwardUpstreamUntilRFQ (env_now env) (send (QueryFrame (rrp_RewrittenSQL plan)) pc) = (pc1, r, e)" by (metis prod_cases3)
    with ev.blind_forward [of "env_now env" "send (QueryFrame (rrp_RewrittenSQL plan)) pc"] have "pc_events pc1 = pc_events pc" by simp
    from records_refresh [OF l(2) this] Inr f s show ?thesis by (simp add: runSimpleQueryRedirect_def)
  qed
qed

lemma dispatchQuery_records:
  assumes ds: "list_all2 (\<lambda>cs d. evaluate env cs = Some d) stmts ds" and r: "length stmts = 1 \<or> firstVerb VerbRedirect ds = None"
  shows "records env sql stmts pc (fst (dispatchQuery env pc sql stmts ds))"
  unfolding dispatchQuery_def
  using runSimpleQueryDeny_records [OF ds] runSimpleQueryRedirect_records [OF ds] runSimpleQueryApproval_records [OF ds] runSimpleQueryAllow_records [OF ds] r
  by (auto split: option.split)

lemma handleSimpleQuery_records:
  assumes short: "length sql \<le> env_MaxQueryBytes env"
    and known: "isPrepare (fst (classifyBatch env pc sql)) \<or> snd (snd (Intercept (env_rules env) (fst (classifyBatch env pc sql)) [] (pc_sql pc) (pc_sm pc))) = None"
    and redirect: "length (judged env pc sql) = 1 \<or> \<not> list_ex (verbIn env [VerbRedirect]) (judged env pc sql)"
  shows "records env sql (judged env pc sql) pc (fst (handleSimpleQuery env pc sql))"
proof -
  let ?stmts0 = "fst (classifyBatch env pc sql)"
  define I where "I = (if isPrepare ?stmts0 then (?stmts0, pc_sql pc, None) else Intercept (env_rules env) ?stmts0 [] (pc_sql pc) (pc_sm pc))"
  obtain stmts c where Ieq: "I = (stmts, c, None)" using known unfolding I_def by (metis prod.collapse)
  have j: "judged env pc sql = stmts" using Ieq by (auto simp: I_def judged_def Let_def split: if_splits)
  let ?pc1 = "pc\<lparr>pc_sql := c\<rparr>"
  obtain ds where ds: "those (map (evaluate env) stmts) = Some ds" using evaluate_all by blast
  then have ds2: "list_all2 (\<lambda>cs d. evaluate env cs = Some d) stmts ds" by (simp add: those_list_all2)
  have none: "length stmts = 1 \<or> firstVerb VerbRedirect ds = None"
  proof (cases "firstVerb VerbRedirect ds")
    case (Some i)
    from firstVerb_at [OF this] ds2 have "i < length stmts" "evaluate env (stmts ! i) = Some (ds ! i)" "dd_Verb (ds ! i) = VerbRedirect"
      by (auto simp: list_all2_conv_all_nth)
    then have "list_ex (verbIn env [VerbRedirect]) stmts" by (auto simp: list_ex_iff verbIn_def intro!: bexI [of _ "stmts ! i"])
    with redirect j show ?thesis by simp
  qed simp
  have dispatch: "records env sql stmts pc (fst (dispatchQuery env (pc\<lparr>pc_sql := c'\<rparr>) sql stmts ds))" for c'
    by (rule records_after [OF _ dispatchQuery_records [OF ds2 none]]) simp
  have d: "list_all2 (logged env sql) stmts (denyEvents env sql da stmts ds)" for da
    by (rule denyEvents_logged [OF ds2]) (simp add: list_all2_refl)
  obtain ss c' a where J: "(if isPrepare stmts then Intercept (env_rules env) stmts ds (pc_sql ?pc1) (pc_sm ?pc1) else (stmts, pc_sql ?pc1, None)) = (ss, c', a)"
    by (metis prod_cases3)
  have eq: "handleSimpleQuery env pc sql = (case a of
      Some acts \<Rightarrow> executeActions env (QueryFrame sql) (emit (denyEvents env sql (denyActionForState (pc_sm ?pc1) (denyingRule (env_rules env) ds)) stmts ds) (?pc1\<lparr>pc_sql := c'\<rparr>)) acts
    | None \<Rightarrow> dispatchQuery env (?pc1\<lparr>pc_sql := c'\<rparr>) sql stmts ds)"
    using short by (simp only: handleSimpleQuery_def Let_def I_def [symmetric] Ieq ds J prod.case option.case not_less [symmetric] if_False simp_thms)
  show ?thesis
  proof (cases a)
    case None
    with eq j dispatch show ?thesis by simp
  next
    case (Some acts)
    then have J': "Intercept (env_rules env) stmts ds (pc_sql ?pc1) (pc_sm ?pc1) = (ss, c', Some acts)" using J by (simp split: if_splits)
    let ?pc2 = "emit (denyEvents env sql (denyActionForState (pc_sm ?pc1) (denyingRule (env_rules env) ds)) stmts ds) (?pc1\<lparr>pc_sql := c'\<rparr>)"
    have "\<And>t cs r. ActionApproverWait t cs r \<notin> set acts" using Intercept_actions [OF J'] DenyRoute_actions(1) by auto
    from executeActions_IO [OF this] runIO_events [of env "QueryFrame sql" ?pc2 acts] records_emit [OF d]
    have "records env sql stmts (?pc1\<lparr>pc_sql := c'\<rparr>) (fst (executeActions env (QueryFrame sql) ?pc2 acts))" by auto
    from records_after [OF _ this, of pc] show ?thesis using eq Some j by simp
  qed
qed

end
