(* ===== verification/DbSessionSafety.thy ===== *)
theory DbSessionSafety
  imports DbQuerySafety
begin

text \<open>
  What a connection of the PostgreSQL proxy sends to the database, for one frame of the client (\<open>simpleQueryStep_ok\<close>) and for
  whole sessions: every frame sent was cleared by the policy of its step (\<open>sendable\<close>), a \<^verbatim>\<open>Bind\<close> follows a forwarded \<^verbatim>\<open>Parse\<close> of
  its statement and an \<^verbatim>\<open>Execute\<close> a forwarded \<^verbatim>\<open>Bind\<close> of its portal, whatever was evicted from the caches in between.
\<close>

section \<open>Extended frames\<close>

definition approvedScan :: "proxyEnv \<Rightarrow> ClassifiedStatement list \<Rightarrow> bool" where
  "approvedScan env stmts = (case scanStatements (env_rules env) (env_svc env) stmts of Some (ScanApprove _ _) \<Rightarrow> consent env | _ \<Rightarrow> False)"

definition parseFrame :: "proxyEnv \<Rightarrow> proxyConn \<Rightarrow> string \<Rightarrow> string \<Rightarrow> ClassifiedStatement list \<Rightarrow> Frame \<Rightarrow> bool" where
  "parseFrame env pc name sql stmts g \<longleftrightarrow>
     in_tx pc \<and> g = rollback
   \<or> g = ParseFrame name sql \<and> \<not> sm_Absorbing (pc_sm pc) \<and> (list_all (verbIn env [VerbAllow, VerbAudit]) stmts \<or> approvedScan env stmts)
   \<or> (case g of ParseFrame name' sql' \<Rightarrow> name' = name \<and> rewritten env pc stmts sql' | _ \<Rightarrow> False)"

definition callFrame :: "proxyEnv \<Rightarrow> proxyConn \<Rightarrow> nat \<Rightarrow> Frame \<Rightarrow> bool" where
  "callFrame env pc oid g \<longleftrightarrow> allowsFunctionCalls (env_rules env) (env_svc env) \<and>
     (in_tx pc \<and> g = rollback
    \<or> g = FunctionCallFrame oid \<and>
        (let cs = resolveStatementCatalog (pc_catalog pc) (functionCallStatement oid)
         in verbIn env [VerbAllow, VerbAudit, VerbRedirect] cs \<or> consent env \<and> verbIn env [VerbApprove] cs))"

text \<open>When a frame \<open>g\<close> may be sent to the database in answer to the client frame \<open>f\<close>.\<close>

definition sendable :: "proxyEnv \<Rightarrow> proxyConn \<Rightarrow> Frame \<Rightarrow> Frame \<Rightarrow> bool" where
  "sendable env pc f g \<longleftrightarrow>
     (case f of
        QueryFrame sql \<Rightarrow> length sql \<le> env_MaxQueryBytes env \<and> queryFrame env pc sql (judged env pc sql) g
      | ParseFrame name sql \<Rightarrow> parseFrame env pc name sql (fst (classifyBatch env pc sql)) g
      | BindFrame _ statement \<Rightarrow> g = f \<and> \<not> sm_Absorbing (pc_sm pc) \<and> snd (cache_Get (pc_wire pc) statement) \<noteq> None
      | ExecuteFrame portal \<Rightarrow> g = f \<and> \<not> sm_Absorbing (pc_sm pc) \<and> snd (cache_Get (pc_wire pc) (portalCacheKey portal)) \<noteq> None
      | FunctionCallFrame oid \<Rightarrow> callFrame env pc oid g
      | SyncFrame \<Rightarrow> g = f \<and> (sm_Absorbing (pc_sm pc) \<longrightarrow> sm_UpstreamDirtySinceSync (pc_sm pc))
      | DescribeFrame _ _ \<Rightarrow> g = f \<and> \<not> sm_Absorbing (pc_sm pc)
      | FlushFrame \<Rightarrow> g = f \<and> \<not> sm_Absorbing (pc_sm pc)
      | CloseFrame _ _ \<Rightarrow> g = f \<and> \<not> sm_Absorbing (pc_sm pc)
      | TerminateFrame \<Rightarrow> g = f
      | _ \<Rightarrow> False)"

text \<open>A key enters the wire cache only with the frame that justifies it.\<close>

definition new_key :: "Frame \<Rightarrow> Frame list \<Rightarrow> string \<Rightarrow> bool" where
  "new_key f gs k \<longleftrightarrow>
     (case f of
        ParseFrame name _ \<Rightarrow> k = name \<and> (\<exists>sql. ParseFrame name sql \<in> set gs)
      | BindFrame portal _ \<Rightarrow> k = portalCacheKey portal \<and> f \<in> set gs
      | _ \<Rightarrow> False)"

definition keys_from :: "(string \<Rightarrow> bool) \<Rightarrow> cache_Entry Cache \<Rightarrow> cache_Entry Cache \<Rightarrow> bool" where
  "keys_from N c c' \<longleftrightarrow> (cache_inv c \<longrightarrow> cache_inv c' \<and> (\<forall>k. cache_look c' k \<noteq> None \<longrightarrow> cache_look c k \<noteq> None \<or> N k))"

lemma keys_refl: "keys_from N c c"
  by (simp add: keys_from_def)

lemma keys_put: "keys_from N c c' \<Longrightarrow> N k \<Longrightarrow> keys_from N c (cache_Put c' k v)"
  unfolding keys_from_def using lru.ins_inv lru.ins_other by (metis not_Some_eq)

lemma keys_get: "keys_from N c c' \<Longrightarrow> keys_from N c (fst (cache_Get c' k))"
  unfolding keys_from_def using lru.touch_inv lru.touch_look by metis

lemma keys_delete: "keys_from N c c' \<Longrightarrow> keys_from N c (cache_Delete c' k)"
  unfolding keys_from_def using lru.del_inv lru.del_look by (metis fun_upd_apply)

definition step_ok :: "proxyEnv \<Rightarrow> proxyConn \<Rightarrow> Frame \<Rightarrow> proxyConn \<Rightarrow> bool" where
  "step_ok env pc f pc' \<longleftrightarrow>
     (\<exists>gs. pc_sent pc' = pc_sent pc @ gs \<and> list_all (sendable env pc f) gs \<and> keys_from (new_key f gs) (pc_wire pc) (pc_wire pc'))"

lemma step_ok_sends: "sends (sendable env pc f) pc pc' \<Longrightarrow> step_ok env pc f pc'"
  unfolding sends_def step_ok_def using keys_refl by metis

lemma step_ok_nothing:
  assumes "footprint pc' = (pc_sent pc, c)" "keys_from (new_key f []) (pc_wire pc) c"
  shows "step_ok env pc f pc'"
  unfolding step_ok_def using assms by (intro exI [of _ "[]"]) (simp add: footprint_def)

lemma step_ok_forward:
  assumes "footprint pc' = (pc_sent pc @ [g], c)" "sendable env pc f g" "keys_from (new_key f [g]) (pc_wire pc) c"
  shows "step_ok env pc f pc'"
  unfolding step_ok_def using assms by (intro exI [of _ "[g]"]) (simp add: footprint_def)

lemma footprint_send: "footprint (send g pc) = (pc_sent pc @ [g], pc_wire pc)"
  by (simp add: footprint_def send_def)

lemma execute_local [simp]:
  "executeAction env f pc (ActionSynthError st m sev) = (reply (SynthError st m (if sev = [] then ''ERROR'' else sev)) pc, None)"
  "executeAction env f pc (ActionSynthReadyForQuery c) = (reply (SynthReady c) pc, None)"
  "executeAction env f pc ActionForward = (send f pc, None)"
  "executeAction env f pc ActionSuppress = (pc, None)"
  by (simp_all add: executeAction_def executeIO_def)

lemma execute_simps [simp]:
  "executeActions env f pc [ActionForward] = (send f pc, None)"
  "executeActions env f pc [ActionSuppress] = (pc, None)"
  "executeActions env f pc [ActionSynthError st msg sev] = (reply (SynthError st msg (if sev = [] then ''ERROR'' else sev)) pc, None)"
  "executeActions env f pc [ActionSynthReadyForQuery c] = (reply (SynthReady c) pc, None)"
  by (simp_all add: executeActions_def)

lemma execute_sync: "footprint (fst (executeActions env f pc [ActionForward, ActionDrainUntilRFQ])) = footprint (send f pc)"
proof -
  obtain pc1 r e where d: "forwardUpstreamUntilRFQ (env_now env) (send f pc) = (pc1, r, e)" by (metis prod_cases3)
  from fp.blind_forward [of "env_now env" "send f pc"] d have "footprint pc1 = footprint (send f pc)" by simp
  then show ?thesis by (cases e) (simp_all add: executeActions_def executeAction_def executeIO_def d quiet)
qed

lemma wireView_Get: "view_Get wireCacheView c k = (c', e) \<Longrightarrow> c' = fst (cache_Get c k) \<and> (e = None \<longleftrightarrow> snd (cache_Get c k) = None)"
  by (auto simp: wireCacheView_def split: prod.splits)

lemma wireView_simps [simp]:
  "view_Delete wireCacheView c k = cache_Delete c k" "\<exists>e. view_Put wireCacheView c k v = cache_Put c k e"
  by (auto simp: wireCacheView_def)

lemma footprint_wire: "footprint (pc\<lparr>pc_wire := c\<rparr>) = (pc_sent pc, c)"
  by (simp add: footprint_def)

lemma runTransition_Some:
  assumes "TransitionWithParser wireCacheView (\<lambda>sql. fst (classifyBatch env pc sql)) (env_rules env) (env_svc env) (pc_sm pc) (pc_wire pc) f = Some (s', c', acts)"
  shows "runTransition env pc f stmts = executeActions env f (afterTransition f stmts acts (pc\<lparr>pc_sm := s', pc_wire := c'\<rparr>)) acts"
  using assms by (simp add: runTransition_def)

lemma footprint_sm_wire: "footprint (pc\<lparr>pc_sm := s, pc_wire := c\<rparr>) = (pc_sent pc, c)"
  by (simp add: footprint_def)

lemma step_plain:
  assumes "f = SyncFrame \<or> f = FlushFrame \<or> (\<exists>t n. f = DescribeFrame t n)"
  shows "step_ok env pc f (fst (runTransition env pc f stmts))"
proof -
  let ?T = "TransitionWithParser wireCacheView (\<lambda>sql. fst (classifyBatch env pc sql)) (env_rules env) (env_svc env) (pc_sm pc) (pc_wire pc) f"
  have "\<exists>s' acts. ?T = Some (s', pc_wire pc, acts) \<and> (acts = [ActionSuppress] \<or> (\<exists>c. acts = [ActionSynthReadyForQuery c])
      \<or> (acts = [ActionForward] \<or> acts = [ActionForward, ActionDrainUntilRFQ]) \<and> sendable env pc f f)"
    using assms
    by (cases "sm_Absorbing (pc_sm pc)"; cases "sm_UpstreamDirtySinceSync (pc_sm pc)")
      (auto simp: TransitionWithParser_def handleSync_def handleFlush_def handleDescribe_def sendable_def)
  then obtain s' acts where t: "?T = Some (s', pc_wire pc, acts)"
    and acts: "acts = [ActionSuppress] \<or> (\<exists>c. acts = [ActionSynthReadyForQuery c])
      \<or> (acts = [ActionForward] \<or> acts = [ActionForward, ActionDrainUntilRFQ]) \<and> sendable env pc f f" by blast
  have after: "afterTransition f stmts acts pc0 = pc0" for pc0 using assms by (auto simp: afterTransition_def)
  let ?pc = "pc\<lparr>pc_sm := s', pc_wire := pc_wire pc\<rparr>"
  from acts show ?thesis unfolding runTransition_Some [OF t] after
  proof (elim disjE exE conjE)
    assume "acts = [ActionForward, ActionDrainUntilRFQ]" and s: "sendable env pc f f"
    then show "step_ok env pc f (fst (executeActions env f ?pc acts))"
      by (intro step_ok_forward [OF _ s keys_refl]) (simp add: execute_sync footprint_send)
  next
    assume "acts = [ActionForward]" and s: "sendable env pc f f"
    then show "step_ok env pc f (fst (executeActions env f ?pc acts))"
      by (intro step_ok_forward [OF _ s keys_refl]) (simp add: footprint_send)
  qed (auto intro!: step_ok_nothing [OF _ keys_refl] simp: quiet, auto simp: footprint_def)
qed

lemma step_close: "step_ok env pc (CloseFrame t n) (fst (runTransition env pc (CloseFrame t n) stmts))"
proof (cases "sm_Absorbing (pc_sm pc)")
  case True
  then show ?thesis by (auto simp: runTransition_def TransitionWithParser_def handleClose_def afterTransition_def footprint_def intro!: step_ok_nothing [OF _ keys_refl])
next
  case False
  let ?f = "CloseFrame t n"
  define c where "c = (if t = CHR ''S'' then cache_Delete (pc_wire pc) n else if t = CHR ''P'' then cache_Delete (pc_wire pc) (portalCacheKey n) else pc_wire pc)"
  have s: "sendable env pc ?f ?f" using False by (simp add: sendable_def)
  have k: "keys_from (new_key ?f [?f]) (pc_wire pc) c" by (simp add: c_def keys_refl keys_delete)
  have "fst (runTransition env pc ?f stmts) = send ?f (pc\<lparr>pc_sm := (pc_sm pc)\<lparr>sm_UpstreamDirtySinceSync := True\<rparr>, pc_wire := c\<rparr>)"
    using False by (simp add: runTransition_def TransitionWithParser_def handleClose_def afterTransition_def c_def)
  then show ?thesis by (intro step_ok_forward [OF _ s k]) (simp add: footprint_send)
qed

lemma preserve_keys:
  "footprint (preserveRedirectPortalMetadata portal st pc) = (pc_sent pc, pc_wire (preserveRedirectPortalMetadata portal st pc))"
  "keys_from N c (pc_wire pc) \<Longrightarrow> N (portalCacheKey portal) \<Longrightarrow> keys_from N c (pc_wire (preserveRedirectPortalMetadata portal st pc))"
proof -
  obtain c' e where g: "cache_Get (pc_wire pc) st = (c', e)" by fastforce
  show "footprint (preserveRedirectPortalMetadata portal st pc) = (pc_sent pc, pc_wire (preserveRedirectPortalMetadata portal st pc))"
    by (cases e) (simp_all add: preserveRedirectPortalMetadata_def g footprint_def)
  assume k: "keys_from N c (pc_wire pc)" "N (portalCacheKey portal)"
  from keys_get [OF k(1), of st] g have "keys_from N c c'" by simp
  with k(2) show "keys_from N c (pc_wire (preserveRedirectPortalMetadata portal st pc))"
    by (cases e) (simp_all add: preserveRedirectPortalMetadata_def g keys_put)
qed

lemma step_bind: "step_ok env pc (BindFrame p st) (fst (runTransition env pc (BindFrame p st) stmts))"
proof (cases "sm_Absorbing (pc_sm pc)")
  case True
  then show ?thesis by (auto simp: runTransition_def TransitionWithParser_def handleBind_def afterTransition_def actionsCanForward_def footprint_def intro!: step_ok_nothing [OF _ keys_refl])
next
  case na: False
  obtain c1 e where g: "view_Get wireCacheView (pc_wire pc) st = (c1, e)" by fastforce
  note c1 = wireView_Get [OF g]
  show ?thesis
  proof (cases e)
    case None
    have "keys_from (new_key (BindFrame p st) []) (pc_wire pc) c1" using c1 by (simp add: keys_get keys_refl)
    with na g None show ?thesis
      by (auto simp: runTransition_def TransitionWithParser_def handleBind_def afterTransition_def actionsCanForward_def footprint_sm_wire quiet intro!: step_ok_nothing)
  next
    case (Some v)
    let ?f = "BindFrame p st"
    obtain x where x: "view_Put wireCacheView c1 (portalCacheKey p) v = cache_Put c1 (portalCacheKey p) x" using wireView_simps(2) by blast
    have s: "sendable env pc ?f ?f" using na c1 Some by (simp add: sendable_def)
    have N: "new_key ?f [?f] (portalCacheKey p)" by (simp add: new_key_def)
    let ?pc = "pc\<lparr>pc_sm := (pc_sm pc)\<lparr>sm_UpstreamDirtySinceSync := True\<rparr>, pc_wire := cache_Put c1 (portalCacheKey p) x\<rparr>"
    have k: "keys_from (new_key ?f [?f]) (pc_wire pc) (pc_wire ?pc)" using c1 N by (simp add: keys_put keys_get keys_refl)
    have "fst (runTransition env pc ?f stmts) = send ?f (preserveRedirectPortalMetadata p st ?pc)"
      using na g Some x by (simp add: runTransition_def TransitionWithParser_def handleBind_def afterTransition_def actionsCanForward_def)
    then show ?thesis
      using preserve_keys(1) [of p st ?pc] preserve_keys(2) [OF k N, of st]
      by (intro step_ok_forward [OF _ s]) (auto simp: send_def footprint_def)
  qed
qed

lemma mark_execute:
  "footprint (markCatalogRefreshPendingForExecute portal acts pc) = (pc_sent pc, pc_wire (markCatalogRefreshPendingForExecute portal acts pc))"
  "keys_from N c (pc_wire pc) \<Longrightarrow> keys_from N c (pc_wire (markCatalogRefreshPendingForExecute portal acts pc))"
proof -
  obtain c' e where g: "cache_Get (pc_wire pc) (portalCacheKey portal) = (c', e)" by fastforce
  have w: "pc_wire (markCatalogRefreshPendingForNeeds a b pc0) = pc_wire pc0" "pc_sent (markCatalogRefreshPendingForNeeds a b pc0) = pc_sent pc0" for a b pc0
    using fp.blind_basic(4) [of a b pc0] by (simp_all add: footprint_def)
  show "footprint (markCatalogRefreshPendingForExecute portal acts pc) = (pc_sent pc, pc_wire (markCatalogRefreshPendingForExecute portal acts pc))"
    by (cases e) (simp_all add: markCatalogRefreshPendingForExecute_def g footprint_def w Let_def)
  assume k: "keys_from N c (pc_wire pc)"
  from keys_get [OF this, of "portalCacheKey portal"] g have "keys_from N c c'" by simp
  with k show "keys_from N c (pc_wire (markCatalogRefreshPendingForExecute portal acts pc))"
    by (cases e) (simp_all add: markCatalogRefreshPendingForExecute_def g w Let_def)
qed

lemma step_execute: "step_ok env pc (ExecuteFrame p) (fst (runTransition env pc (ExecuteFrame p) stmts))"
proof (cases "sm_Absorbing (pc_sm pc)")
  case True
  then show ?thesis
    by (auto simp: runTransition_def TransitionWithParser_def handleExecute_def afterTransition_def markCatalogRefreshPendingForExecute_def actionsCanForward_def
        footprint_def intro!: step_ok_nothing [OF _ keys_refl])
next
  case na: False
  obtain c1 e where g: "view_Get wireCacheView (pc_wire pc) (portalCacheKey p) = (c1, e)" by fastforce
  note c1 = wireView_Get [OF g]
  show ?thesis
  proof (cases e)
    case None
    have "keys_from (new_key (ExecuteFrame p) []) (pc_wire pc) c1" using c1 by (simp add: keys_get keys_refl)
    with na g None show ?thesis
      by (auto simp: runTransition_def TransitionWithParser_def handleExecute_def afterTransition_def markCatalogRefreshPendingForExecute_def actionsCanForward_def
          footprint_sm_wire quiet intro!: step_ok_nothing)
  next
    case (Some v)
    let ?f = "ExecuteFrame p"
    have s: "sendable env pc ?f ?f" using na c1 Some by (simp add: sendable_def)
    let ?pc = "pc\<lparr>pc_sm := (pc_sm pc)\<lparr>sm_UpstreamDirtySinceSync := True\<rparr>, pc_wire := c1\<rparr>"
    have k: "keys_from (new_key ?f [?f]) (pc_wire pc) (pc_wire ?pc)" using c1 by (simp add: keys_get keys_refl)
    have "fst (runTransition env pc ?f stmts) = send ?f (markCatalogRefreshPendingForExecute p [ActionForward] ?pc)"
      using na g Some by (simp add: runTransition_def TransitionWithParser_def handleExecute_def afterTransition_def)
    then show ?thesis
      using mark_execute(1) [of p "[ActionForward]" ?pc] mark_execute(2) [OF k, of p "[ActionForward]"]
      by (intro step_ok_forward [OF _ s]) (auto simp: send_def footprint_def)
  qed
qed

lemma deny_step:
  assumes "footprint pc1 = footprint pc" "pc_sm pc2 = pc_sm pc" "\<And>g. in_tx pc \<Longrightarrow> g = rollback \<Longrightarrow> sendable env pc f g"
  shows "step_ok env pc f (fst (executeActions env f pc1 (DenyRoute (pc_sm pc2) rule msg st)))"
proof -
  have "sends (\<lambda>g. in_tx pc \<and> g = rollback) pc (fst (executeActions env f pc1 (DenyRoute (pc_sm pc2) rule msg st)))"
    unfolding DenyRoute_execute assms(2) by (rule sends_after [OF assms(1) deny_sends])
  then show ?thesis using assms(3) by (intro step_ok_sends) (auto elim: sends_mono)
qed

lemma step_redirect_parse:
  assumes "tryHandleRedirectParse env pc name sql stmts = Some r" "stmts = fst (classifyBatch env pc sql)"
  shows "step_ok env pc (ParseFrame name sql) (fst r)"
proof -
  let ?f = "ParseFrame name sql"
  have rb: "sendable env pc ?f g" if "in_tx pc" "g = rollback" for g using that by (simp add: sendable_def parseFrame_def)
  obtain ds where ds: "those (map (evaluate env) stmts) = Some ds" using evaluate_all by blast
  with assms(1) obtain i where i: "firstVerb VerbRedirect ds = Some i"
    by (auto simp: tryHandleRedirectParse_def split: if_splits option.splits)
  note tried = assms(1) [unfolded tryHandleRedirectParse_def ds option.case i]
  have nd: "\<not> list_ex (\<lambda>d. dd_Verb d = VerbDeny \<or> dd_Verb d = VerbApprove) ds" using tried by (auto split: if_splits)
  show ?thesis
  proof (cases "length stmts \<noteq> 1 \<or> i \<noteq> 0")
    case True
    let ?pc1 = "emit [redirectRejectedEvent env (stmts ! i) sql (ds ! i) (multiStatementPlan (ds ! i))] pc"
    from tried nd True have r: "r = executeActions env ?f ?pc1 (DenyRoute (pc_sm ?pc1) zero_StatementRule
      ''redirect rejected by AgentSH policy: multi-statement redirect unsupported'' ''0A000'')" by (simp add: Let_def)
    show ?thesis unfolding r by (rule deny_step [OF _ _ rb]) (simp_all add: footprint_def emit_def)
  next
    case False
    then have one: "length stmts = 1" "i = 0" by simp_all
    show ?thesis
    proof (cases "planRuntimeRedirect env pc sql (stmts ! 0) (ds ! 0)")
      case (Inl plan)
      let ?pc1 = "emit [redirectRejectedEvent env (stmts ! 0) sql (ds ! 0) plan] pc"
      let ?as = "DenyRoute (pc_sm ?pc1) zero_StatementRule (''redirect rejected by AgentSH policy: '' @ rrp_RejectionReason plan) ''0A000''"
      from tried nd one Inl have r: "r = executeActions env ?f (if containsClose ?as then ?pc1 else ?pc1\<lparr>pc_sm := (pc_sm ?pc1)\<lparr>sm_Absorbing := True\<rparr>\<rparr>) ?as"
        by (simp add: Let_def)
      show ?thesis unfolding r by (rule deny_step [OF _ _ rb]) (simp_all add: footprint_def emit_def)
    next
      case (Inr plan)
      let ?g = "ParseFrame name (rrp_RewrittenSQL plan)"
      from ds have ds2: "list_all2 (\<lambda>cs d. evaluate env cs = Some d) stmts ds" by (simp add: those_list_all2)
      have "length ds = 1" using list_all2_lengthD [OF ds2] one by simp
      with firstVerb_Some [OF i] one have "\<forall>d \<in> set ds. dd_Verb d \<in> set [VerbRedirect]" by (auto simp: length_Suc_conv)
      from verbs_of_decisions [OF ds2 this] planRuntimeRedirect_Inr [OF Inr] one have "rewritten env pc stmts (rrp_RewrittenSQL plan)"
        by (auto simp: rewritten_def)
      then have s: "sendable env pc ?f ?g" using assms(2) by (simp add: sendable_def parseFrame_def)
      have N: "new_key ?f [?g] name" by (auto simp: new_key_def)
      from tried nd one Inr obtain e where "footprint (fst r) = (pc_sent pc @ [?g], cache_Put (pc_wire pc) name e)"
        by (auto simp: Let_def footprint_def send_def)
      then show ?thesis by (rule step_ok_forward [OF _ s]) (intro keys_put keys_refl N)
    qed
  qed
qed

lemma tryHandle_None:
  assumes "tryHandleRedirectParse env pc name sql stmts = None" "\<forall>cs \<in> set stmts. passes (env_rules env) (env_svc env) cs"
  shows "list_all (verbIn env [VerbAllow, VerbAudit]) stmts"
proof -
  obtain ds where ds: "those (map (evaluate env) stmts) = Some ds" using evaluate_all by blast
  then have ds2: "list_all2 (\<lambda>cs d. evaluate env cs = Some d) stmts ds" by (simp add: those_list_all2)
  have p: "dd_Verb d \<noteq> VerbApprove \<and> dd_Verb d \<noteq> VerbDeny" if "d \<in> set ds" for d
  proof -
    from that obtain i where i: "i < length ds" "ds ! i = d" by (auto simp: in_set_conv_nth)
    with ds2 have "evaluate env (stmts ! i) = Some d" "stmts ! i \<in> set stmts" by (auto simp: list_all2_conv_all_nth)
    with assms(2) show ?thesis by (fastforce simp: passes_def)
  qed
  then have "\<not> list_ex (\<lambda>d. dd_Verb d = VerbDeny \<or> dd_Verb d = VerbApprove) ds" by (auto simp: list_ex_iff)
  with assms(1) ds have "firstVerb VerbRedirect ds = None"
    by (auto simp: tryHandleRedirectParse_def Let_def split: option.splits if_splits sum.splits)
  with p have "dd_Verb d \<in> set [VerbAllow, VerbAudit]" if "d \<in> set ds" for d
    using that by (cases "dd_Verb d") (auto simp: firstVerb_None)
  then show ?thesis using verbs_of_decisions [OF ds2] by blast
qed

lemma step_approval:
  assumes "consent env \<Longrightarrow> sendable env pc (ParseFrame name sql) (ParseFrame name sql)"
    and "\<And>g. in_tx pc \<Longrightarrow> g = rollback \<Longrightarrow> sendable env pc (ParseFrame name sql) g"
    and "pc_sm pc1 = pc_sm pc" "footprint pc1 = footprint pc"
  shows "step_ok env pc (ParseFrame name sql) (fst (runApprovalWait env (ParseFrame name sql) pc1 t cs rule))"
proof -
  let ?f = "ParseFrame name sql"
  define out where "out = waitForApproval (env_approval env) t"
  have app: "ao_approved out \<longleftrightarrow> consent env" by (simp add: out_def waitForApproval_approved)
  have n: "step_ok env pc ?f (emit evs pc1)" for evs by (rule step_ok_sends [OF sends_quiet]) (simp add: quiet assms(4))
  have d: "step_ok env pc ?f (fst (runActions (executeIO env ?f) (emit evs pc1) (DenyRoute (pc_sm (emit evs pc1)) rule msg st)))" for evs msg st
    unfolding DenyRoute_execute [symmetric] by (rule deny_step) (use assms in \<open>simp_all add: footprint_def emit_def\<close>)
  have a: "step_ok env pc ?f (send ?f (cacheApprovedParse name cs (emit evs pc1)))" if "consent env" for evs
  proof (rule step_ok_forward [OF _ assms(1) [OF that]])
    show "footprint (send ?f (cacheApprovedParse name cs (emit evs pc1))) = (pc_sent pc @ [?f], cache_Put (pc_wire pc) name (refreshEntry [cs] cs))"
      using assms(4) by (simp add: footprint_def send_def cacheApprovedParse_def emit_def)
    show "keys_from (new_key ?f [?f]) (pc_wire pc) (cache_Put (pc_wire pc) name (refreshEntry [cs] cs))"
      by (rule keys_put [OF keys_refl]) (auto simp: new_key_def)
  qed
  show ?thesis
    unfolding runApprovalWait_def Let_def out_def [symmetric] app using n d a by simp
qed

lemma step_parse: "step_ok env pc (ParseFrame name sql) (fst (handleExtendedFrame env pc (ParseFrame name sql)))"
proof -
  let ?f = "ParseFrame name sql"
  define stmts where "stmts = fst (classifyBatch env pc sql)"
  define tried where "tried = (if stmts = [] then None else tryHandleRedirectParse env pc name sql stmts)"
  have h: "handleExtendedFrame env pc ?f = (case tried of Some r \<Rightarrow> r | None \<Rightarrow> runTransition env pc ?f stmts)"
    unfolding handleExtendedFrame_def Let_def stmts_def tried_def by simp
  have rb: "sendable env pc ?f g" if "in_tx pc" "g = rollback" for g using that by (simp add: sendable_def parseFrame_def)
  show ?thesis
  proof (cases tried)
    case (Some r)
    with step_redirect_parse [of env pc name sql stmts r] h show ?thesis by (auto simp: tried_def stmts_def split: if_splits)
  next
    case None
    let ?T = "TransitionWithParser wireCacheView (\<lambda>sql. fst (classifyBatch env pc sql)) (env_rules env) (env_svc env) (pc_sm pc) (pc_wire pc) ?f"
    have r: "handleExtendedFrame env pc ?f = runTransition env pc ?f stmts" using h None by simp
    show ?thesis
    proof (cases "sm_Absorbing (pc_sm pc)")
      case True
      have t: "?T = Some (pc_sm pc, pc_wire pc, [ActionSuppress])" using True by (simp add: TransitionWithParser_def handleParse_def)
      show ?thesis unfolding r runTransition_Some [OF t]
        by (auto simp: afterTransition_def actionsCanForward_def footprint_def intro!: step_ok_nothing [OF _ keys_refl])
    next
      case na: False
      consider (pass) "scanStatements (env_rules env) (env_svc env) stmts = Some ScanPass" "\<forall>cs \<in> set stmts. passes (env_rules env) (env_svc env) cs"
        | (approve) d cs where "scanStatements (env_rules env) (env_svc env) stmts = Some (ScanApprove d cs)"
        | (deny) d where "scanStatements (env_rules env) (env_svc env) stmts = Some (ScanDeny d)"
        by (cases rule: scanStatements_cases [of "env_rules env" "env_svc env" stmts]) blast+
      then show ?thesis
      proof cases
        case pass
        have "list_all (verbIn env [VerbAllow, VerbAudit]) stmts"
          using tryHandle_None [OF _ pass(2)] None by (auto simp: tried_def split: if_splits)
        then have s: "sendable env pc ?f ?f" using na by (simp add: sendable_def parseFrame_def stmts_def)
        have N: "new_key ?f [?f] name" by (auto simp: new_key_def)
        obtain x where x: "view_Put wireCacheView (pc_wire pc) name (cacheValueOf stmts) = cache_Put (pc_wire pc) name x" using wireView_simps(2) by blast
        have t: "?T = Some ((pc_sm pc)\<lparr>sm_UpstreamDirtySinceSync := True\<rparr>, cache_Put (pc_wire pc) name x, [ActionForward])"
          using na pass(1) x by (simp add: TransitionWithParser_def handleParse_def Let_def stmts_def)
        have k: "keys_from (new_key ?f [?f]) (pc_wire pc) (cache_Put (pc_wire pc) name x)" by (intro keys_put keys_refl N)
        show ?thesis unfolding r runTransition_Some [OF t]
          using k keys_put [OF k, of name, OF N]
          by (cases "stmts = []") (auto simp: afterTransition_def actionsCanForward_def footprint_def send_def intro!: step_ok_forward [OF _ s])
      next
        case (approve d cs)
        obtain t rule where w: "newApproverWaitAction d cs (lookupStatementRule (env_rules env) (dd_RuleName d)) = ActionApproverWait t cs rule"
          by (simp add: newApproverWaitAction_def Let_def)
        have t: "?T = Some (pc_sm pc, pc_wire pc, [ActionApproverWait t cs rule])"
          using na approve w by (simp add: TransitionWithParser_def handleParse_def Let_def stmts_def)
        have s: "sendable env pc ?f ?f" if "consent env" using na that approve by (simp add: sendable_def parseFrame_def stmts_def approvedScan_def)
        have e: "fst (executeActions env ?f pc1 [ActionApproverWait t cs rule]) = fst (runApprovalWait env ?f pc1 t cs rule)" for pc1
          by (simp add: executeActions_def executeAction_def split: prod.splits option.splits)
        show ?thesis unfolding r runTransition_Some [OF t] e
          by (rule step_approval [OF s rb]) (simp_all add: afterTransition_def actionsCanForward_def footprint_def)
      next
        case (deny d)
        let ?as = "DenyRoute (pc_sm pc) (lookupStatementRule (env_rules env) (dd_RuleName d)) (renderDenyMessage d) (sqlstateForDecision d)"
        have t: "?T = Some (if containsClose ?as then pc_sm pc else (pc_sm pc)\<lparr>sm_Absorbing := True\<rparr>, pc_wire pc, ?as)"
          using na deny by (simp add: TransitionWithParser_def handleParse_def Let_def stmts_def)
        have "\<not> actionsCanForward ?as" using DenyRoute_no_forward by (auto simp: actionsCanForward_def list_ex_iff)
        then show ?thesis unfolding r runTransition_Some [OF t]
          by (intro deny_step [OF _ refl rb]) (simp_all add: afterTransition_def footprint_def)
      qed
    qed
  qed
qed

lemma step_call: "step_ok env pc (FunctionCallFrame oid) (fst (handleFunctionCall env pc oid))"
proof (cases "allowsFunctionCalls (env_rules env) (env_svc env)")
  case False
  then show ?thesis by (auto simp: handleFunctionCall_def intro!: step_ok_sends sends_quiet simp: quiet)
next
  case allowed: True
  let ?f = "FunctionCallFrame oid"
  define cs where "cs = resolveStatementCatalog (pc_catalog pc) (functionCallStatement oid)"
  obtain d where d: "evaluate env cs = Some d" using Evaluate_total by blast
  have rb: "sendable env pc ?f g" if "in_tx pc" "g = rollback" for g using that allowed by (simp add: sendable_def callFrame_def)
  have fwd: "step_ok env pc ?f (fst (forwardFunctionCall env pc ?f cs d))" if "sendable env pc ?f ?f"
  proof -
    obtain pc1 r e where f: "forwardUpstreamUntilRFQ (env_now env) (send ?f pc) = (pc1, r, e)" by (metis prod_cases3)
    from fp.blind_forward [of "env_now env" "send ?f pc"] f have "footprint pc1 = footprint (send ?f pc)" by simp
    then show ?thesis by (intro step_ok_forward [OF _ that keys_refl]) (simp add: forwardFunctionCall_def f quiet footprint_send)
  qed
  have dn: "step_ok env pc ?f (fst (executeActions env ?f (emit evs pc) (DenyRoute (pc_sm pc) rule msg st)))" for evs rule msg st
    by (rule deny_step [OF _ _ rb]) (simp_all add: quiet)
  have em: "step_ok env pc ?f (emit evs pc)" for evs by (rule step_ok_sends [OF sends_quiet]) (simp add: quiet)
  have ap: "sendable env pc ?f ?f" if "dd_Verb d = VerbApprove" "consent env"
    using that allowed d by (simp add: sendable_def callFrame_def verbIn_def cs_def [symmetric] Let_def)
  have pa: "sendable env pc ?f ?f" if "dd_Verb d \<noteq> VerbApprove" "dd_Verb d \<noteq> VerbDeny"
  proof -
    have "dd_Verb d \<in> set [VerbAllow, VerbAudit, VerbRedirect]" using that by (cases "dd_Verb d") auto
    then show ?thesis using allowed d by (simp add: sendable_def callFrame_def verbIn_def cs_def [symmetric] Let_def)
  qed
  show ?thesis
    unfolding handleFunctionCall_def Let_def cs_def [symmetric] d option.case waitForApproval_approved
    using allowed fwd [OF ap] fwd [OF pa] dn em by simp
qed

lemma step_ok_fst: "step_ok env pc f (fst r) \<Longrightarrow> step_ok env pc f (fst (case r of (pc', e) \<Rightarrow> (pc', h e)))"
  by (cases r) simp

lemma simpleQueryStep_ok: "step_ok env pc f (fst (simpleQueryStep env pc f))"
proof (cases f)
  case (QueryFrame sql)
  have "sends (sendable env pc f) pc (fst (handleSimpleQuery env pc sql))"
    by (rule sends_mono [OF handleSimpleQuery_sends]) (simp add: sendable_def QueryFrame)
  with QueryFrame show ?thesis by (simp add: simpleQueryStep_def step_ok_sends)
next
  case (ParseFrame name sql)
  then show ?thesis by (simp add: simpleQueryStep_def step_parse)
next
  case (BindFrame p st)
  then show ?thesis by (simp add: simpleQueryStep_def handleExtendedFrame_def step_bind)
next
  case (DescribeFrame t n)
  then show ?thesis using step_plain [of f env pc "[]"] by (simp add: simpleQueryStep_def handleExtendedFrame_def)
next
  case (ExecuteFrame p)
  then show ?thesis by (simp add: simpleQueryStep_def handleExtendedFrame_def step_execute)
next
  case SyncFrame
  then show ?thesis using step_plain [of f env pc "[]"] by (simp add: simpleQueryStep_def handleExtendedFrame_def)
next
  case FlushFrame
  then show ?thesis using step_plain [of f env pc "[]"] by (simp add: simpleQueryStep_def handleExtendedFrame_def)
next
  case (CloseFrame t n)
  then show ?thesis by (simp add: simpleQueryStep_def handleExtendedFrame_def step_close)
next
  case TerminateFrame
  have "sendable env pc f f" using TerminateFrame by (simp add: sendable_def)
  then show ?thesis using TerminateFrame by (intro step_ok_sends) (simp add: simpleQueryStep_def sends_send)
next
  case (FunctionCallFrame oid)
  then show ?thesis using step_call [of env pc oid] by (auto simp: simpleQueryStep_def handleUnsupportedFrame_def intro: step_ok_fst)
qed (auto simp: simpleQueryStep_def handleUnsupportedFrame_def intro!: step_ok_sends sends_quiet simp: quiet)

lemma simpleQueryStep_sends: "list_all (sendable env pc f) (drop (length (pc_sent pc)) (pc_sent (fst (simpleQueryStep env pc f))))"
  using simpleQueryStep_ok [of env pc f] by (auto simp: step_ok_def)

section \<open>Sessions\<close>

text \<open>Strings of the protocol end with a zero byte and contain none.\<close>

definition wire_frame :: "Frame \<Rightarrow> bool" where
  "wire_frame f = list_all (\<lambda>s. CHR 0x00 \<notin> set s) (case f of ParseFrame name _ \<Rightarrow> [name] | BindFrame portal statement \<Rightarrow> [portal, statement] | _ \<Rightarrow> [])"

text \<open>
  A session is a sequence of steps from a new connection; between steps the database may send anything. The history records
  the environment, the connection, the client's frame and the frames sent in each step.
\<close>

type_synonym history = "(proxyEnv \<times> proxyConn \<times> Frame \<times> Frame list) list"

definition newly_sent :: "proxyConn \<Rightarrow> proxyConn \<Rightarrow> Frame list" where
  "newly_sent pc pc' = drop (length (pc_sent pc)) (pc_sent pc')"

inductive session :: "history \<Rightarrow> proxyConn \<Rightarrow> proxy_error option \<Rightarrow> bool" where
  start: "pc_wire pc = cache_New 0 \<Longrightarrow> pc_sent pc = [] \<Longrightarrow> session [] pc None"
| upstream: "session h pc None \<Longrightarrow> session h (pc\<lparr>pc_up := ms\<rparr>) None"
| step: "session h pc None \<Longrightarrow> wire_frame f \<Longrightarrow> simpleQueryStep env pc f = (pc', e)
    \<Longrightarrow> session (h @ [(env, pc, f, newly_sent pc pc')]) pc' e"

definition sent_at :: "history \<Rightarrow> nat \<Rightarrow> Frame \<Rightarrow> bool" where
  "sent_at h i g \<longleftrightarrow> i < length h \<and> (case h ! i of (env, pc, f, gs) \<Rightarrow> g \<in> set gs)"

definition cleared :: "history \<Rightarrow> nat \<Rightarrow> Frame \<Rightarrow> bool" where
  "cleared h i g \<longleftrightarrow> (case h ! i of (env, pc, f, gs) \<Rightarrow> sendable env pc f g)"

lemma sent_at_append: "i < length h \<Longrightarrow> sent_at (h @ h') i g = sent_at h i g" "i < length h \<Longrightarrow> cleared (h @ h') i g = cleared h i g"
  by (simp_all add: sent_at_def cleared_def nth_append)

text \<open>What the keys of the wire cache stand for.\<close>

definition backed :: "history \<Rightarrow> cache_Entry Cache \<Rightarrow> bool" where
  "backed h c \<longleftrightarrow> cache_inv c \<and> (\<forall>k. cache_look c k \<noteq> None \<longrightarrow>
     (CHR 0x00 \<notin> set k \<longrightarrow> (\<exists>i sql. sent_at h i (ParseFrame k sql)))
   \<and> (\<forall>p. k = portalCacheKey p \<longrightarrow> (\<exists>i st. sent_at h i (BindFrame p st))))"


lemma sendable_bind: "sendable env pc f (BindFrame p st) \<Longrightarrow> f = BindFrame p st \<and> snd (cache_Get (pc_wire pc) st) \<noteq> None"
  by (cases f) (auto simp: sendable_def queryFrame_def parseFrame_def callFrame_def rollback_def copyFrame_def)

lemma sendable_execute: "sendable env pc f (ExecuteFrame p) \<Longrightarrow> f = ExecuteFrame p \<and> snd (cache_Get (pc_wire pc) (portalCacheKey p)) \<noteq> None"
  by (cases f) (auto simp: sendable_def queryFrame_def parseFrame_def callFrame_def rollback_def copyFrame_def)

definition ordered :: "history \<Rightarrow> bool" where
  "ordered h \<longleftrightarrow> (\<forall>i g. sent_at h i g \<longrightarrow> cleared h i g)
     \<and> (\<forall>i p st. sent_at h i (BindFrame p st) \<longrightarrow> (\<exists>k < i. \<exists>sql. sent_at h k (ParseFrame st sql)))
     \<and> (\<forall>i p. sent_at h i (ExecuteFrame p) \<longrightarrow> (\<exists>j < i. \<exists>st. sent_at h j (BindFrame p st)))"

lemma sent_at_snoc: "sent_at (h @ [(env, pc, f, gs)]) i g \<longleftrightarrow> (if i = length h then g \<in> set gs else sent_at h i g)"
  by (auto simp: sent_at_def nth_append)

lemma backed_step:
  assumes b: "backed h (pc_wire pc)" and w: "wire_frame f" and k: "keys_from (new_key f gs) (pc_wire pc) c'"
  shows "backed (h @ [(env, pc, f, gs)]) c'"
proof -
  let ?h = "h @ [(env, pc, f, gs)]"
  have inv: "cache_inv (pc_wire pc)" using b by (simp add: backed_def)
  have old: "\<exists>i. P i \<and> sent_at ?h i g" if "P i" "sent_at h i g" for P i g
  proof -
    have "i < length h" using that by (simp add: sent_at_def)
    with that show ?thesis by (auto simp: sent_at_append)
  qed
  have "(CHR 0x00 \<notin> set key \<longrightarrow> (\<exists>i sql. sent_at ?h i (ParseFrame key sql))) \<and> (\<forall>p. key = portalCacheKey p \<longrightarrow> (\<exists>i st. sent_at ?h i (BindFrame p st)))"
    if "cache_look c' key \<noteq> None" for key
  proof (cases "cache_look (pc_wire pc) key \<noteq> None")
    case True
    with b old [of "\<lambda>_. True"] show ?thesis unfolding backed_def by blast
  next
    case False
    with k inv that have n: "new_key f gs key" by (auto simp: keys_from_def)
    then show ?thesis
    proof (cases f)
      case (ParseFrame name sql)
      with n w have "key = name" "\<exists>sql. ParseFrame name sql \<in> set gs" "CHR 0x00 \<notin> set name" by (simp_all add: new_key_def wire_frame_def)
      then show ?thesis by (auto simp: sent_at_snoc portalCacheKey_def)
    next
      case (BindFrame portal st)
      with n have "key = portalCacheKey portal" "BindFrame portal st \<in> set gs" by (simp_all add: new_key_def)
      then show ?thesis by (auto simp: sent_at_snoc portalCacheKey_def)
    qed (simp_all add: new_key_def)
  qed
  with k inv show ?thesis by (simp add: backed_def keys_from_def)
qed

lemma ordered_step:
  assumes o: "ordered h" and b: "backed h (pc_wire pc)" and w: "wire_frame f" and s: "list_all (sendable env pc f) gs"
  shows "ordered (h @ [(env, pc, f, gs)])"
proof -
  let ?h = "h @ [(env, pc, f, gs)]"
  have inv: "cache_inv (pc_wire pc)" using b by (simp add: backed_def)
  have len: "i < length h" if "sent_at h i g" for i g using that by (simp add: sent_at_def)
  have "cleared ?h i g" if "sent_at ?h i g" for i g
    using that o s len by (cases "i = length h") (auto simp: sent_at_snoc cleared_def nth_append list_all_iff ordered_def)
  moreover have "\<exists>k < i. \<exists>sql. sent_at ?h k (ParseFrame st sql)" if "sent_at ?h i (BindFrame p st)" for i p st
  proof (cases "i = length h")
    case True
    with that s have "sendable env pc f (BindFrame p st)" by (simp add: sent_at_snoc list_all_iff)
    from sendable_bind [OF this] have f: "f = BindFrame p st" "cache_look (pc_wire pc) st \<noteq> None" using lru.touch_val [OF inv] by simp_all
    from f(1) w have "CHR 0x00 \<notin> set st" by (simp add: wire_frame_def)
    with b f(2) obtain k sql where "sent_at h k (ParseFrame st sql)" unfolding backed_def by blast
    with len [OF this] True show ?thesis by (metis sent_at_append(1))
  next
    case False
    with that have "sent_at h i (BindFrame p st)" by (simp add: sent_at_snoc)
    with o obtain k sql where "k < i" "sent_at h k (ParseFrame st sql)" unfolding ordered_def by blast
    with len show ?thesis by (metis sent_at_append(1))
  qed
  moreover have "\<exists>j < i. \<exists>st. sent_at ?h j (BindFrame p st)" if "sent_at ?h i (ExecuteFrame p)" for i p
  proof (cases "i = length h")
    case True
    with that s have "sendable env pc f (ExecuteFrame p)" by (simp add: sent_at_snoc list_all_iff)
    from sendable_execute [OF this] have "cache_look (pc_wire pc) (portalCacheKey p) \<noteq> None" using lru.touch_val [OF inv] by simp
    with b obtain j st where "sent_at h j (BindFrame p st)" unfolding backed_def by blast
    with len [OF this] True show ?thesis by (metis sent_at_append(1))
  next
    case False
    with that have "sent_at h i (ExecuteFrame p)" by (simp add: sent_at_snoc)
    with o obtain j st where "j < i" "sent_at h j (BindFrame p st)" unfolding ordered_def by blast
    with len show ?thesis by (metis sent_at_append(1))
  qed
  ultimately show ?thesis unfolding ordered_def by blast
qed

lemma session_ordered: "session h pc e \<Longrightarrow> ordered h \<and> backed h (pc_wire pc)"
proof (induction rule: session.induct)
  case (start pc)
  then show ?case by (simp add: ordered_def backed_def sent_at_def cache_New_inv cache_look_def cache_New_entries)
next
  case (upstream h pc ms)
  then show ?case by simp
next
  case (step h pc f env pc' e)
  from simpleQueryStep_ok [of env pc f] step.hyps(3)
  have s: "list_all (sendable env pc f) (newly_sent pc pc')" and k: "keys_from (new_key f (newly_sent pc pc')) (pc_wire pc) (pc_wire pc')"
    by (auto simp: step_ok_def newly_sent_def)
  from step.IH have "ordered h" "backed h (pc_wire pc)" by simp_all
  with ordered_step [OF _ _ step.hyps(2) s] backed_step [OF _ step.hyps(2) k] show ?case by blast
qed

text \<open>The history of a session accounts for everything that was sent.\<close>

lemma session_sent: "session h pc e \<Longrightarrow> pc_sent pc = concat (map (\<lambda>(_, _, _, gs). gs) h)"
proof (induction rule: session.induct)
  case (step h pc f env pc' e)
  from simpleQueryStep_ok [of env pc f] step.hyps(3) have "pc_sent pc' = pc_sent pc @ newly_sent pc pc'"
    by (auto simp: step_ok_def newly_sent_def)
  with step.IH show ?case by simp
qed simp_all

text \<open>The loop of the proxy runs sessions.\<close>

primrec trace :: "(proxyEnv \<times> Frame) list \<Rightarrow> proxyConn \<Rightarrow> history" where
  "trace [] pc = []"
| "trace (x # xs) pc =
     (case simpleQueryStep (fst x) pc (snd x) of (pc', e) \<Rightarrow>
        (fst x, pc, snd x, newly_sent pc pc') # (if e = None then trace xs pc' else []))"

lemma session_trace:
  assumes "session h pc None" "list_all (\<lambda>x. wire_frame (snd x)) xs"
  shows "\<exists>e. session (h @ trace xs pc) (fst (simpleQueryLoop xs pc)) e"
  using assms
proof (induction xs arbitrary: h pc)
  case (Cons x xs)
  obtain pc' e where s: "simpleQueryStep (fst x) pc (snd x) = (pc', e)" by fastforce
  from session.step [OF Cons.prems(1) _ s] Cons.prems(2)
  have n: "session (h @ [(fst x, pc, snd x, newly_sent pc pc')]) pc' e" by simp
  show ?case
  proof (cases e)
    case None
    with Cons.IH [of "h @ [(fst x, pc, snd x, newly_sent pc pc')]" pc'] n Cons.prems(2) s show ?thesis by simp
  next
    case (Some e')
    with n s show ?thesis by auto
  qed
qed auto

section \<open>Frames answered by the proxy\<close>

lemma tryHandle_left:
  assumes "scanStatements (env_rules env) (env_svc env) stmts \<noteq> Some ScanPass"
  shows "tryHandleRedirectParse env pc name sql stmts = None"
proof -
  obtain ds where ds: "those (map (evaluate env) stmts) = Some ds" using evaluate_all by blast
  then have ds2: "list_all2 (\<lambda>cs d. evaluate env cs = Some d) stmts ds" by (simp add: those_list_all2)
  from assms obtain cs d where "cs \<in> set stmts" "evaluate env cs = Some d" "dd_Verb d = VerbDeny \<or> dd_Verb d = VerbApprove"
    by (cases rule: scanStatements_cases [of "env_rules env" "env_svc env" stmts]) auto
  moreover from this(1) ds2 obtain d' where "d' \<in> set ds" "evaluate env cs = Some d'" by (fastforce simp: list_all2_conv_all_nth in_set_conv_nth)
  ultimately have "list_ex (\<lambda>d. dd_Verb d = VerbDeny \<or> dd_Verb d = VerbApprove) ds" by (auto simp: list_ex_iff)
  with ds show ?thesis by (simp add: tryHandleRedirectParse_def)
qed

lemma sync_absorbed:
  assumes "sm_Absorbing (pc_sm pc)" "\<not> sm_UpstreamDirtySinceSync (pc_sm pc)"
  shows "simpleQueryStep env pc SyncFrame = (reply (SynthReady (CHR ''I'')) (pc\<lparr>pc_sm := (pc_sm pc)\<lparr>sm_Absorbing := False\<rparr>\<rparr>), None)"
  using assms
  by (simp add: simpleQueryStep_def handleExtendedFrame_def runTransition_def TransitionWithParser_def handleSync_def afterTransition_def
      executeActions_def)

lemma denied_parse:
  assumes "\<not> sm_Absorbing (pc_sm pc)" "\<not> sm_UpstreamDirtySinceSync (pc_sm pc)" "\<not> in_tx pc"
    and scan: "scanStatements (env_rules env) (env_svc env) (fst (classifyBatch env pc sql)) = Some (ScanDeny d)"
  shows "simpleQueryStep env pc (ParseFrame name sql) = (reply (SynthReady (CHR ''I''))
      (reply (SynthError (sqlstateForDecision d) (renderDenyMessage d) ''ERROR'') (pc\<lparr>pc_sm := (pc_sm pc)\<lparr>sm_Absorbing := True\<rparr>\<rparr>)), None)"
proof -
  let ?stmts = "fst (classifyBatch env pc sql)" and ?sm = "(pc_sm pc)\<lparr>sm_Absorbing := True\<rparr>"
  have none: "tryHandleRedirectParse env pc name sql ?stmts = None" by (rule tryHandle_left) (simp add: scan)
  have "TransitionWithParser wireCacheView (\<lambda>sql. fst (classifyBatch env pc sql)) (env_rules env) (env_svc env) (pc_sm pc) (pc_wire pc) (ParseFrame name sql)
      = Some (?sm, pc_wire pc, [ActionSynthError (sqlstateForDecision d) (renderDenyMessage d) [], ActionSynthReadyForQuery (CHR ''I'')])"
    using assms by (simp add: TransitionWithParser_def handleParse_def DenyRoute_def in_tx_def containsClose_def Let_def)
  then show ?thesis using none
    by (simp add: simpleQueryStep_def handleExtendedFrame_def Let_def runTransition_Some afterTransition_def actionsCanForward_def executeActions_def)
qed

lemma bind_miss:
  assumes "\<not> sm_Absorbing (pc_sm pc)" "c_byKey (pc_wire pc) statement = None"
  shows "simpleQueryStep env pc (BindFrame portal statement) = (reply (SynthError ''34000'' (''prepared statement '' @ [CHR 0x22] @ statement @ [CHR 0x22] @ '' does not exist'') ''ERROR'') 
   (pc\<lparr>pc_sm := (pc_sm pc)\<lparr>sm_Absorbing := True\<rparr>\<rparr>), None)"
  using assms
  by (simp add: simpleQueryStep_def handleExtendedFrame_def runTransition_def TransitionWithParser_def handleBind_def afterTransition_def
      executeActions_def wireCacheView_def actionsCanForward_def cache_Get_def)


end
