(* ===== verification/Spec2Isabelle.thy ===== *)
theory Spec2Isabelle
  imports CommandCheck ResourceCheck SessionStart DbSessionSafety
begin

text \<open>
  A verification library for agentsh (\<^verbatim>\<open>github.com/agentsh/agentsh\<close>, Go), a shell that runs the commands of AI agents under a
  policy. The library models the parts that decide: what a command, a file access, a network connection, a signal, an HTTP
  request or an SQL statement may do, how credentials are kept from the agent, and what the database proxy sends on.

  \<^bold>\<open>The program and the theories.\<close> Paths are below \<^verbatim>\<open>src/\<close>; definitions keep the names of the Go functions they translate, with a
  prefix where a name clashes (\<^verbatim>\<open>signal_Check\<close> for \<^verbatim>\<open>Engine.Check\<close> of the package \<^verbatim>\<open>signal\<close>, \<^verbatim>\<open>handleSimpleQuery\<close> for the
  method \<^verbatim>\<open>handleQuery\<close> of the proxy connection).

  \<^item> \<^verbatim>\<open>AgentshPrelude\<close>: the operations of \<^verbatim>\<open>strings\<close>, \<^verbatim>\<open>strconv\<close> and \<^verbatim>\<open>path/filepath\<close> the code uses, on strings of bytes, and
    the locales \<open>first_match\<close> of loops that return at the first element that matches and \<open>transition_system\<close>.
  \<^item> \<^verbatim>\<open>ShellParse\<close>: \<^verbatim>\<open>internal/shellparse\<close>, which finds the command a \<^verbatim>\<open>sh -c\<close> script runs. The tokenizer is equivalent to a
    declarative grammar of words; the derived target is the quoted command line below assignments and wrappers; every derivation
    shrinks the arguments.
  \<^item> \<^verbatim>\<open>PolicyTypes\<close>, \<^verbatim>\<open>EnvPolicy\<close>, \<^verbatim>\<open>HttpServices\<close>, \<^verbatim>\<open>PolicyEngine\<close>, \<^verbatim>\<open>PolicyValidate\<close>: the policy file's structures, the environment a command
    gets, HTTP services and their lookup tables, the compiled engine (\<^verbatim>\<open>NewEngine\<close>) and \<^verbatim>\<open>Policy.Validate\<close>, of \<^verbatim>\<open>internal/policy\<close>.
    Library functions whose source is not part of the repository (glob and regular expression compilation, address and URL
    parsing) are the record \<open>golib\<close> of \<open>PolicyTypes\<close>, a parameter of every definition that calls them; the concrete examples use its
    executable instance \<open>literal_lib\<close>. Validated policies compile, and what the checks rely on holds afterwards.
  \<^item> \<^verbatim>\<open>CommandCheck\<close>, \<^verbatim>\<open>ResourceCheck\<close>, \<^verbatim>\<open>NetworkCheck\<close>: the checks of \<^verbatim>\<open>engine.go\<close> and \<^verbatim>\<open>http_service_check.go\<close>. They decide by the first rule that
    matches, deny by default, and the layers around them (inspection of scripts, Tor, the threat feed) only tighten.
  \<^item> \<^verbatim>\<open>SignalPolicy\<close>: \<^verbatim>\<open>internal/signal\<close> and the seccomp notification loop of \<^verbatim>\<open>internal/api/signal_handler_linux.go\<close>: the process
    registry, the classification of targets, the rule engine and the handler, with the width of the kernel's registers written out.
  \<^item> \<^verbatim>\<open>Secrets\<close>, \<^verbatim>\<open>CredSub\<close>, \<^verbatim>\<open>SessionStart\<close>: \<^verbatim>\<open>internal/proxy/secrets\<close>, \<^verbatim>\<open>credsub\<close>, the hooks of \<^verbatim>\<open>internal/proxy\<close> and the credential set-up of
    \<^verbatim>\<open>internal/session\<close>: fake credentials, the substitution of fakes by reals and back, the leak guard, and the order in which
    secret providers are built.
  \<^item> \<^verbatim>\<open>DbEffects\<close>, \<^verbatim>\<open>DbPolicy\<close>, \<^verbatim>\<open>DbEvaluate\<close>, \<^verbatim>\<open>DbExplain\<close>, \<^verbatim>\<open>DbPolicyLoad\<close>: \<^verbatim>\<open>internal/db/effects\<close> and \<^verbatim>\<open>internal/db/policy\<close>: the effects of SQL
    statements, rules, evaluation, explanation, validation and compilation. \<open>DbEvaluate\<close> states a set-based specification
    (\<open>covered\<close>, \<open>permitted\<close>) and proves the loops of the code equivalent to it.
  \<^item> \<^verbatim>\<open>PreparedCache\<close>, \<^verbatim>\<open>DbStateMachine\<close>, \<^verbatim>\<open>DbEvents\<close>, \<^verbatim>\<open>DbCatalog\<close>, \<^verbatim>\<open>DbUpstream\<close>, \<^verbatim>\<open>DbProxy\<close>: the PostgreSQL proxy of
    \<^verbatim>\<open>internal/db/proxy/postgres\<close>: the LRU cache on an explicit list with addresses, refined to a list of bindings; the state
    machine of the extended protocol; the statement events with their digests, redaction and row counts; the resolution of names against a catalog snapshot; the relay of upstream messages; and the dispatcher with its handlers for
    simple queries, extended frames, approvals, redirects, \<^verbatim>\<open>PREPARE\<close>, COPY and function calls.
  \<^item> \<^verbatim>\<open>DbQuerySafety\<close>, \<^verbatim>\<open>DbSessionSafety\<close> and this theory: what the proxy sends to the database and records, for one frame and for whole
    sessions. The step relation \<^const>\<open>session\<close> lets the database answer anything and the policy change between frames.

  \<^bold>\<open>State, errors and effects.\<close> Structs are records, enumerations datatypes. A handler that changes a connection maps the old
  record to the new one; what it writes is appended to fields of the record. Errors are values: \<open>Inl\<close> of a sum, \<open>None\<close>, or a
  datatype of errors; a Go panic is \<open>None\<close> and is shown not to happen where the code relies on it. Integers are unbounded where the
  code's values stay small, with the wrap-around written out where a width matters (system call arguments, object ids), and words
  for network addresses. Locks are not modelled: each method of a locked object is one step.

  \<^bold>\<open>Interfaces.\<close> \<open>first_match\<close> is interpreted for each first-match loop of the engines; \<open>transition_system\<close> for the process registry;
  \<open>forgetful_map\<close>, what a client of a bounded cache may rely on, for the prepared-statement cache; \<open>upstream_blind\<close>, what reading from
  the database leaves alone, for the frames sent and for the events recorded.

  \<^bold>\<open>Bounds and fuel.\<close> The derivation of nested scripts has the code's own bound \<^const>\<open>maxShellCDeriveDepth\<close>. The walk along parent
  links in the process registry may not end and is a \<open>partial_function\<close>; it is shown to return on every registry built with fresh
  process ids, and not to return when a process is registered as its own parent. The topological sort of the secret providers is
  a \<open>partial_function\<close> as well and is shown to return always. Reading from the database and from the client consumes a list of
  messages, so every loop of the proxy is structural. All other loops are structural or have a termination proof.

  \<^bold>\<open>Not modelled.\<close> Parsers and classifiers that rest on external code: YAML decoding, the SQL classifier and the redirect planner on
  top of \<^verbatim>\<open>pg_query\<close>, which are parameters of the proxy, \<^verbatim>\<open>text/template\<close> messages. Input and output: listeners, TLS, the start-up
  handshake, the HTTP reverse proxy, FUSE, ptrace, seccomp installation, eBPF, stores, exporters, the command line and the
  platform layers; their verdicts or data are inputs of the modelled checks. Within the modelled parts: log messages, lifecycle
  events, the latencies and outgoing byte counts of statement events, and errors of writing to a socket.
\<close>

section \<open>A concrete connection\<close>

definition ask_rule :: StatementRule where
  "ask_rule = zero_StatementRule\<lparr>stm_Name := ''ask'', stm_Operations := [''DELETE''], stm_Decision := ''approve''\<rparr>"

definition proxy_rules :: "RuleSet option" where
  "proxy_rules = (case snd (Decode literal_lib (\<lambda>_. None) [(''pg'', pg_service)] [read_rule, ask_rule, drop_rule] []) of
     Inr rs \<Rightarrow> Some rs | Inl _ \<Rightarrow> None)"

text \<open>What the classifier makes of a few statements.\<close>

definition demo_base :: "RuleSet option \<Rightarrow> string \<Rightarrow> ClassifiedStatement list \<times> bool" where
  "demo_base rules sql =
     (if sql = ''SELECT 1'' then ([simple_stmt ''SELECT'' GroupRead], False)
      else if sql = ''DROP TABLE users'' then ([simple_stmt ''DROP'' GroupSchemaDestroy], False)
      else if sql = ''PREPARE p AS DELETE FROM users'' then ([(simple_stmt ''PREPARE_DELETE'' GroupDelete)\<lparr>cst_PreparedName := ''p''\<rparr>], False)
      else if sql = ''PREPARE p AS SELECT 1'' then ([(simple_stmt ''PREPARE_SELECT'' GroupRead)\<lparr>cst_PreparedName := ''p''\<rparr>], False)
      else if sql = ''EXECUTE p'' then ([(simple_stmt ''EXECUTE'' GroupUnknown)\<lparr>cst_PreparedName := ''p'', cst_Error := ''execute''\<rparr>], False)
      else ([], True))"

definition demo_lib :: eventLib where
  "demo_lib = \<lparr>lib_Normalize = (\<lambda>sql. (sql, False)), lib_sha256hex = id, lib_newEventID = ''id'', lib_timeNow = 0\<rparr>"

definition demo_env :: proxyEnv where
  "demo_env = \<lparr>env_rules = proxy_rules, env_svc = ''pg'', env_base = demo_base, env_planner = None, env_events = demo_lib,
     env_approval = ApprovalTimerFired, env_MaxQueryBytes = 100,
     env_loader = \<lparr>ld_SearchPath = (\<lambda>ms. (Inl ''unavailable'', None, ms)), ld_Snapshot = (\<lambda>ms. (Inl ''unavailable'', None, ms))\<rparr>,
     env_copy = [], env_now = 0\<rparr>"

definition approving_env :: proxyEnv where
  "approving_env = demo_env\<lparr>env_approval := ApprovalDecided True False 1\<rparr>"

definition demo_history :: history where
  "demo_history = trace [(demo_env, ParseFrame ''s'' ''SELECT 1''), (demo_env, BindFrame [] ''s''), (demo_env, ExecuteFrame [])] newProxyConn"

lemma demo_session: "\<exists>pc e. session demo_history pc e"
proof -
  have "session [] newProxyConn None" by (rule session.start) (simp_all add: newProxyConn_def)
  then have "\<exists>e. session ([] @ trace [(demo_env, ParseFrame ''s'' ''SELECT 1''), (demo_env, BindFrame [] ''s''), (demo_env, ExecuteFrame [])] newProxyConn)
      (fst (simpleQueryLoop [(demo_env, ParseFrame ''s'' ''SELECT 1''), (demo_env, BindFrame [] ''s''), (demo_env, ExecuteFrame [])] newProxyConn)) e"
    by (rule session_trace) (simp add: wire_frame_def)
  then show ?thesis unfolding demo_history_def append_Nil by blast
qed

text \<open>The messages \<^verbatim>\<open>forwardUpstreamUntilRFQ\<close> passes on and reads past, and how many statements they complete.\<close>

definition relayed_only :: "BackendMessage \<Rightarrow> bool" where
  "relayed_only m = (case m of ErrorResponse _ \<Rightarrow> False | CopyInResponse \<Rightarrow> False | CopyOutResponse \<Rightarrow> False | ReadyForQuery _ \<Rightarrow> False | _ \<Rightarrow> True)"

definition completions :: "BackendMessage list \<Rightarrow> nat" where
  "completions ms = length (filter (\<lambda>m. case m of CommandComplete _ \<Rightarrow> True | _ \<Rightarrow> False) ms)"

lemma completeStatement_fields:
  "length (ur_RowsByStmt (completeStatement tag cur r)) = Suc (length (ur_RowsByStmt r))"
  "ur_ErrorCode (completeStatement tag cur r) = ur_ErrorCode r"
  "ur_YieldedToCopyIn (completeStatement tag cur r) = ur_YieldedToCopyIn r"
  "ur_YieldedToCopyOut (completeStatement tag cur r) = ur_YieldedToCopyOut r"
  by (simp_all add: completeStatement_def split: prod.split)

lemma completions_Cons:
  "completions (m # ms) = (case m of CommandComplete _ \<Rightarrow> Suc (completions ms) | _ \<Rightarrow> completions ms)"
  by (cases m) (simp_all add: completions_def)

lemma relayLoop_prefix:
  assumes "list_all relayed_only ms"
  shows "\<exists>pc' r' cur'. relayLoop now (ms @ rest) pc r cur = relayLoop now rest pc' r' cur' \<and> pc_events pc' = pc_events pc
     \<and> length (ur_RowsByStmt r') = length (ur_RowsByStmt r) + completions ms \<and> ur_ErrorCode r' = ur_ErrorCode r
     \<and> ur_YieldedToCopyIn r' = ur_YieldedToCopyIn r \<and> ur_YieldedToCopyOut r' = ur_YieldedToCopyOut r"
  using assms
proof (induction ms arbitrary: pc r cur)
  case (Cons m ms)
  have IH: "\<exists>pc' r' cur'. relayLoop now (ms @ rest) (reply (Relayed m) pc) r1 cur1 = relayLoop now rest pc' r' cur' \<and> pc_events pc' = pc_events pc
     \<and> length (ur_RowsByStmt r') = length (ur_RowsByStmt r1) + completions ms \<and> ur_ErrorCode r' = ur_ErrorCode r1
     \<and> ur_YieldedToCopyIn r' = ur_YieldedToCopyIn r1 \<and> ur_YieldedToCopyOut r' = ur_YieldedToCopyOut r1" for r1 cur1
    using Cons.IH [of "reply (Relayed m) pc" r1 cur1] Cons.prems by (simp add: ev.blind_basic)
  show ?case
  proof (cases m)
    case (CommandComplete tag)
    with IH [of "completeStatement tag cur r" None] show ?thesis
      by (simp add: completions_Cons completeStatement_fields)
  qed (use Cons.prems IH [of r cur] IH [of r "Some (case cur of None \<Rightarrow> 1 | Some n \<Rightarrow> n + 1)"] in \<open>simp_all add: relayed_only_def completions_Cons\<close>)
qed (auto simp: completions_def)

lemma forward_failed:
  assumes "pc_up pc = ms @ [ErrorResponse code, ReadyForQuery s]" "list_all relayed_only ms"
  shows "\<exists>pc' r. forwardUpstreamUntilRFQ now pc = (pc', r, None) \<and> pc_events pc' = pc_events pc \<and> length (ur_RowsByStmt r) = completions ms
     \<and> ur_ErrorCode r = code \<and> \<not> ur_YieldedToCopyIn r \<and> \<not> ur_YieldedToCopyOut r"
proof -
  from relayLoop_prefix [OF assms(2), of now "[ErrorResponse code, ReadyForQuery s]" pc zero_upstreamResult None]
  obtain pc' r' cur' where "relayLoop now (pc_up pc) pc zero_upstreamResult None = relayLoop now [ErrorResponse code, ReadyForQuery s] pc' r' cur'"
    "pc_events pc' = pc_events pc" "length (ur_RowsByStmt r') = completions ms" "ur_ErrorCode r' = []" "\<not> ur_YieldedToCopyIn r'" "\<not> ur_YieldedToCopyOut r'"
    unfolding assms(1) by (auto simp: zero_upstreamResult_def)
  then show ?thesis by (simp add: forwardUpstreamUntilRFQ_def Let_def noteError_def ev.blind ev.blind_basic)
qed

lemma allowEvents_code:
  assumes "i < length stmts"
  shows "ba_UpstreamErrCode (map (\<lambda>a. a\<lparr>ba_smState := st\<rparr>) (allowEvents env sql stmts ds r) ! i)
    = (if i < length (ur_RowsByStmt r) then if i = 0 then ur_ErrorCode r else [] else ''STATEMENT_ABORTED_BY_PRIOR_ERROR'')"
  using assms by (simp add: allowEvents_def)

definition allowed :: DbDecision where
  "allowed = approvalDecision VerbAllow read_rule []"

section \<open>The proxy between client and database\<close>

text \<open>C2: Whatever frame the client sends and whatever the database answers, one iteration of \<^verbatim>\<open>simpleQueryLoop\<close> only appends to what
  was sent to the database, and every frame it appends satisfies \<open>sendable\<close>. A query is passed on when the policy allows or
  audits each of its judged statements, or would with approval and consent was given; COPY frames only follow an allowed
  query. A \<^verbatim>\<open>Parse\<close> is passed on when each statement is allowed or audited, or when its first statement to approve or to deny
  is one to approve and consent was given. Text other than the client's is sent only for a single redirected statement, and only text that
  classifies as one read-only statement, or as \<^verbatim>\<open>ROLLBACK\<close> in an open transaction. \<^verbatim>\<open>Bind\<close> and \<^verbatim>\<open>Execute\<close> need a cached statement or
  portal, a function call the service's opt-in and a decision other than deny, with consent where it is to approve; \<^verbatim>\<open>Bind\<close>, \<^verbatim>\<open>Describe\<close>, \<^verbatim>\<open>Execute\<close>, \<^verbatim>\<open>Flush\<close> and \<^verbatim>\<open>Close\<close> are
  not passed on while the connection absorbs.\<close>

theorem proxy_sends_only_cleared:
  "pc_sent (fst (simpleQueryStep env pc f)) = pc_sent pc @ newly_sent pc (fst (simpleQueryStep env pc f))
   \<and> list_all (sendable env pc f) (newly_sent pc (fst (simpleQueryStep env pc f)))"
  using simpleQueryStep_ok [of env pc f] by (auto simp: step_ok_def newly_sent_def)

text \<open>C3: In every session, of any length and with any replies of the database and changes of the policy between the steps, an \<^verbatim>\<open>Execute\<close>
  of a portal reaches the database only after a \<^verbatim>\<open>Bind\<close> of that portal was sent to it, which was sent after a \<^verbatim>\<open>Parse\<close> of the
  bound statement that the policy of its own step had cleared.\<close>

theorem executed_portals_were_parsed:
  assumes "session h pc e" "sent_at h i (ExecuteFrame portal)"
  shows "\<exists>j statement k sql. k < j \<and> j < i \<and> sent_at h j (BindFrame portal statement) \<and> sent_at h k (ParseFrame statement sql)
     \<and> cleared h k (ParseFrame statement sql)"
proof -
  from session_ordered [OF assms(1)] have o: "ordered h" ..
  with assms(2) obtain j statement where j: "j < i" "sent_at h j (BindFrame portal statement)" unfolding ordered_def by blast
  with o obtain k sql where k: "k < j" "sent_at h k (ParseFrame statement sql)" unfolding ordered_def by blast
  with o have "cleared h k (ParseFrame statement sql)" unfolding ordered_def by blast
  with j k show ?thesis by blast
qed

theorem executed_portals_were_parsed_witness:
  "\<exists>j statement k sql. k < j \<and> j < 2 \<and> sent_at demo_history j (BindFrame [] statement) \<and> sent_at demo_history k (ParseFrame statement sql)
     \<and> cleared demo_history k (ParseFrame statement sql)"
proof -
  obtain pc e where s: "session demo_history pc e" using demo_session by blast
  have "sent_at demo_history 2 (ExecuteFrame [])" by code_simp
  from executed_portals_were_parsed [OF s this] show ?thesis .
qed



text \<open>C26: A \<^verbatim>\<open>Parse\<close> that is denied outside a transaction, with nothing sent since the last \<^verbatim>\<open>Sync\<close>, is answered with an error and a
  \<^verbatim>\<open>ReadyForQuery\<close>, and the client's \<^verbatim>\<open>Sync\<close> with a second \<^verbatim>\<open>ReadyForQuery\<close>; nothing is sent to the database.\<close>

theorem denied_parse_answered_twice:
  assumes "\<not> sm_Absorbing (pc_sm pc)" "\<not> sm_UpstreamDirtySinceSync (pc_sm pc)" "\<not> in_tx pc"
    and "scanStatements (env_rules env) (env_svc env) (fst (classifyBatch env pc sql)) = Some (ScanDeny d)"
  shows "pc_out (fst (simpleQueryLoop [(env, ParseFrame name sql), (env, SyncFrame)] pc))
           = pc_out pc @ [SynthError (sqlstateForDecision d) (renderDenyMessage d) ''ERROR'', SynthReady (CHR ''I''), SynthReady (CHR ''I'')]
       \<and> pc_sent (fst (simpleQueryLoop [(env, ParseFrame name sql), (env, SyncFrame)] pc)) = pc_sent pc"
  using assms by (simp add: denied_parse sync_absorbed reply_def)

text \<open>In an open transaction with nothing sent since the last \<^verbatim>\<open>Sync\<close>, a \<^verbatim>\<open>Bind\<close> of an unknown statement followed by \<^verbatim>\<open>Sync\<close> tells the
  client \<^verbatim>\<open>ReadyForQuery\<close> with status \<open>I\<close>, idle, although the database last reported \<open>T\<close> and nothing was sent to it since.\<close>

lemma sync_forgets_transaction:
  assumes "\<not> sm_Absorbing (pc_sm pc)" "\<not> sm_UpstreamDirtySinceSync (pc_sm pc)" "sm_LastUpstreamRFQ (pc_sm pc) = CHR ''T''"
    and "c_byKey (pc_wire pc) statement = None"
  shows "pc_out (fst (simpleQueryLoop [(env, BindFrame portal statement), (env, SyncFrame)] pc))
           = pc_out pc @ [SynthError ''34000'' (''prepared statement '' @ [CHR 0x22] @ statement @ [CHR 0x22] @ '' does not exist'') ''ERROR'', SynthReady (CHR ''I'')]
       \<and> sm_LastUpstreamRFQ (pc_sm (fst (simpleQueryLoop [(env, BindFrame portal statement), (env, SyncFrame)] pc))) = CHR ''T''"
  using assms by (simp add: bind_miss sync_absorbed reply_def)

text \<open>The handling of \<^verbatim>\<open>Execute\<close> does not depend on the policy in force at that time, only on what \<^verbatim>\<open>Parse\<close> and \<^verbatim>\<open>Bind\<close> left in the
  cache, and it appends no statement event.\<close>

lemma execute_ignores_policy:
  "handleExtendedFrame (env\<lparr>env_rules := rs\<rparr>) pc (ExecuteFrame portal) = handleExtendedFrame env pc (ExecuteFrame portal)
   \<and> pc_events (fst (handleExtendedFrame env pc (ExecuteFrame portal))) = pc_events pc"
proof -
  obtain c v where g: "cache_Get (pc_wire pc) (portalCacheKey portal) = (c, v)" by fastforce
  have "pc_events (markCatalogRefreshPendingForExecute portal as p) = pc_events p" for as p
    by (simp add: markCatalogRefreshPendingForExecute_def Let_def ev.blind_basic split: prod.split option.split)
  then show ?thesis
    using g by (cases v) (simp_all add: handleExtendedFrame_def runTransition_def TransitionWithParser_def handleExecute_def wireCacheView_def
      afterTransition_def executeActions_def reply_def send_def)
qed

theorem denied_parse_answered_twice_witness:
  "\<exists>d. pc_out (fst (simpleQueryLoop [(demo_env, ParseFrame ''s'' ''DROP TABLE users''), (demo_env, SyncFrame)] newProxyConn))
     = pc_out newProxyConn @ [SynthError (sqlstateForDecision d) (renderDenyMessage d) ''ERROR'', SynthReady (CHR ''I''), SynthReady (CHR ''I'')]"
proof -
  let ?scan = "scanStatements (env_rules demo_env) (env_svc demo_env) (fst (classifyBatch demo_env newProxyConn ''DROP TABLE users''))"
  have "(case ?scan of Some (ScanDeny d) \<Rightarrow> True | _ \<Rightarrow> False)" by code_simp
  then obtain d where "?scan = Some (ScanDeny d)" by (auto split: option.splits scan.splits)
  moreover have "\<not> sm_Absorbing (pc_sm newProxyConn)" "\<not> sm_UpstreamDirtySinceSync (pc_sm newProxyConn)" "\<not> in_tx newProxyConn"
    by (simp_all add: newProxyConn_def zero_ConnState_def in_tx_def)
  ultimately show ?thesis using denied_parse_answered_twice by blast
qed

text \<open>C27: When the database fails a statement of an allowed query, after completing any number of earlier ones, the event of that
  statement says it was aborted by a prior error; where earlier statements completed, the code of the error is in the event of
  the first of them.\<close>

theorem failed_statement_misreported:
  assumes "pc_up pc = ms @ [ErrorResponse code, ReadyForQuery s]" "list_all relayed_only ms" "completions ms < length stmts"
  shows "\<exists>evs. pc_events (fst (runSimpleQueryAllow env pc sql stmts ds)) = pc_events pc @ evs \<and> length evs = length stmts
     \<and> ba_UpstreamErrCode (evs ! completions ms) = ''STATEMENT_ABORTED_BY_PRIOR_ERROR''
     \<and> (0 < completions ms \<longrightarrow> ba_UpstreamErrCode (evs ! 0) = code)"
proof -
  have "pc_up (send (QueryFrame sql) pc) = ms @ [ErrorResponse code, ReadyForQuery s]" using assms(1) by (simp add: send_def)
  from forward_failed [OF this assms(2), of "env_now env"] obtain pc1 r where
    f: "forwardUpstreamUntilRFQ (env_now env) (send (QueryFrame sql) pc) = (pc1, r, None)" and e: "pc_events pc1 = pc_events pc"
    and r: "length (ur_RowsByStmt r) = completions ms" "ur_ErrorCode r = code" "\<not> ur_YieldedToCopyIn r" "\<not> ur_YieldedToCopyOut r" by auto
  let ?evs = "map (\<lambda>a. a\<lparr>ba_smState := pc_sm pc1\<rparr>) (allowEvents env sql stmts ds r)"
  have "pc_events (fst (runSimpleQueryAllow env pc sql stmts ds)) = pc_events pc @ ?evs"
    using r e by (simp add: runSimpleQueryAllow_def f ev.blind_refreshes events_emit)
  moreover have "ba_UpstreamErrCode (?evs ! completions ms) = ''STATEMENT_ABORTED_BY_PRIOR_ERROR''"
    unfolding allowEvents_code [OF assms(3)] r(1) by simp
  moreover have "ba_UpstreamErrCode (?evs ! 0) = code" if c: "0 < completions ms"
    unfolding allowEvents_code [OF less_trans [OF c assms(3)]] r(1,2) using c by simp
  moreover have "length ?evs = length stmts" by (simp add: allowEvents_def)
  ultimately show ?thesis by (intro exI [of _ ?evs] conjI impI)
qed

theorem failed_statement_misreported_witness:
  "\<exists>evs. pc_events (fst (runSimpleQueryAllow demo_env
        (newProxyConn\<lparr>pc_up := [DataRow [], CommandComplete ''SELECT 1''] @ [ErrorResponse ''42P01'', ReadyForQuery (CHR ''I'')]\<rparr>) ''SELECT 1; SELECT x''
        [simple_stmt ''SELECT'' GroupRead, simple_stmt ''SELECT'' GroupRead] [allowed, allowed]))
      = pc_events (newProxyConn\<lparr>pc_up := [DataRow [], CommandComplete ''SELECT 1''] @ [ErrorResponse ''42P01'', ReadyForQuery (CHR ''I'')]\<rparr>) @ evs
     \<and> ba_UpstreamErrCode (evs ! 1) = ''STATEMENT_ABORTED_BY_PRIOR_ERROR'' \<and> ba_UpstreamErrCode (evs ! 0) = ''42P01''"
  using failed_statement_misreported [of "newProxyConn\<lparr>pc_up := [DataRow [], CommandComplete ''SELECT 1''] @ [ErrorResponse ''42P01'', ReadyForQuery (CHR ''I'')]\<rparr>"
      "[DataRow [], CommandComplete ''SELECT 1'']" "''42P01''" "CHR ''I''" "[simple_stmt ''SELECT'' GroupRead, simple_stmt ''SELECT'' GroupRead]"
      demo_env "''SELECT 1; SELECT x''" "[allowed, allowed]"]
  by (auto simp: relayed_only_def completions_def)



end
